(* ===== verification/Prelude.thy ===== *)
theory Prelude
  imports Complex_Main "HOL-Library.Char_ord" "HOL-Library.List_Lexorder" "HOL-Library.Sublist"
begin

text \<open>
  The prelude of the Lapcare development: the collections of facts the component theories
  share, and the generic lemmas on options, sums and lists they use.

  \<^item> \<open>py_defs\<close> unfolds the model's helper definitions of the Python language;
  \<^item> \<open>io_simps\<close> evaluates the effect monad of the ports (theory \<open>Ports\<close>);
  \<^item> \<open>inv_intros\<close> and \<open>step_defs\<close> drive the invariant proofs of the view-models.

  A Python \<open>str\<close> is modelled by the bytes of its UTF-8 encoding, an Isabelle \<open>string\<close>;
  theory \<open>PyStr\<close> cuts it into code points.
\<close>

named_theorems py_defs
named_theorems io_simps
named_theorems inv_intros
named_theorems step_defs

type_synonym bytes = string
type_synonym path = "string list"

section \<open>Options and truth values\<close>

text \<open>\<open>x or y\<close> for an optional string: None and the empty string are false in Python.\<close>

definition or_str :: "string option \<Rightarrow> string \<Rightarrow> string" where
  "or_str x y = (case x of None \<Rightarrow> y | Some s \<Rightarrow> (if s = [] then y else s))"

text \<open>\<open>x or None\<close> for a string.\<close>

definition or_none :: "string \<Rightarrow> string option" where
  "or_none s = (if s = [] then None else Some s)"

lemma or_str_simps [simp]:
  "or_str None y = y"
  "or_str (Some []) y = y"
  "or_str (Some (c # s)) y = c # s"
  by (simp_all add: or_str_def)

lemma or_str_nonempty: "y \<noteq> [] \<Longrightarrow> or_str x y \<noteq> []"
  by (simp add: or_str_def split: option.splits)

lemma or_none_simps [simp]:
  "or_none [] = None"
  "or_none (c # s) = Some (c # s)"
  by (simp_all add: or_none_def)

lemma or_none_eq_Some [simp]: "or_none s = Some t \<longleftrightarrow> s = t \<and> t \<noteq> []"
  by (auto simp: or_none_def)

section \<open>Sums\<close>

lemma case_sum_Inl_id: "(case x of Inl e \<Rightarrow> Inl e | Inr a \<Rightarrow> Inr a) = x"
  by (cases x) auto

section \<open>Lists\<close>

lemma length_dropWhile_lt_Suc [simp]: "length (dropWhile P xs) < Suc (length xs)"
  by (simp add: length_dropWhile_le le_imp_less_Suc)

lemma takeWhile_all_False: "(\<And>x. x \<in> set xs \<Longrightarrow> \<not> P x) \<Longrightarrow> takeWhile P xs = []"
  by (cases xs) auto

lemma dropWhile_all_False: "(\<And>x. x \<in> set xs \<Longrightarrow> \<not> P x) \<Longrightarrow> dropWhile P xs = xs"
  by (cases xs) auto

text \<open>The last element of a list with a property, as a loop that overwrites finds it.\<close>

definition find_last :: "('a \<Rightarrow> bool) \<Rightarrow> 'a list \<Rightarrow> 'a option" where
  "find_last P xs = find P (rev xs)"

lemma find_last_None [simp]: "find_last P xs = None \<longleftrightarrow> (\<forall>x\<in>set xs. \<not> P x)"
  by (auto simp: find_last_def find_None_iff)

lemma find_last_SomeD: "find_last P xs = Some x \<Longrightarrow> x \<in> set xs \<and> P x"
  unfolding find_last_def by (metis find_Some_iff nth_mem set_rev)

lemma set_map_filter: "set (List.map_filter f xs) = {y. \<exists>x\<in>set xs. f x = Some y}"
  by (induction xs) (auto simp: List.map_filter_simps split: option.splits)

section \<open>Dicts\<close>

text \<open>\<open>dict\<close> of a list of pairs: a repeated key keeps its first place and its last value.\<close>

fun dict_set :: "'k \<Rightarrow> 'v \<Rightarrow> ('k \<times> 'v) list \<Rightarrow> ('k \<times> 'v) list" where
  "dict_set k v [] = [(k, v)]"
| "dict_set k v ((a, b) # xs) = (if a = k then (k, v) # xs else (a, b) # dict_set k v xs)"

definition dict_of :: "('k \<times> 'v) list \<Rightarrow> ('k \<times> 'v) list" where
  "dict_of kvs = foldl (\<lambda>d (k, v). dict_set k v d) [] kvs"

fun dict_get :: "'k \<Rightarrow> ('k \<times> 'v) list \<Rightarrow> 'v option" where
  "dict_get k [] = None"
| "dict_get k ((a, b) # xs) = (if a = k then Some b else dict_get k xs)"

lemma dict_set_fresh: "k \<notin> fst ` set d \<Longrightarrow> dict_set k v d = d @ [(k, v)]"
  by (induction d) auto

lemma dict_of_distinct: "distinct (List.map fst kvs) \<Longrightarrow> dict_of kvs = kvs"
proof -
  have "distinct (List.map fst (d @ kvs)) \<Longrightarrow> foldl (\<lambda>d (k, v). dict_set k v d) d kvs = d @ kvs" for d
  proof (induction kvs arbitrary: d)
    case (Cons kv kvs)
    then show ?case using Cons.IH [of "d @ [kv]"] by (cases kv) (simp add: dict_set_fresh)
  qed simp
  from this [of "[]"] show "distinct (List.map fst kvs) \<Longrightarrow> dict_of kvs = kvs" by (simp add: dict_of_def)
qed

lemma dict_set_keys: "fst ` set (dict_set k v d) = insert k (fst ` set d)"
  by (induction k v d rule: dict_set.induct) auto

lemma dict_set_distinct: "distinct (List.map fst d) \<Longrightarrow> distinct (List.map fst (dict_set k v d))"
proof (induction k v d rule: dict_set.induct)
  case (2 k v a b xs)
  then show ?case by (cases "a = k") (simp_all add: dict_set_keys)
qed simp

lemma dict_of_append [simp]: "dict_of [] = []" "dict_of (kvs @ [(k, v)]) = dict_set k v (dict_of kvs)"
  by (simp_all add: dict_of_def)

lemma dict_of_distinct_keys: "distinct (List.map fst (dict_of kvs))"
  by (induction kvs rule: rev_induct) (auto simp: dict_set_distinct)

lemma dict_of_keys: "fst ` set (dict_of kvs) = fst ` set kvs"
proof (induction kvs rule: rev_induct)
  case (snoc kv kvs)
  then show ?case by (cases kv) (simp add: dict_set_keys)
qed simp

lemma dict_set_values: "snd ` set (dict_set k v d) \<subseteq> insert v (snd ` set d)"
  by (induction k v d rule: dict_set.induct) auto

lemma dict_of_values: "snd ` set (dict_of kvs) \<subseteq> snd ` set kvs"
proof (induction kvs rule: rev_induct)
  case (snoc kv kvs)
  then show ?case using dict_set_values [of "fst kv" "snd kv" "dict_of kvs"] by (cases kv) (simp, blast)
qed simp

lemma dict_get_set: "dict_get k (dict_set l v d) = (if k = l then Some v else dict_get k d)"
  by (induction l v d rule: dict_set.induct) auto

lemma dict_get_None: "dict_get k d = None \<longleftrightarrow> k \<notin> fst ` set d"
  by (induction k d rule: dict_get.induct) auto

text \<open>A key has the value of its last pair.\<close>

lemma dict_get_of: "dict_get k (dict_of kvs) =
   (let vs = List.map snd (filter (\<lambda>kv. fst kv = k) kvs) in if vs = [] then None else Some (last vs))"
  by (induction kvs rule: rev_induct) (auto simp: dict_get_set Let_def)

lemma dict_get_mem: "distinct (List.map fst d) \<Longrightarrow> (k, v) \<in> set d \<longleftrightarrow> dict_get k d = Some v"
proof (induction d)
  case (Cons e d)
  obtain l u where e: "e = (l, u)" by (cases e)
  have "(l, v) \<notin> set d" using Cons.prems by (force simp: e)
  with Cons e show ?case by auto
qed simp

end
