(* ===== verification/PyStr.thy ===== *)
theory PyStr
  imports Prelude
begin

text \<open>
  Python strings. A \<open>str\<close> is the list of bytes of its UTF-8 encoding; \<open>chars\<close> cuts it
  into code points, each again a short \<open>string\<close>, and the methods of \<open>str\<close> the program
  uses are list functions on these. Slicing and \<open>len\<close> therefore count code points, and
  \<open>strip\<close>, \<open>split\<close> and \<open>splitlines\<close> know all of Unicode's white space and line
  boundaries. \<open>lower\<close> and \<open>upper\<close> map ASCII letters and leave every other code point
  alone, which is what the strings the program folds (vendor names, hexadecimal ids, machine
  names) need. \<open>bytes.decode(errors="replace")\<close> is \<open>decode_replace\<close>.
\<close>

section \<open>Code points\<close>

definition is_cont :: "char \<Rightarrow> bool" where
  [py_defs]: "is_cont c \<longleftrightarrow> 128 \<le> (of_char c :: nat) \<and> (of_char c :: nat) < 192"

function chars :: "string \<Rightarrow> string list" where
  "chars [] = []"
| "chars (c # cs) = (c # takeWhile is_cont cs) # chars (dropWhile is_cont cs)"
  by pat_completeness auto
termination by (relation "measure length") auto

lemma concat_chars [simp]: "concat (chars s) = s"
  by (induction s rule: chars.induct) simp_all

lemma chars_eq_Nil [simp]: "chars s = [] \<longleftrightarrow> s = []"
  by (cases s) simp_all

lemma chars_nonempty: "c \<in> set (chars s) \<Longrightarrow> c \<noteq> []"
  by (induction s rule: chars.induct) auto

lemma takeWhile_append_stop: "ys = [] \<or> \<not> P (hd ys) \<Longrightarrow> takeWhile P (xs @ ys) = takeWhile P xs"
  by (induction xs) (cases ys; auto)+

lemma dropWhile_append_stop: "ys = [] \<or> \<not> P (hd ys) \<Longrightarrow> dropWhile P (xs @ ys) = dropWhile P xs @ ys"
  by (induction xs) (cases ys; auto)+

lemma chars_append: "t = [] \<or> \<not> is_cont (hd t) \<Longrightarrow> chars (s @ t) = chars s @ chars t"
  by (induction s rule: chars.induct)
     (simp_all add: takeWhile_append_stop dropWhile_append_stop)

definition ascii :: "string \<Rightarrow> bool" where
  "ascii s \<longleftrightarrow> (\<forall>c\<in>set s. (of_char c :: nat) < 128)"

lemma ascii_simps [simp]:
  "ascii []"
  "ascii (c # s) \<longleftrightarrow> (of_char c :: nat) < 128 \<and> ascii s"
  "ascii (s @ t) \<longleftrightarrow> ascii s \<and> ascii t"
  by (auto simp: ascii_def)

lemma ascii_not_cont: "(of_char c :: nat) < 128 \<Longrightarrow> \<not> is_cont c"
  by (simp add: is_cont_def)

lemma ascii_hd: "ascii s \<Longrightarrow> s = [] \<or> \<not> is_cont (hd s)"
  by (cases s) (auto simp: ascii_not_cont)

lemma chars_ascii: "ascii s \<Longrightarrow> chars s = map (\<lambda>c. [c]) s"
proof (induction s)
  case (Cons c s)
  then have "chars (c # s) = [c] # chars s"
    using dropWhile_append_stop [of s is_cont "[]"] takeWhile_append_stop [of s is_cont "[]"] ascii_hd [of s]
    by simp
  with Cons show ?case by simp
qed simp

definition pylen :: "string \<Rightarrow> nat" where
  "pylen s = length (chars s)"

text \<open>\<open>s[:n]\<close>\<close>

definition pytake :: "nat \<Rightarrow> string \<Rightarrow> string" where
  "pytake n s = concat (take n (chars s))"

lemma pytake_ascii: "ascii s \<Longrightarrow> pytake n s = take n s"
  by (simp add: pytake_def chars_ascii take_map)

section \<open>White space and line boundaries\<close>

definition unicode_space :: "string list" where
  [py_defs]: "unicode_space =
     [[CHR 0x09], [CHR 0x0A], [CHR 0x0B], [CHR 0x0C], [CHR 0x0D],
      [CHR 0x1C], [CHR 0x1D], [CHR 0x1E], [CHR 0x1F], [CHR 0x20],
      [CHR 0xC2, CHR 0x85], [CHR 0xC2, CHR 0xA0], [CHR 0xE1, CHR 0x9A, CHR 0x80],
      [CHR 0xE2, CHR 0x80, CHR 0x80], [CHR 0xE2, CHR 0x80, CHR 0x81],
      [CHR 0xE2, CHR 0x80, CHR 0x82], [CHR 0xE2, CHR 0x80, CHR 0x83],
      [CHR 0xE2, CHR 0x80, CHR 0x84], [CHR 0xE2, CHR 0x80, CHR 0x85],
      [CHR 0xE2, CHR 0x80, CHR 0x86], [CHR 0xE2, CHR 0x80, CHR 0x87],
      [CHR 0xE2, CHR 0x80, CHR 0x88], [CHR 0xE2, CHR 0x80, CHR 0x89],
      [CHR 0xE2, CHR 0x80, CHR 0x8A], [CHR 0xE2, CHR 0x80, CHR 0xA8],
      [CHR 0xE2, CHR 0x80, CHR 0xA9], [CHR 0xE2, CHR 0x80, CHR 0xAF],
      [CHR 0xE2, CHR 0x81, CHR 0x9F], [CHR 0xE3, CHR 0x80, CHR 0x80]]"

definition is_space :: "string \<Rightarrow> bool" where
  [py_defs]: "is_space c \<longleftrightarrow> c \<in> set unicode_space"

definition is_linebreak :: "string \<Rightarrow> bool" where
  [py_defs]: "is_linebreak c \<longleftrightarrow> c \<in> set
     [[CHR 0x0A], [CHR 0x0B], [CHR 0x0C], [CHR 0x0D], [CHR 0x1C], [CHR 0x1D], [CHR 0x1E],
      [CHR 0xC2, CHR 0x85], [CHR 0xE2, CHR 0x80, CHR 0xA8], [CHR 0xE2, CHR 0x80, CHR 0xA9]]"

lemma linebreak_space: "is_linebreak c \<Longrightarrow> is_space c"
  by (auto simp: py_defs)

definition rdropWhile :: "('a \<Rightarrow> bool) \<Rightarrow> 'a list \<Rightarrow> 'a list" where
  "rdropWhile P xs = rev (dropWhile P (rev xs))"

definition strip :: "string \<Rightarrow> string" where
  "strip s = concat (rdropWhile is_space (dropWhile is_space (chars s)))"

text \<open>\<open>s.strip(cs)\<close> for a string of ASCII characters.\<close>

definition strip_chars :: "char list \<Rightarrow> string \<Rightarrow> string" where
  "strip_chars cs s = rdropWhile (\<lambda>c. c \<in> set cs) (dropWhile (\<lambda>c. c \<in> set cs) s)"

text \<open>
  The flag says that the previous code point was a carriage return, whose line feed belongs
  to the same line boundary.
\<close>

fun splitlines_aux :: "bool \<Rightarrow> string \<Rightarrow> string list \<Rightarrow> string list" where
  "splitlines_aux cr acc [] = (if acc = [] then [] else [acc])"
| "splitlines_aux cr acc (c # cs) =
     (if cr \<and> c = [CHR 0x0A] then splitlines_aux False acc cs
      else if is_linebreak c then acc # splitlines_aux (c = [CHR 0x0D]) [] cs
      else splitlines_aux False (acc @ c) cs)"

definition splitlines :: "string \<Rightarrow> string list" where
  "splitlines s = splitlines_aux False [] (chars s)"

fun split_ws_aux :: "string \<Rightarrow> string list \<Rightarrow> string list" where
  "split_ws_aux acc [] = (if acc = [] then [] else [acc])"
| "split_ws_aux acc (c # cs) =
     (if is_space c then (if acc = [] then split_ws_aux [] cs else acc # split_ws_aux [] cs)
      else split_ws_aux (acc @ c) cs)"

text \<open>\<open>s.split()\<close>\<close>

definition split_ws :: "string \<Rightarrow> string list" where
  "split_ws s = split_ws_aux [] (chars s)"

section \<open>Substrings\<close>

definition startswith :: "string \<Rightarrow> string \<Rightarrow> bool" where
  "startswith s p \<longleftrightarrow> take (length p) s = p"

definition endswith :: "string \<Rightarrow> string \<Rightarrow> bool" where
  "endswith s p \<longleftrightarrow> length p \<le> length s \<and> drop (length s - length p) s = p"

lemma startswith_append [simp]: "startswith (p @ s) p"
  by (simp add: startswith_def)

lemma startswith_iff: "startswith s p \<longleftrightarrow> (\<exists>t. s = p @ t)"
  by (metis append_eq_conv_conj append_take_drop_id startswith_def)

text \<open>The first occurrence of a separator: what stands before it and what follows it.\<close>

fun break_on :: "string \<Rightarrow> string \<Rightarrow> (string \<times> string) option" where
  "break_on sep [] = (if sep = [] then Some ([], []) else None)"
| "break_on sep (c # cs) =
     (if startswith (c # cs) sep then Some ([], drop (length sep) (c # cs))
      else map_option (apfst (Cons c)) (break_on sep cs))"

definition contains :: "string \<Rightarrow> string \<Rightarrow> bool" where
  "contains s sub \<longleftrightarrow> break_on sub s \<noteq> None"

text \<open>\<open>s.split(sep, n)\<close>: at most \<open>n\<close> cuts.\<close>

fun split_max :: "nat \<Rightarrow> string \<Rightarrow> string \<Rightarrow> string list" where
  "split_max 0 sep s = [s]"
| "split_max (Suc n) sep s =
     (case break_on sep s of None \<Rightarrow> [s] | Some (a, b) \<Rightarrow> a # split_max n sep b)"

text \<open>\<open>s.partition(sep)\<close>\<close>

definition partition_on :: "string \<Rightarrow> string \<Rightarrow> string \<times> string \<times> string" where
  "partition_on sep s = (case break_on sep s of None \<Rightarrow> (s, [], []) | Some (a, b) \<Rightarrow> (a, sep, b))"

lemma break_on_Some: "break_on sep s = Some (a, b) \<Longrightarrow> s = a @ sep @ b"
proof (induction sep s arbitrary: a rule: break_on.induct)
  case (2 sep c cs)
  show ?case
  proof (cases "startswith (c # cs) sep")
    case True
    with 2 show ?thesis by (auto simp: startswith_def) (metis append_take_drop_id)
  next
    case False
    with 2 show ?thesis by (cases "break_on sep cs") auto
  qed
qed (auto split: if_splits)

text \<open>A single-character separator that does not occur before: the cut is where it stands.\<close>

lemma break_on_char:
  "c \<notin> set a \<Longrightarrow> break_on (c # p) (a @ (c # p) @ b) = Some (a, b)"
  by (induction a) (auto simp: startswith_def)

lemma break_on_None: "c \<notin> set a \<Longrightarrow> break_on (c # p) a = None"
  by (induction a) (auto simp: startswith_def take_Cons')

fun joinwith :: "string \<Rightarrow> string list \<Rightarrow> string" where
  "joinwith sep [] = []"
| "joinwith sep [s] = s"
| "joinwith sep (s # t # ss) = s @ sep @ joinwith sep (t # ss)"

definition lower_char :: "char \<Rightarrow> char" where
  "lower_char c = (if 65 \<le> (of_char c :: nat) \<and> (of_char c :: nat) \<le> 90 then char_of (of_char c + 32 :: nat) else c)"

definition upper_char :: "char \<Rightarrow> char" where
  "upper_char c = (if 97 \<le> (of_char c :: nat) \<and> (of_char c :: nat) \<le> 122 then char_of (of_char c - 32 :: nat) else c)"

definition lower :: "string \<Rightarrow> string" where
  "lower s = List.map lower_char s"

definition upper :: "string \<Rightarrow> string" where
  "upper s = List.map upper_char s"

text \<open>\<open>s.capitalize()\<close>\<close>

definition capitalize :: "string \<Rightarrow> string" where
  "capitalize s = (case s of [] \<Rightarrow> [] | c # cs \<Rightarrow> upper_char c # lower cs)"

lemma capitalize_nonempty [simp]: "capitalize s = [] \<longleftrightarrow> s = []"
  by (simp add: capitalize_def split: list.splits)

section \<open>Facts about the methods\<close>

lemma splitlines_aux_plain:
  "(\<And>c. c \<in> set cs \<Longrightarrow> \<not> is_linebreak c) \<Longrightarrow>
   splitlines_aux cr acc cs = (if acc @ concat cs = [] then [] else [acc @ concat cs])"
  by (induction cs arbitrary: acc cr) (auto simp: is_linebreak_def)

lemma splitlines_aux_newline:
  "(\<And>c. c \<in> set cs \<Longrightarrow> \<not> is_linebreak c) \<Longrightarrow>
   splitlines_aux False acc (cs @ [CHR 0x0A] # ds) = (acc @ concat cs) # splitlines_aux False [] ds"
  by (induction cs arbitrary: acc) (auto simp: is_linebreak_def)

definition one_line :: "string \<Rightarrow> bool" where
  "one_line s \<longleftrightarrow> (\<forall>c\<in>set (chars s). \<not> is_linebreak c)"

lemma splitlines_one_line: "one_line s \<Longrightarrow> splitlines s = (if s = [] then [] else [s])"
  by (simp add: splitlines_def one_line_def splitlines_aux_plain)

lemma splitlines_cons_line:
  assumes "one_line s" and "t = [] \<or> \<not> is_cont (hd t)"
  shows "splitlines (s @ [CHR 0x0A] @ t) = s # splitlines t"
proof -
  have "chars (s @ [CHR 0x0A] @ t) = chars s @ chars ([CHR 0x0A] @ t)"
    by (rule chars_append) (simp add: is_cont_def)
  also have "chars ([CHR 0x0A] @ t) = [CHR 0x0A] # chars t"
    using assms(2) by (cases t) auto
  finally show ?thesis
    using assms(1) by (simp add: splitlines_def one_line_def splitlines_aux_newline)
qed

lemma one_line_append_ascii: "one_line s \<Longrightarrow> one_line t \<Longrightarrow> t = [] \<or> \<not> is_cont (hd t) \<Longrightarrow> one_line (s @ t)"
  by (auto simp: one_line_def chars_append)

lemma strip_idem_edges:
  assumes "s \<noteq> []" "\<not> is_space (hd (chars s))" "\<not> is_space (last (chars s))"
  shows "strip s = s"
  using assms by (simp add: strip_def rdropWhile_def dropWhile_eq_self_iff [THEN iffD2] hd_rev)

lemma strip_Nil [simp]: "strip [] = []"
  by (simp add: strip_def rdropWhile_def)

section \<open>Decoding bytes: \<open>bytes.decode(errors="replace")\<close>\<close>

text \<open>
  The well-formed byte sequences of UTF-8 (Unicode, table 3-7): for a leading byte, the
  ranges its following bytes must lie in. A truncated or broken sequence is replaced by
  U+FFFD as a whole (its maximal well-formed prefix), and decoding goes on at the byte
  that broke it, as CPython's decoder does.
\<close>

definition utf8_tail :: "nat \<Rightarrow> (nat \<times> nat) list option" where
  "utf8_tail b =
     (if b < 128 then Some []
      else if 194 \<le> b \<and> b \<le> 223 then Some [(128, 191)]
      else if b = 224 then Some [(160, 191), (128, 191)]
      else if b = 237 then Some [(128, 159), (128, 191)]
      else if 225 \<le> b \<and> b \<le> 239 then Some [(128, 191), (128, 191)]
      else if b = 240 then Some [(144, 191), (128, 191), (128, 191)]
      else if 241 \<le> b \<and> b \<le> 243 then Some [(128, 191), (128, 191), (128, 191)]
      else if b = 244 then Some [(128, 143), (128, 191), (128, 191)]
      else None)"

fun match_tail :: "(nat \<times> nat) list \<Rightarrow> bytes \<Rightarrow> bytes \<times> bytes \<times> bool" where
  "match_tail [] s = ([], s, True)"
| "match_tail (r # rs) [] = ([], [], False)"
| "match_tail ((lo, hi) # rs) (c # cs) =
     (if lo \<le> of_char c \<and> of_char c \<le> hi
      then (case match_tail rs cs of (a, rest, ok) \<Rightarrow> (c # a, rest, ok))
      else ([], c # cs, False))"

definition replacement :: string where
  "replacement = [CHR 0xEF, CHR 0xBF, CHR 0xBD]"

lemma match_tail_append: "match_tail rs s = (a, rest, ok) \<Longrightarrow> s = a @ rest"
  by (induction rs s arbitrary: a rest ok rule: match_tail.induct)
     (auto split: if_splits prod.splits)

lemma match_tail_length: "match_tail rs s = (a, rest, ok) \<Longrightarrow> length rest \<le> length s"
  using match_tail_append by fastforce

function decode_replace :: "bytes \<Rightarrow> string" where
  "decode_replace [] = []"
| "decode_replace (c # cs) =
     (case utf8_tail (of_char c) of
        None \<Rightarrow> replacement @ decode_replace cs
      | Some rs \<Rightarrow>
          (case match_tail rs cs of
             (a, rest, ok) \<Rightarrow> (if ok then c # a else replacement) @ decode_replace rest))"
  by pat_completeness auto
termination
  by (relation "measure length") (auto dest: match_tail_length [OF sym])

text \<open>Well-formed UTF-8: nothing to replace.\<close>

function valid_utf8 :: "bytes \<Rightarrow> bool" where
  "valid_utf8 [] = True"
| "valid_utf8 (c # cs) =
     (case utf8_tail (of_char c) of
        None \<Rightarrow> False
      | Some rs \<Rightarrow> (case match_tail rs cs of (a, rest, ok) \<Rightarrow> ok \<and> valid_utf8 rest))"
  by pat_completeness auto
termination
  by (relation "measure length") (auto dest: match_tail_length [OF sym])

lemma decode_replace_valid: "valid_utf8 s \<Longrightarrow> decode_replace s = s"
  by (induction s rule: valid_utf8.induct)
     (auto split: option.splits prod.splits dest: match_tail_append)

lemma match_tail_ok_append:
  "match_tail rs s = (a, rest, True) \<Longrightarrow> match_tail rs (a @ t) = (a, t, True)"
  by (induction rs s arbitrary: a rest rule: match_tail.induct)
     (auto split: if_splits prod.splits)

lemma valid_utf8_replacement: "valid_utf8 (replacement @ s) = valid_utf8 s"
  by (simp add: replacement_def utf8_tail_def)

lemma valid_utf8_char:
  "utf8_tail (of_char c) = Some rs \<Longrightarrow> match_tail rs cs = (a, rest, True) \<Longrightarrow>
   valid_utf8 (c # a @ t) = valid_utf8 t"
  using match_tail_ok_append [of rs cs a rest t] by simp

text \<open>Whatever the bytes are, the decoded text is well-formed.\<close>

lemma valid_decode_replace: "valid_utf8 (decode_replace s)"
proof (induction s rule: decode_replace.induct)
  case (2 c cs)
  show ?case
  proof (cases "utf8_tail (of_char c)")
    case None
    with 2 show ?thesis by (simp add: valid_utf8_replacement)
  next
    case (Some rs)
    obtain a rest ok where m: "match_tail rs cs = (a, rest, ok)" by (metis prod_cases3)
    with 2 Some have "valid_utf8 (decode_replace rest)" by simp
    with Some m show ?thesis
      by (cases ok) (simp_all add: valid_utf8_replacement valid_utf8_char del: valid_utf8.simps)
  qed
qed simp

lemma decode_replace_idem: "decode_replace (decode_replace s) = decode_replace s"
  by (rule decode_replace_valid, rule valid_decode_replace)

lemma ascii_valid: "ascii s \<Longrightarrow> valid_utf8 s"
  by (induction s) (auto simp: utf8_tail_def)

end
