(* ===== verification/PyNum.thy ===== *)
theory PyNum
  imports PyStr
begin

text \<open>
  Python numbers. Integers are unbounded: \<open>int\<close>. A finite \<open>float\<close> is the rational it
  denotes, and every arithmetic operation of the source on floats rounds its exact result
  once with \<open>fl\<close>: to 53 significant bits, ties to even, with gradual underflow below
  \<open>2^-1022\<close> (IEEE 754 binary64). Division of two integers is correctly rounded in Python,
  so \<open>a / b\<close> is \<open>fl (a / b)\<close>. No quantity of the program reaches the overflow
  threshold \<open>2^1024\<close>: its integers have at most 64 digits (the bound of \<open>read_int\<close>).
  \<open>f"{x:.kf}"\<close> rounds the exact binary value half to even, as CPython's correctly
  rounded formatting does.
\<close>

section \<open>Integers as text\<close>

definition digit_char :: "int \<Rightarrow> char" where
  "digit_char d = char_of (nat (48 + d))"

text \<open>The decimal digits of a natural number (given as an \<open>int\<close>, which evaluates in binary).\<close>

function show_dec :: "int \<Rightarrow> string" where
  "show_dec n = (if n < 10 then [digit_char n] else show_dec (n div 10) @ [digit_char (n mod 10)])"
  by pat_completeness auto
termination by (relation "measure nat") auto

declare show_dec.simps [simp del]

text \<open>\<open>str(i)\<close>\<close>

definition show_int :: "int \<Rightarrow> string" where
  "show_int i = (if i < 0 then ''-'' @ show_dec (- i) else show_dec i)"

definition digit_val :: "char \<Rightarrow> int option" where
  "digit_val c =
     (let n = int (of_char c) in if 48 \<le> n \<and> n \<le> 57 then Some (n - 48) else None)"

text \<open>Digits with single underscores between them; the flag says the last character was a digit.\<close>

fun dec_digits :: "int \<Rightarrow> bool \<Rightarrow> string \<Rightarrow> int option" where
  "dec_digits acc ok [] = (if ok then Some acc else None)"
| "dec_digits acc ok (c # cs) =
     (case digit_val c of
        Some d \<Rightarrow> dec_digits (10 * acc + d) True cs
      | None \<Rightarrow> if c = CHR ''_'' \<and> ok then dec_digits acc False cs else None)"

text \<open>\<open>sys.get_int_max_str_digits()\<close>: longer texts are a \<open>ValueError\<close> too.\<close>

definition int_max_str_digits :: int where
  "int_max_str_digits = 4300"

definition py_dec :: "string \<Rightarrow> int option" where
  "py_dec s =
     (if int_max_str_digits < int (length (filter (\<lambda>c. digit_val c \<noteq> None) s)) then None
      else dec_digits 0 False s)"

text \<open>\<open>int(text)\<close>: None is \<open>ValueError\<close>.\<close>

definition py_int :: "string \<Rightarrow> int option" where
  "py_int text =
     (case strip text of
        [] \<Rightarrow> None
      | c # cs \<Rightarrow>
          if c = CHR ''-'' then map_option uminus (py_dec cs)
          else if c = CHR ''+'' then py_dec cs
          else py_dec (c # cs))"

lemma of_char_digit: "0 \<le> d \<Longrightarrow> d < 10 \<Longrightarrow> int (of_char (digit_char d)) = 48 + d"
  by (simp add: digit_char_def of_char_of nat_mod_distrib flip: of_nat_mod)

lemma digit_val_digit [simp]: "0 \<le> d \<Longrightarrow> d < 10 \<Longrightarrow> digit_val (digit_char d) = Some d"
  by (simp add: digit_val_def of_char_digit)

definition is_digit :: "char \<Rightarrow> bool" where
  "is_digit c \<longleftrightarrow> (\<exists>d. 0 \<le> d \<and> d < 10 \<and> c = digit_char d)"

definition all_digits :: "string \<Rightarrow> bool" where
  "all_digits s \<longleftrightarrow> (\<forall>c\<in>set s. is_digit c)"

lemma all_digits_simps [simp]:
  "all_digits []"
  "all_digits (c # s) \<longleftrightarrow> is_digit c \<and> all_digits s"
  "all_digits (s @ t) \<longleftrightarrow> all_digits s \<and> all_digits t"
  by (auto simp: all_digits_def)

lemma is_digit_char [simp]: "0 \<le> d \<Longrightarrow> d < 10 \<Longrightarrow> is_digit (digit_char d)"
  by (auto simp: is_digit_def)

lemma show_dec_digits: "0 \<le> n \<Longrightarrow> all_digits (show_dec n)"
proof (induction n rule: show_dec.induct)
  case (1 n)
  then show ?case by (subst show_dec.simps) simp
qed

lemma show_dec_nonempty [simp]: "show_dec n \<noteq> []"
  by (subst show_dec.simps) simp

lemma dec_digits_append:
  "all_digits s \<Longrightarrow> dec_digits acc ok (s @ t) =
     dec_digits (foldl (\<lambda>a c. 10 * a + the (digit_val c)) acc s) (ok \<or> s \<noteq> []) t"
proof (induction s arbitrary: acc ok)
  case (Cons c s)
  then obtain d where "0 \<le> d" "d < 10" "c = digit_char d" by (auto simp: is_digit_def)
  with Cons show ?case by simp
qed simp

lemma show_dec_value:
  "0 \<le> n \<Longrightarrow> foldl (\<lambda>a c. 10 * a + the (digit_val c)) 0 (show_dec n) = n"
proof (induction n rule: show_dec.induct)
  case (1 n)
  then show ?case by (subst show_dec.simps) simp
qed

lemma dec_digits_show_dec: "0 \<le> n \<Longrightarrow> dec_digits 0 False (show_dec n) = Some n"
  using dec_digits_append [OF show_dec_digits, of n 0 False "[]"] by (simp add: show_dec_value)

lemma digit_facts:
  assumes "is_digit c"
  shows "digit_val c \<noteq> None" "(of_char c :: nat) < 128" "\<not> is_space [c]" "c \<noteq> CHR ''-''" "c \<noteq> CHR ''+''"
proof -
  obtain d where d: "0 \<le> d" "d < 10" "c = digit_char d" using assms by (auto simp: is_digit_def)
  then have "int (of_char c) \<in> {48..57}" by (simp add: of_char_digit)
  then have *: "(of_char c :: nat) \<in> {48..57}" by auto
  then show "(of_char c :: nat) < 128" "\<not> is_space [c]" "c \<noteq> CHR ''-''" "c \<noteq> CHR ''+''"
    by (auto simp: py_defs)
  show "digit_val c \<noteq> None" using d by simp
qed

lemma filter_digits: "all_digits s \<Longrightarrow> filter (\<lambda>c. digit_val c \<noteq> None) s = s"
  using digit_facts(1) by (auto simp: all_digits_def filter_id_conv)

lemma py_dec_show_dec:
  "0 \<le> n \<Longrightarrow> int (length (show_dec n)) \<le> int_max_str_digits \<Longrightarrow> py_dec (show_dec n) = Some n"
  using dec_digits_show_dec [of n] by (simp add: py_dec_def filter_digits [OF show_dec_digits] del: not_None_eq)

lemma all_digits_ascii: "all_digits s \<Longrightarrow> ascii s"
  by (auto simp: all_digits_def ascii_def digit_facts)

lemma strip_ascii_solid:
  assumes "ascii s" "s \<noteq> []" "\<not> is_space [hd s]" "\<not> is_space [last s]"
  shows "strip s = s"
proof (rule strip_idem_edges)
  from assms show "\<not> is_space (hd (chars s))" "\<not> is_space (last (chars s))"
    by (simp_all add: chars_ascii hd_map last_map)
qed (fact assms)

lemma show_dec_edges: "0 \<le> n \<Longrightarrow> is_digit (hd (show_dec n))" "0 \<le> n \<Longrightarrow> is_digit (last (show_dec n))"
  using show_dec_digits [of n] by (simp_all add: all_digits_def)

lemma strip_show_dec: "0 \<le> n \<Longrightarrow> strip (show_dec n) = show_dec n"
  by (intro strip_ascii_solid) (auto simp: all_digits_ascii show_dec_digits show_dec_edges digit_facts)

lemma strip_minus_show_dec: "0 \<le> n \<Longrightarrow> strip (CHR ''-'' # show_dec n) = CHR ''-'' # show_dec n"
  by (intro strip_ascii_solid)
     (auto simp: all_digits_ascii show_dec_digits show_dec_edges digit_facts, simp add: py_defs)

lemma py_int_show_int:
  assumes "int (length (show_dec \<bar>i\<bar>)) \<le> int_max_str_digits"
  shows "py_int (show_int i) = Some i"
proof (cases "i < 0")
  case True
  with assms show ?thesis
    by (simp add: show_int_def py_int_def strip_minus_show_dec py_dec_show_dec)
next
  case False
  obtain c cs where s: "show_dec i = c # cs" by (meson neq_Nil_conv show_dec_nonempty)
  with show_dec_edges(1) [of i] False have "c \<noteq> CHR ''-''" "c \<noteq> CHR ''+''"
    by (auto simp: digit_facts)
  with False assms s show ?thesis
    using strip_show_dec [of i] py_dec_show_dec [of i] by (simp add: show_int_def py_int_def)
qed

section \<open>Rounding to an integer: \<open>round(x)\<close>\<close>

definition round_half_even :: "rat \<Rightarrow> int" where
  "round_half_even x =
     (let f = \<lfloor>x\<rfloor>; d = x - of_int f
      in if d < 1 / 2 then f else if 1 / 2 < d then f + 1 else if even f then f else f + 1)"

lemma round_half_even_bound: "\<bar>of_int (round_half_even x) - x\<bar> \<le> 1 / 2"
  unfolding round_half_even_def Let_def by (auto simp: abs_if; linarith)

lemma round_half_even_int [simp]: "round_half_even (of_int n) = n"
  by (simp add: round_half_even_def)

lemma round_half_even_0 [simp]: "round_half_even 0 = 0"
  by (simp add: round_half_even_def)

lemma round_half_even_mono:
  assumes "x \<le> y"
  shows "round_half_even x \<le> round_half_even y"
proof (cases "\<lfloor>x\<rfloor> = \<lfloor>y\<rfloor>")
  case True
  with assms show ?thesis by (auto simp: round_half_even_def Let_def)
next
  case False
  with assms have "\<lfloor>x\<rfloor> + 1 \<le> \<lfloor>y\<rfloor>" using floor_mono [of x y] by linarith
  then show ?thesis by (auto simp: round_half_even_def Let_def)
qed

lemma round_half_even_minus: "round_half_even (- x) = - round_half_even x"
proof (cases "x = of_int \<lfloor>x\<rfloor>")
  case True
  then show ?thesis by (metis of_int_minus round_half_even_int)
next
  case False
  then have "\<lfloor>- x\<rfloor> = - \<lfloor>x\<rfloor> - 1" by linarith
  then show ?thesis by (auto simp: round_half_even_def Let_def)
qed

lemma round_half_even_le: "x \<le> of_int n \<Longrightarrow> round_half_even x \<le> n"
  using round_half_even_mono [of x "of_int n"] by simp

lemma round_half_even_ge: "of_int n \<le> x \<Longrightarrow> n \<le> round_half_even x"
  using round_half_even_mono [of "of_int n" x] by simp

section \<open>Binary64 rounding\<close>

function nlog2 :: "int \<Rightarrow> int" where
  "nlog2 n = (if n < 2 then 0 else 1 + nlog2 (n div 2))"
  by pat_completeness auto
termination by (relation "measure nat") auto

declare nlog2.simps [simp del]

lemma nlog2_nonneg: "0 \<le> nlog2 n"
proof (induction n rule: nlog2.induct)
  case (1 n)
  then show ?case by (subst nlog2.simps) simp
qed

lemma nlog2_bounds: "0 < n \<Longrightarrow> 2 ^ nat (nlog2 n) \<le> n \<and> n < 2 * 2 ^ nat (nlog2 n)"
proof (induction n rule: nlog2.induct)
  case (1 n)
  show ?case
  proof (cases "n < 2")
    case True
    with 1 show ?thesis by (subst (1 2) nlog2.simps) simp
  next
    case False
    with 1 have IH: "2 ^ nat (nlog2 (n div 2)) \<le> n div 2 \<and> n div 2 < 2 * 2 ^ nat (nlog2 (n div 2))" by simp
    have "nlog2 n = 1 + nlog2 (n div 2)" using False by (subst nlog2.simps) simp
    then have "nat (nlog2 n) = Suc (nat (nlog2 (n div 2)))" using nlog2_nonneg [of "n div 2"] by simp
    then have e: "(2::int) ^ nat (nlog2 n) = 2 * 2 ^ nat (nlog2 (n div 2))" by simp
    from IH have "2 * 2 ^ nat (nlog2 (n div 2)) \<le> n" "n < 4 * 2 ^ nat (nlog2 (n div 2))" by linarith+
    with e show ?thesis by simp
  qed
qed

text \<open>\<open>\<lfloor>log2 x\<rfloor>\<close> of a positive rational.\<close>

definition ilog2 :: "rat \<Rightarrow> int" where
  "ilog2 x =
     (case quotient_of x of (a, b) \<Rightarrow>
        let n = nlog2 a - nlog2 b
        in if 2 powi n \<le> x then n else n - 1)"

definition fl :: "rat \<Rightarrow> rat" where
  "fl x =
     (if x = 0 then 0
      else let u = 2 powi (max (ilog2 \<bar>x\<bar>) (- 1022) - 52)
           in of_int (round_half_even (x / u)) * u)"

lemma powi2_pos [simp]: "0 < (2::rat) powi n"
  by (simp add: zero_less_power_int)

lemma powi2_Suc: "(2::rat) powi (n + 1) = 2 * 2 powi n"
  by (simp add: power_int_add)

lemma powi2_mono: "m \<le> n \<Longrightarrow> (2::rat) powi m \<le> 2 powi n"
  by (rule power_int_increasing) auto

lemma powi2_less_iff: "(2::rat) powi m < 2 powi n \<longleftrightarrow> m < n"
  by (metis linorder_not_less one_less_numeral_iff power_int_strict_increasing powi2_mono semiring_norm(76))

lemma nlog2_bounds_rat:
  assumes "0 < a"
  shows "(2::rat) powi nlog2 a \<le> of_int a" "of_int a < (2::rat) * 2 powi nlog2 a"
proof -
  have "of_int (2 ^ nat (nlog2 a)) \<le> (of_int a :: rat)" "of_int a < (of_int (2 * 2 ^ nat (nlog2 a)) :: rat)"
    using nlog2_bounds [OF assms] by (simp_all only: of_int_le_iff of_int_less_iff)
  then show "(2::rat) powi nlog2 a \<le> of_int a" "of_int a < (2::rat) * 2 powi nlog2 a"
    using nlog2_nonneg [of a] by (simp_all add: power_int_def)
qed

lemma ilog2_bounds:
  assumes "0 < x"
  shows "2 powi ilog2 x \<le> x" and "x < 2 powi (ilog2 x + 1)"
proof -
  obtain a b where q: "quotient_of x = (a, b)" by (cases "quotient_of x")
  have b: "0 < b" using quotient_of_denom_pos [OF q] .
  have x: "x = of_int a / of_int b" using quotient_of_div [OF q] .
  with assms b have a: "0 < a" by (simp add: zero_less_divide_iff)
  let ?p = "(2::rat) powi nlog2 a" and ?q = "(2::rat) powi nlog2 b"
  note A = nlog2_bounds_rat [OF a] and B = nlog2_bounds_rat [OF b]
  have n: "(2::rat) powi (nlog2 a - nlog2 b) = ?p / ?q" by (simp add: power_int_diff)
  have "x < 2 * ?p / ?q"
    unfolding x by (rule frac_less) (use A B a b in auto)
  moreover have "?p / (2 * ?q) < x"
    unfolding x by (rule frac_less2) (use A B a b in auto)
  ultimately show "2 powi ilog2 x \<le> x" "x < 2 powi (ilog2 x + 1)"
    using powi2_Suc [of "nlog2 a - nlog2 b"] powi2_Suc [of "nlog2 a - nlog2 b - 1"]
    by (auto simp: ilog2_def q Let_def n)
qed

definition fl_exp :: "rat \<Rightarrow> int" where
  "fl_exp x = max (ilog2 \<bar>x\<bar>) (- 1022)"

lemma fl_alt: "x \<noteq> 0 \<Longrightarrow>
    fl x = of_int (round_half_even (x / 2 powi (fl_exp x - 52))) * 2 powi (fl_exp x - 52)"
  by (simp add: fl_def Let_def fl_exp_def)

lemma fl_0 [simp]: "fl 0 = 0"
  by (simp add: fl_def)

lemma fl_minus: "fl (- x) = - fl x"
  by (simp add: fl_def Let_def round_half_even_minus)

lemma fl_nonneg: "0 \<le> x \<Longrightarrow> 0 \<le> fl x"
  using round_half_even_ge [of 0 "x / 2 powi (fl_exp x - 52)"]
  by (cases "x = 0") (auto simp: fl_alt less_imp_le intro!: mult_nonneg_nonneg)

lemma ilog2_mono:
  assumes "0 < x" "x \<le> y"
  shows "ilog2 x \<le> ilog2 y"
proof -
  have "2 powi ilog2 x < (2::rat) powi (ilog2 y + 1)"
    using ilog2_bounds(1) [of x] ilog2_bounds(2) [of y] assms by linarith
  then show ?thesis by (simp add: powi2_less_iff)
qed

text \<open>Rounding stays inside the binade: at most the next power of two, at least the current one.\<close>

lemma fl_upper:
  assumes "0 < x" "x \<le> 2 powi k" "- 1022 < k"
  shows "fl x \<le> 2 powi k"
proof -
  let ?e = "fl_exp x" and ?u = "(2::rat) powi (fl_exp x - 52)"
  have "2 powi ilog2 x \<le> (2::rat) powi k" using ilog2_bounds(1) [OF assms(1)] assms(2) by linarith
  then have "ilog2 x \<le> k" by (meson linorder_not_less powi2_less_iff)
  with assms have e: "?e \<le> k" by (simp add: fl_exp_def)
  have split: "(2::rat) powi k = 2 powi (k - (?e - 52)) * ?u" by (simp flip: power_int_add)
  have int: "(2::rat) powi (k - (?e - 52)) = of_int (2 ^ nat (k - (?e - 52)))"
    using e by (simp add: power_int_def)
  have "x / ?u \<le> of_int (2 ^ nat (k - (?e - 52)))"
    using assms(2) split int by (simp add: pos_divide_le_eq)
  then have "round_half_even (x / ?u) \<le> 2 ^ nat (k - (?e - 52))" by (rule round_half_even_le)
  then have "of_int (round_half_even (x / ?u)) \<le> (of_int (2 ^ nat (k - (?e - 52))) :: rat)"
    by (simp only: of_int_le_iff)
  then have "of_int (round_half_even (x / ?u)) * ?u \<le> 2 powi k"
    unfolding split int by (rule mult_right_mono) (simp add: less_imp_le)
  with assms show ?thesis by (simp add: fl_alt)
qed

lemma fl_lower:
  assumes "0 < x" "- 1022 \<le> ilog2 x"
  shows "2 powi ilog2 x \<le> fl x"
proof -
  let ?u = "(2::rat) powi (ilog2 x - 52)"
  have split: "(2::rat) powi ilog2 x = of_int (2 ^ 52) * ?u"
    using power_int_add [of "2::rat" 52 "ilog2 x - 52"] by simp
  then have "of_int (2 ^ 52) \<le> x / ?u"
    using ilog2_bounds(1) [OF assms(1)] by (simp add: pos_le_divide_eq)
  then have "2 ^ 52 \<le> round_half_even (x / ?u)" by (rule round_half_even_ge)
  then have "of_int (2 ^ 52) \<le> (of_int (round_half_even (x / ?u)) :: rat)"
    by (simp only: of_int_le_iff)
  then have "2 powi ilog2 x \<le> of_int (round_half_even (x / ?u)) * ?u"
    unfolding split by (rule mult_right_mono) (simp add: less_imp_le)
  moreover have "fl_exp x = ilog2 x" using assms by (simp add: fl_exp_def)
  ultimately show ?thesis using assms by (simp add: fl_alt)
qed

lemma fl_mono_pos:
  assumes "0 < x" "x \<le> y"
  shows "fl x \<le> fl y"
proof (cases "fl_exp x = fl_exp y")
  case True
  let ?u = "(2::rat) powi (fl_exp y - 52)"
  have "round_half_even (x / ?u) \<le> round_half_even (y / ?u)"
    using assms by (intro round_half_even_mono) (simp add: divide_right_mono less_imp_le)
  with True assms show ?thesis by (simp add: fl_alt)
next
  case False
  with ilog2_mono [OF assms] assms have e: "fl_exp x < fl_exp y" "fl_exp y = ilog2 y" "- 1022 < ilog2 y"
    by (auto simp: fl_exp_def)
  then have "ilog2 x + 1 \<le> ilog2 y" using assms by (simp add: fl_exp_def)
  then have "x \<le> 2 powi ilog2 y"
    using ilog2_bounds(2) [OF assms(1)] powi2_mono [of "ilog2 x + 1" "ilog2 y"] by linarith
  then have "fl x \<le> 2 powi ilog2 y" using assms e by (intro fl_upper) auto
  also have "\<dots> \<le> fl y" using assms e by (intro fl_lower) auto
  finally show ?thesis .
qed

lemma fl_mono: "x \<le> y \<Longrightarrow> fl x \<le> fl y"
proof -
  assume xy: "x \<le> y"
  consider "0 < x" | "x \<le> 0" "0 \<le> y" | "y < 0" by linarith
  then show ?thesis
  proof cases
    case 1
    with xy show ?thesis by (rule_tac fl_mono_pos)
  next
    case 2
    then have "0 \<le> fl (- x)" "0 \<le> fl y" by (auto intro: fl_nonneg)
    then show ?thesis by (simp add: fl_minus)
  next
    case 3
    with xy have "fl (- y) \<le> fl (- x)" by (intro fl_mono_pos) auto
    then show ?thesis by (simp add: fl_minus)
  qed
qed

text \<open>A multiple of the unit in the last place is its own rounding.\<close>

lemma fl_multiple:
  assumes "x = of_int n * 2 powi (fl_exp x - 52)"
  shows "fl x = x"
proof (cases "x = 0")
  case False
  have "x / 2 powi (fl_exp x - 52) = of_int n"
    by (metis assms less_irrefl nonzero_mult_div_cancel_right powi2_pos)
  with False assms show ?thesis by (simp add: fl_alt)
qed simp

lemma fl_exact:
  assumes x: "x = of_int m * 2 powi k" and m: "\<bar>m\<bar> \<le> 2 ^ 53" and k: "- 1074 \<le> k"
  shows "fl x = x"
proof (cases "m = 0 \<or> fl_exp x - 52 \<le> k")
  case True
  then consider "m = 0" | "fl_exp x - 52 \<le> k" by blast
  then show ?thesis
  proof cases
    case 2
    then have "2 powi k = of_int (2 ^ nat (k - (fl_exp x - 52))) * (2::rat) powi (fl_exp x - 52)"
      by (simp flip: power_int_of_nat power_int_add)
    with x show ?thesis
      by (intro fl_multiple [of _ "m * 2 ^ nat (k - (fl_exp x - 52))"]) simp
  qed (simp add: x)
next
  case False
  with k have e: "fl_exp x = ilog2 \<bar>x\<bar>" "k + 53 \<le> ilog2 \<bar>x\<bar>" by (auto simp: fl_exp_def)
  have pow: "(2::rat) powi (k + 53) = of_int (2 ^ 53) * 2 powi k"
    using power_int_add [of "2::rat" k 53] by simp
  have "x \<noteq> 0" using False x by simp
  then have "(2::rat) powi (k + 53) \<le> \<bar>x\<bar>"
    using ilog2_bounds(1) [of "\<bar>x\<bar>"] powi2_mono [OF e(2)] by simp
  then have "of_int (2 ^ 53) \<le> (of_int \<bar>m\<bar> :: rat)"
    unfolding pow by (simp add: x abs_mult)
  then have "2 ^ 53 \<le> \<bar>m\<bar>" by (simp only: of_int_le_iff)
  with m have m53: "\<bar>m\<bar> = 2 ^ 53" by simp
  then have ax: "\<bar>x\<bar> = 2 powi (k + 53)" unfolding pow x by (simp add: abs_mult flip: of_int_abs)
  then have "\<not> (2::rat) powi (k + 53) < 2 powi ilog2 \<bar>x\<bar>"
    using ilog2_bounds(1) [of "\<bar>x\<bar>"] \<open>x \<noteq> 0\<close> by linarith
  then have "ilog2 \<bar>x\<bar> \<le> k + 53" by (simp add: powi2_less_iff)
  with e have ex: "fl_exp x - 52 = k + 1" by simp
  have "2 dvd \<bar>m\<bar>" unfolding m53 by simp
  then have "m = (m div 2) * 2" by simp
  then have "x = of_int (m div 2) * (2 * 2 powi k)" unfolding x by (metis mult.assoc of_int_mult of_int_numeral)
  then have "x = of_int (m div 2) * 2 powi (fl_exp x - 52)" unfolding ex powi2_Suc .
  then show ?thesis by (rule fl_multiple)
qed

text \<open>A rounded number is its own rounding.\<close>

lemma fl_idem [simp]: "fl (fl x) = fl x"
proof (cases "x = 0")
  case False
  let ?u = "(2::rat) powi (fl_exp x - 52)"
  have pow: "2 powi (fl_exp x + 1) = of_int (2 ^ 53) * ?u"
    using power_int_add [of "2::rat" 53 "fl_exp x - 52"] by (simp add: add.commute)
  have "\<bar>x\<bar> < 2 powi (ilog2 \<bar>x\<bar> + 1)" using False ilog2_bounds(2) [of "\<bar>x\<bar>"] by simp
  also have "\<dots> \<le> 2 powi (fl_exp x + 1)" by (rule powi2_mono) (simp add: fl_exp_def)
  finally have x: "- (of_int (2 ^ 53) * ?u) \<le> x" "x \<le> of_int (2 ^ 53) * ?u" unfolding pow by linarith+
  have "x / ?u \<le> of_int (2 ^ 53)" "of_int (- (2 ^ 53)) \<le> x / ?u"
    using x by (simp_all add: pos_divide_le_eq pos_le_divide_eq)
  then have "\<bar>round_half_even (x / ?u)\<bar> \<le> 2 ^ 53"
    using round_half_even_le [of "x / ?u" "2 ^ 53"] round_half_even_ge [of "- (2 ^ 53)" "x / ?u"] by linarith
  moreover have "- 1074 \<le> fl_exp x - 52" by (simp add: fl_exp_def)
  ultimately show ?thesis using fl_exact [OF fl_alt [OF False]] by blast
qed simp


lemma fl_int: "\<bar>n\<bar> \<le> 2 ^ 53 \<Longrightarrow> fl (of_int n) = of_int n"
  by (rule fl_exact [of _ n 0]) auto

lemma fl_numeral [simp]: "numeral k \<le> (2 ^ 53 :: int) \<Longrightarrow> fl (numeral k) = numeral k"
  using fl_int [of "numeral k"] by simp

lemma fl_1 [simp]: "fl 1 = 1"
  using fl_int [of 1] by simp

text \<open>Hence rounding never crosses a small integer.\<close>

lemma fl_le_int: "x \<le> of_int n \<Longrightarrow> \<bar>n\<bar> \<le> 2 ^ 53 \<Longrightarrow> fl x \<le> of_int n"
  using fl_mono [of x "of_int n"] by (simp add: fl_int)

lemma fl_ge_int: "of_int n \<le> x \<Longrightarrow> \<bar>n\<bar> \<le> 2 ^ 53 \<Longrightarrow> of_int n \<le> fl x"
  using fl_mono [of "of_int n" x] by (simp add: fl_int)

lemma fl_half_ulp: "\<bar>fl x - x\<bar> \<le> 2 powi (fl_exp x - 53)"
proof (cases "x = 0")
  case False
  let ?u = "(2::rat) powi (fl_exp x - 52)"
  have u: "?u = 2 * 2 powi (fl_exp x - 53)" using powi2_Suc [of "fl_exp x - 53"] by simp
  have "\<bar>of_int (round_half_even (x / ?u)) - x / ?u\<bar> * ?u \<le> 1 / 2 * ?u"
    by (intro mult_right_mono round_half_even_bound) (simp add: less_imp_le)
  also have "\<bar>of_int (round_half_even (x / ?u)) - x / ?u\<bar> * ?u = \<bar>(of_int (round_half_even (x / ?u)) - x / ?u) * ?u\<bar>"
    by (simp add: abs_mult)
  finally show ?thesis using False by (simp add: fl_alt u left_diff_distrib)
qed simp

lemma fl_error:
  assumes "\<bar>x\<bar> \<le> 2 powi k" "- 1022 \<le> k"
  shows "\<bar>fl x - x\<bar> \<le> 2 powi (k - 53)"
proof (cases "x = 0")
  case False
  then have "2 powi ilog2 \<bar>x\<bar> \<le> (2::rat) powi k" using ilog2_bounds(1) [of "\<bar>x\<bar>"] assms(1) by simp
  then have "ilog2 \<bar>x\<bar> \<le> k" by (meson linorder_not_less powi2_less_iff)
  then have "fl_exp x - 53 \<le> k - 53" using assms(2) by (simp add: fl_exp_def)
  then show ?thesis using fl_half_ulp [of x] powi2_mono by (meson order_trans)
qed (simp add: less_imp_le)

text \<open>\<open>a / b\<close> of two integers\<close>

definition int_truediv :: "int \<Rightarrow> int \<Rightarrow> rat" where
  "int_truediv a b = fl (of_int a / of_int b)"

section \<open>Fixed-point formatting: \<open>f"{x:.kf}"\<close>\<close>

definition fmt_fixed :: "nat \<Rightarrow> rat \<Rightarrow> string" where
  "fmt_fixed k x =
     (let n = round_half_even (\<bar>x\<bar> * 10 ^ k); f = show_dec (n mod 10 ^ k)
      in (if x < 0 then ''-'' else []) @ show_dec (n div 10 ^ k) @
         (if k = 0 then [] else ''.'' @ replicate (k - length f) (CHR ''0'') @ f))"

lemma fmt_fixed_nonempty [simp]: "fmt_fixed k x \<noteq> []"
  by (simp add: fmt_fixed_def Let_def)

section \<open>\<open>repr\<close> of a float\<close>

text \<open>
  The shortest decimal that reads back as the float: with \<open>k\<close> significant digits, for the
  least \<open>k\<close> up to 17 that works. \<open>dec_point x\<close> is the \<open>p\<close> with \<open>10^(p-1) <= x < 10^p\<close>.
\<close>

definition dec_point :: "rat \<Rightarrow> int" where
  "dec_point x =
     (let p = ilog2 x * 30103 div 100000
      in case find (\<lambda>i. x < 10 powi i) [p - 1, p, p + 1, p + 2, p + 3] of None \<Rightarrow> p | Some i \<Rightarrow> i)"

definition shortest_digits :: "rat \<Rightarrow> int \<times> int" where
  "shortest_digits x =
     (let p = dec_point x;
          n = (\<lambda>k. round_half_even (x * 10 powi (k - p)))
      in case find (\<lambda>k. fl (of_int (n k) * 10 powi (p - k)) = x)
                [1, 2, 3, 4, 5, 6, 7, 8, 9, 10, 11, 12, 13, 14, 15, 16, 17] of
           None \<Rightarrow> (n 17, p)
         | Some k \<Rightarrow> if n k = 10 ^ nat k then (1, p + 1) else (n k, p))"

definition float_repr :: "rat \<Rightarrow> string" where
  "float_repr x =
     (if x = 0 then ''0.0''
      else case shortest_digits \<bar>x\<bar> of (n, p) \<Rightarrow>
        let ds = show_dec n; k = int (length ds);
            body =
              (if - 4 < p \<and> p \<le> 16
               then (if p \<le> 0 then ''0.'' @ replicate (nat (- p)) (CHR ''0'') @ ds
                     else if k \<le> p then ds @ replicate (nat (p - k)) (CHR ''0'') @ ''.0''
                     else take (nat p) ds @ ''.'' @ drop (nat p) ds)
               else (let e = p - 1; es = show_dec \<bar>e\<bar>
                     in take 1 ds @ (if k = 1 then [] else ''.'' @ drop 1 ds) @ ''e'' @
                        (if e < 0 then ''-'' else ''+'') @ (if \<bar>e\<bar> < 10 then ''0'' else []) @ es))
        in (if x < 0 then ''-'' else []) @ body)"

section \<open>Reading numbers\<close>

definition span_digits :: "string \<Rightarrow> string \<times> string" where
  "span_digits s = (takeWhile (\<lambda>c. digit_val c \<noteq> None) s, dropWhile (\<lambda>c. digit_val c \<noteq> None) s)"

text \<open>An optional sign among the given characters; the flag says it was a minus.\<close>

definition scan_sign :: "char list \<Rightarrow> string \<Rightarrow> bool \<times> string" where
  "scan_sign signs s =
     (case s of c # t \<Rightarrow> if c \<in> set signs then (c = CHR ''-'', t) else (False, s) | [] \<Rightarrow> (False, []))"

definition scan_exponent :: "string \<Rightarrow> int option \<times> string" where
  "scan_exponent s =
     (case s of
        c # t \<Rightarrow>
          if c = CHR ''e'' \<or> c = CHR ''E''
          then (let (neg, u) = scan_sign [CHR ''-'', CHR ''+''] t; (ds, r) = span_digits u
                in case dec_digits 0 False ds of
                     None \<Rightarrow> (None, s)
                   | Some e \<Rightarrow> (Some (if neg then - e else e), r))
          else (None, s)
      | [] \<Rightarrow> (None, s))"

definition max_float :: rat where
  "max_float = 2 ^ 1024 - 2 ^ 971"

text \<open>\<open>float(text)\<close>: a Python float may also be infinite or not a number.\<close>

datatype pyfloat = Finite rat | PosInf | NegInf | NotANumber

fun drop_underscores :: "bool \<Rightarrow> string \<Rightarrow> string option" where
  "drop_underscores prev [] = Some []"
| "drop_underscores prev (c # cs) =
     (if c = CHR ''_''
      then (if prev \<and> cs \<noteq> [] \<and> digit_val (hd cs) \<noteq> None then drop_underscores False cs else None)
      else map_option (Cons c) (drop_underscores (digit_val c \<noteq> None) cs))"

definition to_pyfloat :: "bool \<Rightarrow> rat \<Rightarrow> pyfloat" where
  "to_pyfloat neg x =
     (let y = fl x in
      if max_float < y then (if neg then NegInf else PosInf) else Finite (if neg then - y else y))"

definition read_decimal :: "bool \<Rightarrow> string \<Rightarrow> pyfloat option" where
  "read_decimal neg s =
     (let (ip, r) = span_digits s;
          (fp, r2) = (case r of c # t \<Rightarrow> if c = CHR ''.'' then span_digits t else ([], r) | [] \<Rightarrow> ([], r));
          (ex, r3) = scan_exponent r2
      in if ip @ fp = [] \<or> r3 \<noteq> [] then None
         else Some (to_pyfloat neg (of_int (the (dec_digits 0 False (ip @ fp))) *
                10 powi ((case ex of None \<Rightarrow> 0 | Some e \<Rightarrow> e) - int (length fp)))))"

definition py_float :: "string \<Rightarrow> pyfloat option" where
  "py_float text =
     (case drop_underscores False (strip text) of
        None \<Rightarrow> None
      | Some s \<Rightarrow>
          let (neg, t) = scan_sign [CHR ''-'', CHR ''+''] s in
          if lower t = ''inf'' \<or> lower t = ''infinity'' then Some (if neg then NegInf else PosInf)
          else if lower t = ''nan'' then Some NotANumber
          else read_decimal neg t)"

text \<open>\<open>str(x)\<close> and \<open>"%.kf" % x\<close> of any float.\<close>

fun pyfloat_str :: "pyfloat \<Rightarrow> string" where
  "pyfloat_str (Finite x) = float_repr x"
| "pyfloat_str PosInf = ''inf''"
| "pyfloat_str NegInf = ''-inf''"
| "pyfloat_str NotANumber = ''nan''"

fun pyfloat_fixed :: "nat \<Rightarrow> pyfloat \<Rightarrow> string" where
  "pyfloat_fixed k (Finite x) = fmt_fixed k x"
| "pyfloat_fixed k x = pyfloat_str x"

end
