(* ===== verification/Models.thy ===== *)
theory Models
  imports PyNum
begin

text \<open>
  The domain models of \<open>core/models.py\<close> and the exception hierarchy of \<open>core/errors.py\<close>.
  A frozen dataclass is a \<open>record\<close> whose fields carry a prefix (HOL's field names are
  global), an \<open>Enum\<close> is a \<open>datatype\<close> with a function to its value, an optional field is
  an \<open>option\<close>, and \<open>LapcareError\<close> with its subclasses is the datatype \<open>exn\<close>; an
  exception outside the hierarchy is \<open>PyException\<close> with its class name and text.
\<close>

section \<open>Enumerations\<close>

datatype availability = AvailOK | ToolMissing | UnsupportedHardware | PermissionDenied

fun availability_value :: "availability \<Rightarrow> string" where
  "availability_value AvailOK = ''ok''"
| "availability_value ToolMissing = ''tool-missing''"
| "availability_value UnsupportedHardware = ''unsupported-hardware''"
| "availability_value PermissionDenied = ''permission-denied''"

datatype capacity_unit = MicroWattHours | MicroAmpHours

datatype battery_state = StUnknown | Charging | Discharging | NotCharging | Full | Empty

datatype update_state =
  UpdUnknown | UpdPending | UpdSuccess | UpdFailed | UpdFailedTransient | UpdNeedsReboot

datatype check_status = StatusOK | Warning | Critical | Skipped

fun check_status_value :: "check_status \<Rightarrow> string" where
  "check_status_value StatusOK = ''ok''"
| "check_status_value Warning = ''warning''"
| "check_status_value Critical = ''critical''"
| "check_status_value Skipped = ''skipped''"

datatype confidence = ConfHigh | ConfMedium | ConfLow

fun confidence_value :: "confidence \<Rightarrow> string" where
  "confidence_value ConfHigh = ''high''"
| "confidence_value ConfMedium = ''medium''"
| "confidence_value ConfLow = ''low''"

text \<open>
  The order of severity among check outcomes, an unmeasured check below every measured one.
  The checks raise a status and never lower it, which the lemmas state with \<open>max\<close>.
\<close>

fun severity :: "check_status \<Rightarrow> nat" where
  "severity Skipped = 0"
| "severity StatusOK = 1"
| "severity Warning = 2"
| "severity Critical = 3"

lemma severity_inj: "severity a = severity b \<Longrightarrow> a = b"
  by (cases a; cases b) auto

instantiation check_status :: linorder
begin

definition less_eq_check_status :: "check_status \<Rightarrow> check_status \<Rightarrow> bool" where
  "less_eq_check_status a b \<longleftrightarrow> severity a \<le> severity b"

definition less_check_status :: "check_status \<Rightarrow> check_status \<Rightarrow> bool" where
  "less_check_status a b \<longleftrightarrow> severity a < severity b"

instance
  by standard (auto simp: less_eq_check_status_def less_check_status_def intro: severity_inj)

end

lemma check_status_le_simps [simp]:
  "a \<le> Critical"
  "Skipped \<le> a"
  "StatusOK \<le> Warning" "\<not> Warning \<le> StatusOK"
  "\<not> Critical \<le> StatusOK" "\<not> Critical \<le> Warning"
  "\<not> StatusOK \<le> Skipped" "\<not> Warning \<le> Skipped" "\<not> Critical \<le> Skipped"
  by (cases a; simp add: less_eq_check_status_def)+

lemma max_check_status_simps [simp]:
  "max a Critical = Critical" "max Critical a = Critical"
  "max a Skipped = a" "max Skipped a = a"
  "max StatusOK Warning = Warning" "max Warning StatusOK = Warning"
  by (simp_all add: max_def antisym)

section \<open>Identity and operating system\<close>

record system_identity =
  si_vendor :: "string option"
  si_product_name :: "string option"
  si_product_family :: "string option"
  si_product_version :: "string option"
  si_board_name :: "string option"
  si_bios_version :: "string option"
  si_bios_date :: "string option"
  si_serial :: "string option"

record os_info =
  os_distro_name :: "string option"
  os_distro_version :: "string option"
  os_kernel :: "string option"
  os_hostname :: "string option"
  os_uptime_seconds :: "pyfloat option"

record cpu_mem_summary =
  cm_cpu_model :: "string option"
  cm_cpu_count :: "int option"
  cm_memory_total_kib :: "int option"

record thinkpad_info =
  ti_is_thinkpad :: bool
  ti_dmi_vendor_lenovo :: bool
  ti_acpi_driver_loaded :: bool
  ti_model :: "string option"

section \<open>Devices\<close>

record pci_device =
  pci_slot :: string
  pci_device_class :: "string option"
  pci_vendor :: "string option"
  pci_device_name :: "string option"

record usb_device =
  usb_bus :: string
  usb_device_no :: "string option"
  usb_vendor_id :: "string option"
  usb_product_id :: "string option"
  usb_name :: "string option"

record battery_wear =
  bw_name :: string
  bw_capacity_full :: "int option"
  bw_capacity_design :: "int option"
  bw_capacity_unit :: "capacity_unit option"
  bw_cycle_count :: "int option"
  bw_model_name :: "string option"
  bw_manufacturer :: "string option"
  bw_technology :: "string option"

record battery_status =
  bs_name :: string
  bs_state :: battery_state
  bs_percentage :: "pyfloat option"
  bs_time_to_empty_s :: "int option"
  bs_time_to_full_s :: "int option"
  bs_energy_rate_w :: "pyfloat option"

record wear_snapshot =
  ws_day :: string
  ws_battery_name :: string
  ws_wear_percent :: "rat option"
  ws_cycle_count :: "int option"
  ws_capacity_full :: "int option"
  ws_capacity_design :: "int option"

record firmware_device =
  fd_id :: string
  fd_name :: "string option"
  fd_summary :: "string option"
  fd_vendor :: "string option"
  fd_version :: "string option"
  fd_version_lowest :: "string option"
  fd_updatable :: bool
  fd_needs_reboot :: bool
  fd_plugin :: "string option"
  fd_update_state :: update_state
  fd_update_error :: "string option"

record firmware_release =
  fr_version :: string
  fr_name :: "string option"
  fr_summary :: "string option"
  fr_description :: "string option"
  fr_size :: "int option"
  fr_urgency :: "string option"

record storage_device =
  sd_name :: string
  sd_model :: "string option"
  sd_size_bytes :: "int option"
  sd_removable :: "bool option"
  sd_rotational :: "bool option"

record smart_report =
  sr_device_name :: string
  sr_passed :: "bool option"
  sr_temperature_c :: "int option"
  sr_power_on_hours :: "int option"
  sr_power_cycles :: "int option"
  sr_percentage_used :: "int option"
  sr_available_spare_pct :: "int option"
  sr_media_errors :: "int option"
  sr_critical_warning :: "int option"
  sr_unsafe_shutdowns :: "int option"
  sr_reallocated_sectors :: "int option"
  sr_pending_sectors :: "int option"
  sr_model :: "string option"
  sr_firmware_version :: "string option"
  sr_serial_number :: "string option"
  sr_messages :: "string list"

record temperature_reading =
  tr_chip :: string
  tr_label :: "string option"
  tr_celsius :: rat

record disk_usage =
  du_mountpoint :: string
  du_total_bytes :: int
  du_free_bytes :: int

section \<open>Diagnostics\<close>

record diagnostic_result =
  dr_check_id :: string
  dr_status :: check_status
  dr_confidence :: confidence
  dr_metrics :: "(string \<times> string) list"
  dr_skip_code :: string

record diagnostics_report =
  rep_results :: "diagnostic_result list"
  rep_score :: "int option"
  rep_measured :: int
  rep_total :: int

section \<open>Default values of the dataclasses\<close>

definition blank_battery :: "string \<Rightarrow> battery_wear" where
  "blank_battery n = \<lparr>bw_name = n, bw_capacity_full = None, bw_capacity_design = None,
     bw_capacity_unit = None, bw_cycle_count = None, bw_model_name = None,
     bw_manufacturer = None, bw_technology = None\<rparr>"

definition blank_smart :: "string \<Rightarrow> smart_report" where
  "blank_smart n = \<lparr>sr_device_name = n, sr_passed = None, sr_temperature_c = None,
     sr_power_on_hours = None, sr_power_cycles = None, sr_percentage_used = None,
     sr_available_spare_pct = None, sr_media_errors = None, sr_critical_warning = None,
     sr_unsafe_shutdowns = None, sr_reallocated_sectors = None, sr_pending_sectors = None,
     sr_model = None, sr_firmware_version = None, sr_serial_number = None, sr_messages = []\<rparr>"

definition blank_device :: "string \<Rightarrow> firmware_device" where
  "blank_device i = \<lparr>fd_id = i, fd_name = None, fd_summary = None, fd_vendor = None,
     fd_version = None, fd_version_lowest = None, fd_updatable = False, fd_needs_reboot = False,
     fd_plugin = None, fd_update_state = UpdUnknown, fd_update_error = None\<rparr>"

definition blank_release :: "string \<Rightarrow> firmware_release" where
  "blank_release v = \<lparr>fr_version = v, fr_name = None, fr_summary = None,
     fr_description = None, fr_size = None, fr_urgency = None\<rparr>"

definition blank_identity :: system_identity where
  "blank_identity = \<lparr>si_vendor = None, si_product_name = None, si_product_family = None,
     si_product_version = None, si_board_name = None, si_bios_version = None,
     si_bios_date = None, si_serial = None\<rparr>"

definition blank_os :: os_info where
  "blank_os = \<lparr>os_distro_name = None, os_distro_version = None, os_kernel = None,
     os_hostname = None, os_uptime_seconds = None\<rparr>"

lemmas blank_defs = blank_battery_def blank_smart_def blank_device_def blank_release_def
  blank_identity_def blank_os_def

section \<open>Errors\<close>

datatype exn =
    ProviderUnavailable string availability "string option"
  | ProviderTimeout string string
  | ProviderParseError string string
  | PrivilegedActionDenied string
  | FirmwareInstallFailed string string
  | PyException string string

text \<open>\<open>isinstance(exc, LapcareError)\<close>\<close>

fun is_lapcare_error :: "exn \<Rightarrow> bool" where
  "is_lapcare_error (PyException _ _) = False"
| "is_lapcare_error _ = True"

text \<open>\<open>OSError\<close> stands for itself and its subclasses.\<close>

fun is_os_error :: "exn \<Rightarrow> bool" where
  "is_os_error (PyException cls _) \<longleftrightarrow> cls = ''OSError''"
| "is_os_error _ \<longleftrightarrow> False"

text \<open>\<open>str(exc)\<close>: the text each class hands to \<open>Exception.__init__\<close>.\<close>

fun exn_str :: "exn \<Rightarrow> string" where
  "exn_str (ProviderUnavailable src reason tool) =
     src @ '': '' @ availability_value reason @
     (case tool of None \<Rightarrow> [] | Some t \<Rightarrow> if t = [] then [] else '' ('' @ t @ '')'')"
| "exn_str (ProviderTimeout src detail) = src @ '': timeout: '' @ detail"
| "exn_str (ProviderParseError src detail) = src @ '': parse error: '' @ detail"
| "exn_str (PrivilegedActionDenied action) = ''authorization declined: '' @ action"
| "exn_str (FirmwareInstallFailed dev detail) =
     ''firmware install failed ('' @ dev @ ''): '' @ detail"
| "exn_str (PyException cls msg) = msg"

text \<open>The comment on \<open>ProviderUnavailable.reason\<close>: never \<open>Availability.OK\<close>.\<close>

fun wf_exn :: "exn \<Rightarrow> bool" where
  "wf_exn (ProviderUnavailable _ reason _) \<longleftrightarrow> reason \<noteq> AvailOK"
| "wf_exn _ \<longleftrightarrow> True"

end
