(* ===== verification/Ports.thy ===== *)
theory Ports
  imports Models
begin

text \<open>
  The ports of \<open>core/ports.py\<close>. An asynchronous read is a function of the world that
  returns either an exception or a value, and the next world: \<open>io\<close>. \<open>await\<close> in sequence is
  \<open>io_bind\<close>, \<open>raise\<close> is \<open>io_raise\<close>, and \<open>try/except\<close> is \<open>io_catch\<close>, whose handler
  declines an exception (None) that no clause matches. A Protocol is a record of its
  operations, and what its docstring promises is a locale.
\<close>

type_synonym ('w, 'a) io = "'w \<Rightarrow> (exn + 'a) \<times> 'w"

section \<open>The effect monad\<close>

definition io_return :: "'a \<Rightarrow> ('w, 'a) io" where
  "io_return x = (\<lambda>w. (Inr x, w))"

definition io_raise :: "exn \<Rightarrow> ('w, 'a) io" where
  "io_raise e = (\<lambda>w. (Inl e, w))"

definition io_bind :: "('w, 'a) io \<Rightarrow> ('a \<Rightarrow> ('w, 'b) io) \<Rightarrow> ('w, 'b) io" where
  "io_bind m f = (\<lambda>w. case m w of (Inl e, w') \<Rightarrow> (Inl e, w') | (Inr x, w') \<Rightarrow> f x w')"

definition io_catch :: "('w, 'a) io \<Rightarrow> (exn \<Rightarrow> ('w, 'a) io option) \<Rightarrow> ('w, 'a) io" where
  "io_catch m h = (\<lambda>w. case m w of
      (Inl e, w') \<Rightarrow> (case h e of None \<Rightarrow> (Inl e, w') | Some k \<Rightarrow> k w')
    | (Inr x, w') \<Rightarrow> (Inr x, w'))"

fun io_mapM :: "('a \<Rightarrow> ('w, 'b) io) \<Rightarrow> 'a list \<Rightarrow> ('w, 'b list) io" where
  "io_mapM f [] = io_return []"
| "io_mapM f (x # xs) = io_bind (f x) (\<lambda>y. io_bind (io_mapM f xs) (\<lambda>ys. io_return (y # ys)))"

lemma io_return_apply [io_simps, simp]: "io_return x w = (Inr x, w)"
  by (simp add: io_return_def)

lemma io_raise_apply [io_simps, simp]: "io_raise e w = (Inl e, w)"
  by (simp add: io_raise_def)

lemma io_bind_return [io_simps, simp]: "io_bind (io_return x) f = f x"
  by (simp add: io_bind_def)

lemma io_bind_raise [io_simps, simp]: "io_bind (io_raise e) f = io_raise e"
  by (simp add: io_bind_def fun_eq_iff)

lemma io_bind_apply: "io_bind m f w = (case m w of (Inl e, w') \<Rightarrow> (Inl e, w') | (Inr x, w') \<Rightarrow> f x w')"
  by (simp add: io_bind_def)

lemma io_bind_Inr [io_simps]: "m w = (Inr x, w') \<Longrightarrow> io_bind m f w = f x w'"
  by (simp add: io_bind_def)

lemma io_bind_Inl [io_simps]: "m w = (Inl e, w') \<Longrightarrow> io_bind m f w = (Inl e, w')"
  by (simp add: io_bind_def)

lemma io_bind_assoc: "io_bind (io_bind m f) g = io_bind m (\<lambda>x. io_bind (f x) g)"
  by (auto simp: io_bind_def fun_eq_iff split: prod.splits sum.splits)

lemma io_catch_Inr [io_simps]: "m w = (Inr x, w') \<Longrightarrow> io_catch m h w = (Inr x, w')"
  by (simp add: io_catch_def)

lemma io_catch_Some [io_simps]: "m w = (Inl e, w') \<Longrightarrow> h e = Some k \<Longrightarrow> io_catch m h w = k w'"
  by (simp add: io_catch_def)

lemma io_catch_None [io_simps]: "m w = (Inl e, w') \<Longrightarrow> h e = None \<Longrightarrow> io_catch m h w = (Inl e, w')"
  by (simp add: io_catch_def)

section \<open>What an operation may raise, and what it may change\<close>

definition lapcare_only :: "('w, 'a) io \<Rightarrow> bool" where
  "lapcare_only m \<longleftrightarrow> (\<forall>w e w'. m w = (Inl e, w') \<longrightarrow> is_lapcare_error e)"

definition never_raises :: "('w, 'a) io \<Rightarrow> bool" where
  "never_raises m \<longleftrightarrow> (\<forall>w. \<exists>x w'. m w = (Inr x, w'))"

definition reads_only :: "('w, 'a) io \<Rightarrow> bool" where
  "reads_only m \<longleftrightarrow> (\<forall>w. snd (m w) = w)"

named_theorems io_intros

lemma lapcare_only_return [io_intros]: "lapcare_only (io_return x)"
  by (simp add: lapcare_only_def)

lemma lapcare_only_bind [io_intros]:
  "lapcare_only m \<Longrightarrow> (\<And>x. lapcare_only (f x)) \<Longrightarrow> lapcare_only (io_bind m f)"
  by (auto simp: lapcare_only_def io_bind_def split: prod.splits sum.splits)

lemma lapcare_only_mapM [io_intros]: "(\<And>x. lapcare_only (f x)) \<Longrightarrow> lapcare_only (io_mapM f xs)"
  by (induction xs) (auto intro!: io_intros)

lemma lapcare_only_if [io_intros]:
  "lapcare_only m \<Longrightarrow> lapcare_only n \<Longrightarrow> lapcare_only (if b then m else n)"
  by simp

lemma never_raises_return [io_intros]: "never_raises (io_return x)"
  by (simp add: never_raises_def)

lemma never_raises_bind [io_intros]:
  "never_raises m \<Longrightarrow> (\<And>x. never_raises (f x)) \<Longrightarrow> never_raises (io_bind m f)"
  unfolding never_raises_def io_bind_def
  by (metis (no_types, lifting) old.prod.case old.sum.simps(6))

text \<open>A \<open>try\<close> that handles every Lapcare error around an operation that raises nothing else.\<close>

lemma never_raises_catch [io_intros]:
  assumes "lapcare_only m" "\<And>e. is_lapcare_error e \<Longrightarrow> \<exists>k. h e = Some k \<and> never_raises k"
  shows "never_raises (io_catch m h)"
  unfolding never_raises_def
proof
  fix w
  show "\<exists>x w'. io_catch m h w = (Inr x, w')"
  proof (cases "m w")
    case (Pair r w1)
    show ?thesis
    proof (cases r)
      case (Inl e)
      with Pair assms(1) have "is_lapcare_error e" by (force simp: lapcare_only_def)
      then obtain k where k: "h e = Some k" "never_raises k" using assms(2) by blast
      with Inl Pair have "io_catch m h w = k w1" by (simp add: io_catch_Some)
      with k(2) show ?thesis by (simp add: never_raises_def)
    next
      case (Inr x)
      with Pair show ?thesis by (simp add: io_catch_Inr)
    qed
  qed
qed

lemma reads_only_return [io_intros]: "reads_only (io_return x)"
  by (simp add: reads_only_def)

lemma reads_only_bind [io_intros]:
  "reads_only m \<Longrightarrow> (\<And>x. reads_only (f x)) \<Longrightarrow> reads_only (io_bind m f)"
  by (auto simp: reads_only_def io_bind_def split: prod.splits sum.splits) (metis snd_conv)+

lemma reads_only_mapM [io_intros]: "(\<And>x. reads_only (f x)) \<Longrightarrow> reads_only (io_mapM f xs)"
  by (induction xs) (auto intro!: io_intros)

lemma reads_only_catch [io_intros]:
  assumes "reads_only m" "\<And>e k. h e = Some k \<Longrightarrow> reads_only k"
  shows "reads_only (io_catch m h)"
  using assms
  by (auto simp: reads_only_def io_catch_def split: prod.splits sum.splits option.splits)
     (metis snd_conv)+

section \<open>The Protocols the diagnostics engine reads\<close>

record 'w battery_wear_provider =
  list_batteries :: "('w, battery_wear list) io"

record 'w storage_provider =
  st_list_devices :: "('w, storage_device list) io"
  read_smart :: "string \<Rightarrow> ('w, smart_report) io"

record 'w firmware_provider =
  fw_list_devices :: "('w, firmware_device list) io"
  list_upgrades :: "string \<Rightarrow> ('w, firmware_release list) io"

record 'w thermal_provider =
  list_temperatures :: "('w, temperature_reading list) io"

record 'w disk_usage_provider =
  list_usage :: "('w, disk_usage list) io"

section \<open>The Protocols the pages read\<close>

record 'w system_identity_provider =
  ip_read_identity :: "('w, system_identity) io"

record 'w os_info_provider =
  op_read_os :: "('w, os_info) io"
  op_read_cpu_mem :: "('w, cpu_mem_summary) io"

record 'w thinkpad_provider =
  tp_detect :: "('w, thinkpad_info) io"

record 'w device_inventory_provider =
  iv_list_pci :: "('w, pci_device list) io"
  iv_list_usb :: "('w, usb_device list) io"

text \<open>The callback of a subscription is the page's change handler; subscribing is the effect.\<close>

record 'w battery_status_provider =
  bp_read_status :: "('w, battery_status list) io"
  bp_subscribe :: "('w, unit) io"

record 'w wear_history_store =
  hs_record_wear :: "wear_snapshot \<Rightarrow> ('w, unit) io"
  hs_wear_history :: "string \<Rightarrow> int \<Rightarrow> ('w, wear_snapshot list) io"

section \<open>The contract of a read\<close>

text \<open>
  The convention every port follows: read methods raise only the \<open>core.errors\<close>
  hierarchy. \<open>port_read\<close> states it of one read method; a client gathers an input with
  \<open>or_missing\<close>, which turns every failure of such a method into None.
\<close>

definition or_missing :: "('w, 'a) io \<Rightarrow> ('w, 'a option) io" where
  "or_missing m = io_catch (io_bind m (\<lambda>x. io_return (Some x)))
     (\<lambda>e. if is_lapcare_error e then Some (io_return None) else None)"

locale port_read =
  fixes read :: "('w, 'a) io"
  assumes raises_lapcare: "read w = (Inl e, w') \<Longrightarrow> is_lapcare_error e"
begin

lemma only_lapcare: "lapcare_only read"
  using raises_lapcare by (auto simp: lapcare_only_def)

lemma or_missing_total: "never_raises (or_missing read)"
  unfolding or_missing_def
  by (rule never_raises_catch) (auto intro!: io_intros only_lapcare)

lemma or_missing_result:
  "fst (or_missing read w) = Inr (case fst (read w) of Inl _ \<Rightarrow> None | Inr x \<Rightarrow> Some x)"
  using raises_lapcare
  by (auto simp: or_missing_def io_catch_def io_bind_def split: prod.splits sum.splits)

end

text \<open>A read method that also leaves the world as it found it: a snapshot of the machine.\<close>

locale snapshot_read = port_read +
  assumes unchanged: "snd (read w) = w"
begin

lemma or_missing_snapshot:
  "or_missing read w = (Inr (case fst (read w) of Inl _ \<Rightarrow> None | Inr x \<Rightarrow> Some x), w)"
  using or_missing_result [of w] unchanged [of w]
  by (cases "read w") (auto simp: or_missing_def io_catch_def io_bind_def split: sum.splits)

end

section \<open>What operations change\<close>

text \<open>A relation between the machine before and after that sequencing obeys.\<close>

definition obeys :: "('m \<Rightarrow> 'm \<Rightarrow> bool) \<Rightarrow> ('m, 'a) io \<Rightarrow> bool" where
  "obeys R f \<longleftrightarrow> (\<forall>m. R m (snd (f m)))"

named_theorems obeys_intros

lemma obeys_return [obeys_intros]: "reflp R \<Longrightarrow> obeys R (io_return x)"
  by (simp add: obeys_def reflpD)

lemma obeys_bind [obeys_intros]:
  assumes "transp R" "obeys R f" "\<And>x. obeys R (g x)"
  shows "obeys R (io_bind f g)"
  unfolding obeys_def
proof
  fix m
  show "R m (snd (io_bind f g m))"
  proof (cases "f m")
    case (Pair r m1)
    then have "R m m1" using assms(2) unfolding obeys_def by (metis snd_conv)
    moreover have "R m1 (snd (g x m1))" for x using assms(3) by (simp add: obeys_def)
    ultimately show ?thesis using Pair assms(1) by (cases r) (auto simp: io_bind_def dest: transpD)
  qed
qed

lemma obeys_catch [obeys_intros]:
  assumes "transp R" "obeys R f" "\<And>e k. h e = Some k \<Longrightarrow> obeys R k"
  shows "obeys R (io_catch f h)"
  unfolding obeys_def
proof
  fix m
  show "R m (snd (io_catch f h m))"
  proof (cases "f m")
    case (Pair r m1)
    then have "R m m1" using assms(2) unfolding obeys_def by (metis snd_conv)
    moreover have "h e = Some k \<Longrightarrow> R m1 (snd (k m1))" for e k using assms(3) by (simp add: obeys_def)
    ultimately show ?thesis using Pair assms(1)
      by (cases r) (auto simp: io_catch_def split: option.split dest: transpD)
  qed
qed

lemma obeys_mapM [obeys_intros]:
  "reflp R \<Longrightarrow> transp R \<Longrightarrow> (\<And>x. obeys R (f x)) \<Longrightarrow> obeys R (io_mapM f xs)"
  by (induction xs) (auto intro!: obeys_intros)

lemma obeys_missing [obeys_intros]: "reflp R \<Longrightarrow> transp R \<Longrightarrow> obeys R f \<Longrightarrow> obeys R (or_missing f)"
  unfolding or_missing_def by (intro obeys_intros) (auto intro: obeys_return split: if_splits)

end
