(* ===== verification/Files.thy ===== *)
theory Files
  imports Ports
begin

text \<open>
  \<open>platform/files.py\<close> and the file system below a provider's \<open>root\<close>. A read of the
  machine is a function of one state \<open>fs\<close>: what is a directory, what exists, what a directory
  lists (None where the operating system raises \<open>OSError\<close>) and the bytes of a file (None
  where opening or reading it fails). Providers are polymorphic in what else the world has
  (\<open>'x fs_scheme\<close>), so the sources of one run can share a world.
\<close>

record fs =
  fs_is_dir :: "path \<Rightarrow> bool"
  fs_exists :: "path \<Rightarrow> bool"
  fs_list :: "path \<Rightarrow> string list option"
  fs_read :: "path \<Rightarrow> bytes option"

definition DEFAULT_MAX_BYTES :: nat where
  "DEFAULT_MAX_BYTES = 64 * 1024"

definition read_str :: "nat \<Rightarrow> 'x fs_scheme \<Rightarrow> path \<Rightarrow> string option" where
  "read_str max_bytes w p =
     (case fs_read w p of
        None \<Rightarrow> None
      | Some content \<Rightarrow>
          let data = take (max_bytes + 1) content in
          if max_bytes < length data then None else Some (strip (decode_replace data)))"

definition read_int :: "'x fs_scheme \<Rightarrow> path \<Rightarrow> int option" where
  "read_int w p = (case read_str 64 w p of None \<Rightarrow> None | Some text \<Rightarrow> py_int text)"

text \<open>A pure function of the file system as an asynchronous read of it.\<close>

definition io_reads :: "('w \<Rightarrow> exn + 'a) \<Rightarrow> ('w, 'a) io" where
  "io_reads f = (\<lambda>w. (f w, w))"

lemma io_reads_apply [simp]: "io_reads f w = (f w, w)"
  by (simp add: io_reads_def)

lemma snapshot_reads: "(\<And>w e. f w = Inl e \<Longrightarrow> is_lapcare_error e) \<Longrightarrow> snapshot_read (io_reads f)"
  by unfold_locales (auto simp: io_reads_def)

section \<open>Facts about bounded reads\<close>

lemma read_str_bounded: "read_str n w p = Some s \<Longrightarrow> \<exists>c. fs_read w p = Some c \<and> length c \<le> n \<and> s = strip (decode_replace c)"
  by (auto simp: read_str_def Let_def not_less split: option.splits if_splits)

lemma read_str_Some: "fs_read w p = Some c \<Longrightarrow> length c \<le> n \<Longrightarrow> read_str n w p = Some (strip (decode_replace c))"
  by (simp add: read_str_def Let_def)

lemma read_str_None: "fs_read w p = None \<Longrightarrow> read_str n w p = None"
  by (simp add: read_str_def)

lemma read_str_ascii:
  "fs_read w p = Some c \<Longrightarrow> ascii c \<Longrightarrow> length c \<le> n \<Longrightarrow> read_str n w p = Some (strip c)"
  by (simp add: read_str_Some decode_replace_valid ascii_valid)

lemma read_int_None: "read_int w p = None \<longleftrightarrow> (\<forall>s. read_str 64 w p = Some s \<longrightarrow> py_int s = None)"
  by (auto simp: read_int_def split: option.splits)

text \<open>What a driver prints with \<open>%d\<close> and a newline is read back as that number.\<close>

lemma strip_line:
  assumes "ascii s" "s \<noteq> []" "\<not> is_space [hd s]" "\<not> is_space [last s]"
  shows "strip (s @ [CHR 0x0A]) = s"
proof -
  have c: "chars (s @ [CHR 0x0A]) = List.map (\<lambda>c. [c]) s @ [[CHR 0x0A]]"
    using assms(1) by (subst chars_ascii) simp_all
  have sp: "is_space [CHR 0x0A]" by (simp add: is_space_def unicode_space_def)
  obtain a u where s: "s = a # u" using assms(2) by (cases s) auto
  obtain v z where r: "s = v @ [z]" using assms(2) by (metis append_butlast_last_id)
  have d: "dropWhile is_space (List.map (\<lambda>c. [c]) s @ [[CHR 0x0A]]) = List.map (\<lambda>c. [c]) s @ [[CHR 0x0A]]"
    using assms(3) s by simp
  have "rdropWhile is_space (List.map (\<lambda>c. [c]) s @ [[CHR 0x0A]]) = List.map (\<lambda>c. [c]) s"
    using assms(4) by (simp add: rdropWhile_def sp r)
  then have "strip (s @ [CHR 0x0A]) = concat (List.map (\<lambda>c. [c]) s)" by (simp add: strip_def c d)
  then show ?thesis by simp
qed

lemma show_int_edges:
  "ascii (show_int i) \<and> show_int i \<noteq> [] \<and> \<not> is_space [hd (show_int i)] \<and> \<not> is_space [last (show_int i)]"
proof (cases "i < 0")
  case True
  have "\<not> is_space [CHR ''-'']" by (simp add: is_space_def unicode_space_def)
  with True show ?thesis
    using show_dec_edges(2) [of "- i"] show_dec_digits [of "- i"]
    by (simp add: show_int_def all_digits_ascii digit_facts(3))
next
  case False
  then show ?thesis
    using show_dec_edges [of i] show_dec_digits [of i] by (simp add: show_int_def all_digits_ascii digit_facts(3))
qed

lemma show_dec_length: "0 \<le> n \<Longrightarrow> n < 10 ^ Suc k \<Longrightarrow> length (show_dec n) \<le> Suc k"
proof (induction k arbitrary: n)
  case 0
  then show ?case by (subst show_dec.simps) simp
next
  case (Suc k)
  then have "length (show_dec (n div 10)) \<le> Suc k" by (intro Suc.IH) auto
  then show ?case by (subst show_dec.simps) simp
qed

lemma read_int_line:
  assumes "fs_read w p = Some (show_int i @ [CHR 0x0A])" "length (show_int i) < 64"
  shows "read_int w p = Some i"
proof -
  have e: "ascii (show_int i)" "show_int i \<noteq> []" "\<not> is_space [hd (show_int i)]" "\<not> is_space [last (show_int i)]"
    using show_int_edges [of i] by auto
  have "read_str 64 w p = Some (strip (show_int i @ [CHR 0x0A]))"
    using assms e(1) by (intro read_str_ascii) auto
  then have r: "read_str 64 w p = Some (show_int i)" by (simp only: strip_line [OF e])
  have "length (show_dec \<bar>i\<bar>) \<le> length (show_int i)" by (simp add: show_int_def)
  then have "py_int (show_int i) = Some i"
    using assms(2) by (intro py_int_show_int) (simp add: int_max_str_digits_def)
  with r show ?thesis by (simp add: read_int_def)
qed

end
