(* ===== verification/BatteryAnalysis.thy ===== *)
theory BatteryAnalysis
  imports Models
begin

text \<open>
  \<open>core/battery_analysis.py\<close>: wear as a percentage of design capacity, its classification,
  and the daily history snapshot. Wear is computed in binary64 exactly as the source does;
  \<open>exact_class\<close> is the classification by integer arithmetic that the rubric describes, and
  the theorems relate the two.
\<close>

datatype health_class = Good | Fair | Poor | HealthUnknown

definition GOOD_MAX_WEAR :: rat where "GOOD_MAX_WEAR = 15"
definition FAIR_MAX_WEAR :: rat where "FAIR_MAX_WEAR = 30"

lemmas wear_bounds = GOOD_MAX_WEAR_def FAIR_MAX_WEAR_def

definition wear_percent :: "int option \<Rightarrow> int option \<Rightarrow> rat option" where
  "wear_percent capacity_full capacity_design =
     (case (capacity_full, capacity_design) of
        (Some f, Some d) \<Rightarrow>
          if d \<le> 0 then None
          else let wear = fl (fl (1 - int_truediv f d) * 100) in Some (max wear 0)
      | _ \<Rightarrow> None)"

definition classify_wear :: "rat option \<Rightarrow> health_class" where
  "classify_wear wear =
     (case wear of
        None \<Rightarrow> HealthUnknown
      | Some w \<Rightarrow> if w < GOOD_MAX_WEAR then Good else if w < FAIR_MAX_WEAR then Fair else Poor)"

text \<open>The day is given: \<open>datetime.date.today()\<close> is the caller's clock.\<close>

definition snapshot_from_wear :: "battery_wear \<Rightarrow> string \<Rightarrow> wear_snapshot" where
  "snapshot_from_wear wear day =
     \<lparr>ws_day = day,
      ws_battery_name = bw_name wear,
      ws_wear_percent = wear_percent (bw_capacity_full wear) (bw_capacity_design wear),
      ws_cycle_count = bw_cycle_count wear,
      ws_capacity_full = bw_capacity_full wear,
      ws_capacity_design = bw_capacity_design wear\<rparr>"

section \<open>When wear is known\<close>

lemma wear_percent_None_iff:
  "wear_percent f d = None \<longleftrightarrow> f = None \<or> d = None \<or> (\<exists>n. d = Some n \<and> n \<le> 0)"
  by (auto simp: wear_percent_def split: option.splits)

lemma wear_percent_Some:
  "0 < d \<Longrightarrow> wear_percent (Some f) (Some d) = Some (max (fl (fl (1 - int_truediv f d) * 100)) 0)"
  by (simp add: wear_percent_def)

section \<open>The range of a wear percentage\<close>

lemma wear_percent_range:
  assumes "wear_percent (Some f) (Some d) = Some w" and "0 \<le> f"
  shows "0 \<le> w \<and> w \<le> 100"
proof -
  from assms have d: "0 < d" by (auto simp: wear_percent_def split: if_splits)
  with assms(2) have "0 \<le> int_truediv f d" by (auto simp: int_truediv_def intro!: fl_nonneg divide_nonneg_pos)
  then have "fl (1 - int_truediv f d) \<le> 1" using fl_le_int [of _ 1] by simp
  then have "fl (fl (1 - int_truediv f d) * 100) \<le> 100" using fl_le_int [of _ 100] by simp
  with assms(1) d show ?thesis by (auto simp: wear_percent_Some)
qed

text \<open>A fuller battery never shows more wear.\<close>

lemma wear_percent_antitone:
  assumes "0 < d" "f \<le> g"
    and "wear_percent (Some f) (Some d) = Some w" "wear_percent (Some g) (Some d) = Some v"
  shows "v \<le> w"
proof -
  have "int_truediv f d \<le> int_truediv g d"
    using assms(1,2) by (auto simp: int_truediv_def intro!: fl_mono divide_right_mono)
  then have "fl (fl (1 - int_truediv g d) * 100) \<le> fl (fl (1 - int_truediv f d) * 100)"
    by (intro fl_mono mult_right_mono) (auto intro: fl_mono)
  with assms show ?thesis by (auto simp: wear_percent_Some)
qed

text \<open>A pack at or above its design capacity shows no wear at all.\<close>

lemma wear_percent_full:
  assumes "0 < d" "d \<le> f"
  shows "wear_percent (Some f) (Some d) = Some 0"
proof -
  have "of_int d / of_int d \<le> (of_int f / of_int d :: rat)" using assms by (intro divide_right_mono) auto
  then have "1 \<le> int_truediv f d" using assms fl_ge_int [of 1 "of_int f / of_int d"] by (simp add: int_truediv_def)
  then have "fl (1 - int_truediv f d) \<le> 0" using fl_le_int [of _ 0] by simp
  then have "fl (fl (1 - int_truediv f d) * 100) \<le> 0" using fl_le_int [of _ 0] by simp
  with assms show ?thesis by (simp add: wear_percent_Some max_def)
qed

section \<open>Classification by floats agrees with exact arithmetic\<close>

definition exact_class :: "int \<Rightarrow> int \<Rightarrow> health_class" where
  "exact_class f d =
     (if 17 * d < 20 * f then Good else if 14 * d < 20 * f then Fair else Poor)"

lemma wear_at_thresholds:
  "15 \<le> fl (fl (1 - fl (17 / 20)) * 100)"
  "30 \<le> fl (fl (1 - fl (14 / 20)) * 100)"
  by code_simp+

text \<open>
  Above a threshold ratio by at least \<open>1 / (20 d)\<close>, the three roundings cannot reach the
  threshold again as long as the design capacity is at most \<open>2^45\<close> (35 MWh in microwatt-hours).
\<close>

lemma wear_below_threshold:
  assumes d: "0 < d" "d \<le> 2 ^ 45" and f: "0 \<le> f" "f \<le> d"
    and gap: "r + 1 / (20 * of_int d) \<le> of_int f / of_int d"
  shows "fl (fl (1 - int_truediv f d) * 100) < 100 * (1 - r)"
proof -
  define x q s e where "x = (of_int f / of_int d :: rat)" and "q = fl x" and "s = fl (1 - q)"
    and "e = (1 / (20 * of_int d) :: rat)"
  have "of_int d \<le> (of_int (2 ^ 45) :: rat)" using d(2) by (simp only: of_int_le_iff)
  then have dd: "(0::rat) < of_int d" "of_int d \<le> (35184372088832 :: rat)" using d(1) by simp_all
  have x: "0 \<le> x" "x \<le> 1" using dd f by (simp_all add: x_def)
  have "1 / 35184372088832 \<le> (1 / of_int d :: rat)" using dd by (simp add: frac_le)
  then have g: "1 / 703687441776640 \<le> e" by (simp add: e_def)
  have p: "(2::rat) powi (0 - 53) = 1 / 9007199254740992" "(2::rat) powi (7 - 53) = 1 / 70368744177664"
    by (simp_all add: power_int_def power_divide)
  have q: "\<bar>q - x\<bar> \<le> 1 / 9007199254740992" "0 \<le> q" "q \<le> 1"
    using fl_error [of x 0] x p fl_nonneg [of x] fl_le_int [of x 1] by (simp_all add: q_def)
  have s: "\<bar>s - (1 - q)\<bar> \<le> 1 / 9007199254740992" "0 \<le> s" "s \<le> 1"
    using fl_error [of "1 - q" 0] q p fl_nonneg [of "1 - q"] fl_le_int [of "1 - q" 1] by (simp_all add: s_def)
  have "\<bar>fl (s * 100) - s * 100\<bar> \<le> 1 / 70368744177664"
    using fl_error [of "s * 100" 7] s p by simp
  then have "fl (s * 100) \<le> s * 100 + 1 / 70368744177664" by linarith
  moreover have "s \<le> 1 - x + 2 / 9007199254740992" using s q by linarith
  moreover have "r + e \<le> x" using gap by (simp add: x_def e_def)
  ultimately have "fl (s * 100) < 100 * (1 - r)" using g by (simp add: field_simps)
  then show ?thesis by (simp add: s_def q_def x_def int_truediv_def)
qed

lemma gap_above:
  assumes "0 < d" "k * d < 20 * f"
  shows "(of_int k / 20 :: rat) + 1 / (20 * of_int d) \<le> of_int f / of_int d"
proof -
  have "of_int (k * d + 1) \<le> (of_int (20 * f) :: rat)" using assms(2) by (simp only: of_int_le_iff)
  then have "of_int (k * d + 1) / (20 * of_int d) \<le> (of_int (20 * f) / (20 * of_int d) :: rat)"
    using assms(1) by (intro divide_right_mono) auto
  moreover have "of_int (k * d + 1) / (20 * of_int d) = (of_int k / 20 + 1 / (20 * of_int d) :: rat)"
    using assms(1) by (simp add: field_simps)
  ultimately show ?thesis by simp
qed

lemma ratio_below:
  assumes "0 < d" "20 * f \<le> k * d"
  shows "(of_int f / of_int d :: rat) \<le> of_int k / 20"
proof -
  have "of_int (20 * f) \<le> (of_int (k * d) :: rat)" using assms(2) by (simp only: of_int_le_iff)
  with assms(1) show ?thesis by (simp add: field_simps)
qed

lemma wear_ge_threshold:
  assumes "0 < d" "20 * f \<le> k * d"
  shows "fl (fl (1 - fl (of_int k / 20)) * 100) \<le> fl (fl (1 - int_truediv f d) * 100)"
  unfolding int_truediv_def using ratio_below [OF assms]
  by (intro fl_mono mult_right_mono diff_left_mono) auto

lemma classify_wear_exact:
  assumes d: "0 < d" "d \<le> 2 ^ 45" and f: "0 \<le> f"
  shows "classify_wear (wear_percent (Some f) (Some d)) = exact_class f d"
proof -
  let ?w = "fl (fl (1 - int_truediv f d) * 100)"
  have above: "?w < 100 * (1 - of_int k / 20) \<or> d < f" if "k * d < 20 * f" for k
    using wear_below_threshold [of d f "of_int k / 20"] gap_above [OF d(1) that] d f by linarith
  have full: "?w \<le> 0" if "d < f"
    using wear_percent_full [of d f] that d by (simp add: wear_percent_Some max_def split: if_splits)
  consider "17 * d < 20 * f" | "20 * f \<le> 17 * d" "14 * d < 20 * f" | "20 * f \<le> 14 * d" by linarith
  then show ?thesis
  proof cases
    case 1
    then have "?w < 15" using above [of 17] full by fastforce
    with 1 d show ?thesis
      by (simp add: classify_wear_def wear_percent_Some exact_class_def wear_bounds)
  next
    case 2
    then have "\<not> d < f" using d by linarith
    then have "?w < 30" using above [of 14] 2 by simp
    moreover have "15 \<le> ?w" using wear_ge_threshold [of d f 17] wear_at_thresholds(1) 2 d by simp
    ultimately show ?thesis using 2 d
      by (simp add: classify_wear_def wear_percent_Some exact_class_def wear_bounds)
  next
    case 3
    have "30 \<le> ?w" using wear_ge_threshold [of d f 14] wear_at_thresholds(2) 3 d by simp
    with 3 d show ?thesis
      by (simp add: classify_wear_def wear_percent_Some exact_class_def wear_bounds)
  qed
qed

end
