(* ===== verification/Diagnostics.thy ===== *)
theory Diagnostics
  imports BatteryAnalysis Ports
begin

text \<open>
  The diagnostics engine, \<open>core/diagnostics.py\<close>: five pure checks from optional input data
  to a \<open>diagnostic_result\<close>, the aggregate score, and \<open>run\<close>, which gathers the inputs
  through the ports with a degradation per source. A loop that updates local variables is a
  fold over a step function on their tuple. The lemmas relate each loop to a declarative
  reading (a maximum, a set of failing devices) and show what \<open>run\<close> can and cannot do.
\<close>

section \<open>Constants\<close>

definition CHECK_IDS :: "string list" where
  "CHECK_IDS = [''battery-wear'', ''storage-health'', ''firmware-currency'', ''thermal'', ''disk-space'']"

definition PLAUSIBLE_MIN_C :: rat where "PLAUSIBLE_MIN_C = 1"
definition PLAUSIBLE_MAX_C :: rat where "PLAUSIBLE_MAX_C = 119"
definition THERMAL_WARN_C :: rat where "THERMAL_WARN_C = 85"
definition THERMAL_CRIT_C :: rat where "THERMAL_CRIT_C = 95"
definition DISK_WARN_FREE_PCT :: rat where "DISK_WARN_FREE_PCT = 10"
definition DISK_CRIT_FREE_PCT :: rat where "DISK_CRIT_FREE_PCT = 5"
definition ENDURANCE_WARN_PCT :: int where "ENDURANCE_WARN_PCT = 80"

lemmas diag_consts = PLAUSIBLE_MIN_C_def PLAUSIBLE_MAX_C_def THERMAL_WARN_C_def
  THERMAL_CRIT_C_def DISK_WARN_FREE_PCT_def DISK_CRIT_FREE_PCT_def ENDURANCE_WARN_PCT_def

section \<open>The checks\<close>

definition skipped :: "string \<Rightarrow> string \<Rightarrow> diagnostic_result" where
  "skipped check_id skip_code =
     \<lparr>dr_check_id = check_id, dr_status = Skipped, dr_confidence = ConfLow,
      dr_metrics = [], dr_skip_code = skip_code\<rparr>"

subsection \<open>Battery wear\<close>

definition worst_step :: "rat option \<Rightarrow> battery_wear \<Rightarrow> rat option" where
  "worst_step worst battery =
     (case wear_percent (bw_capacity_full battery) (bw_capacity_design battery) of
        None \<Rightarrow> worst
      | Some wear \<Rightarrow>
          (case worst of None \<Rightarrow> Some wear | Some v \<Rightarrow> if v < wear then Some wear else worst))"

definition worst_wear :: "battery_wear list \<Rightarrow> rat option" where
  "worst_wear wears = foldl worst_step None wears"

fun health_status :: "health_class \<Rightarrow> check_status" where
  "health_status Good = StatusOK"
| "health_status Fair = Warning"
| "health_status Poor = Critical"
| "health_status HealthUnknown = Skipped"

definition check_battery_wear :: "battery_wear list option \<Rightarrow> diagnostic_result" where
  "check_battery_wear wears =
     (case wears of
        None \<Rightarrow> skipped ''battery-wear'' ''unavailable''
      | Some [] \<Rightarrow> skipped ''battery-wear'' ''no-data''
      | Some ws \<Rightarrow>
          (case worst_wear ws of
             None \<Rightarrow> skipped ''battery-wear'' ''no-data''
           | Some worst \<Rightarrow>
               \<lparr>dr_check_id = ''battery-wear'',
                dr_status = health_status (classify_wear (Some worst)),
                dr_confidence = ConfHigh,
                dr_metrics = [(''wear_pct'', fmt_fixed 1 worst),
                              (''batteries'', show_int (int (length ws)))],
                dr_skip_code = []\<rparr>))"

subsection \<open>Storage health\<close>

type_synonym metrics = "(string \<times> string) list"

text \<open>\<open>if report.pending_sectors\<close>: None and 0 are false.\<close>

definition truthy_int :: "int option \<Rightarrow> bool" where
  "truthy_int x \<longleftrightarrow> (case x of None \<Rightarrow> False | Some n \<Rightarrow> n \<noteq> 0)"

definition storage_step ::
  "check_status \<times> confidence \<times> metrics \<Rightarrow> smart_report \<Rightarrow> check_status \<times> confidence \<times> metrics" where
  "storage_step = (\<lambda>(status, confid, metrics) report.
     let (status, confid, metrics) =
           (case sr_passed report of
              Some False \<Rightarrow> (Critical, confid, metrics @ [(''failing_device'', sr_device_name report)])
            | None \<Rightarrow> (status, ConfMedium, metrics)
            | Some True \<Rightarrow> (status, confid, metrics));
         (status, metrics) =
           (if truthy_int (sr_pending_sectors report) \<and> status = StatusOK
            then (Warning, metrics @ [(''pending_sectors'', show_int (the (sr_pending_sectors report)))])
            else (status, metrics));
         (status, metrics) =
           (case sr_percentage_used report of
              None \<Rightarrow> (status, metrics)
            | Some used \<Rightarrow>
                if ENDURANCE_WARN_PCT \<le> used \<and> status = StatusOK
                then (Warning, metrics @ [(''endurance_used_pct'', show_int used)])
                else (status, metrics))
     in (status, confid, metrics))"

definition check_storage_health :: "smart_report list option \<Rightarrow> string \<Rightarrow> diagnostic_result" where
  "check_storage_health reports skip_code =
     (case reports of
        None \<Rightarrow> skipped ''storage-health'' skip_code
      | Some [] \<Rightarrow> skipped ''storage-health'' ''no-data''
      | Some rs \<Rightarrow>
          (case foldl storage_step (StatusOK, ConfHigh, []) rs of
             (status, confid, metrics) \<Rightarrow>
               \<lparr>dr_check_id = ''storage-health'', dr_status = status, dr_confidence = confid,
                dr_metrics = metrics @ [(''devices'', show_int (int (length rs)))],
                dr_skip_code = []\<rparr>))"

subsection \<open>Firmware currency\<close>

definition check_firmware_currency :: "firmware_release list option \<Rightarrow> diagnostic_result" where
  "check_firmware_currency pending =
     (case pending of
        None \<Rightarrow> skipped ''firmware-currency'' ''unavailable''
      | Some [] \<Rightarrow>
          \<lparr>dr_check_id = ''firmware-currency'', dr_status = StatusOK, dr_confidence = ConfMedium,
           dr_metrics = [], dr_skip_code = []\<rparr>
      | Some rels \<Rightarrow>
          let critical = list_ex (\<lambda>r. fr_urgency r = Some ''critical'') rels
          in \<lparr>dr_check_id = ''firmware-currency'',
              dr_status = (if critical then Critical else Warning),
              dr_confidence = ConfMedium,
              dr_metrics = [(''pending_updates'', show_int (int (length rels)))],
              dr_skip_code = []\<rparr>)"

subsection \<open>Thermal sanity\<close>

text \<open>\<open>max(xs, key=f)\<close>: the first element with the greatest key.\<close>

fun first_max :: "('a \<Rightarrow> rat) \<Rightarrow> 'a \<Rightarrow> 'a list \<Rightarrow> 'a" where
  "first_max f best [] = best"
| "first_max f best (x # xs) = first_max f (if f best < f x then x else best) xs"

definition plausible :: "temperature_reading \<Rightarrow> bool" where
  "plausible t \<longleftrightarrow> PLAUSIBLE_MIN_C < tr_celsius t \<and> tr_celsius t < PLAUSIBLE_MAX_C"

definition thermal_status :: "rat \<Rightarrow> check_status" where
  "thermal_status c =
     (if THERMAL_CRIT_C \<le> c then Critical else if THERMAL_WARN_C \<le> c then Warning else StatusOK)"

definition check_thermal :: "temperature_reading list option \<Rightarrow> diagnostic_result" where
  "check_thermal temps =
     (case temps of
        None \<Rightarrow> skipped ''thermal'' ''unavailable''
      | Some ts \<Rightarrow>
          (case filter plausible ts of
             [] \<Rightarrow> skipped ''thermal'' ''no-data''
           | t # rest \<Rightarrow>
               let hottest = first_max tr_celsius t rest
               in \<lparr>dr_check_id = ''thermal'',
                   dr_status = thermal_status (tr_celsius hottest),
                   dr_confidence = ConfMedium,
                   dr_metrics = [(''max_temp_c'', fmt_fixed 0 (tr_celsius hottest)),
                                 (''max_temp_source'', or_str (tr_label hottest) (tr_chip hottest)),
                                 (''sensors'', show_int (int (length (t # rest))))],
                   dr_skip_code = []\<rparr>))"

subsection \<open>Disk space\<close>

definition free_pct :: "disk_usage \<Rightarrow> rat" where
  "free_pct usage = fl (int_truediv (du_free_bytes usage) (du_total_bytes usage) * 100)"

definition disk_step ::
  "check_status \<times> metrics \<times> (rat \<times> string) option \<Rightarrow> disk_usage \<Rightarrow>
   check_status \<times> metrics \<times> (rat \<times> string) option" where
  "disk_step = (\<lambda>(status, metrics, fullest) usage.
     if du_total_bytes usage \<le> 0 then (status, metrics, fullest)
     else let pct = free_pct usage;
              fullest = (case fullest of
                  None \<Rightarrow> Some (pct, du_mountpoint usage)
                | Some (p, m) \<Rightarrow> if pct < p then Some (pct, du_mountpoint usage) else Some (p, m))
          in if pct < DISK_CRIT_FREE_PCT
             then (Critical, metrics @ [(''critical_mount'', du_mountpoint usage)], fullest)
             else if pct < DISK_WARN_FREE_PCT \<and> status = StatusOK
             then (Warning, metrics @ [(''low_mount'', du_mountpoint usage)], fullest)
             else (status, metrics, fullest))"

definition check_disk_space :: "disk_usage list option \<Rightarrow> diagnostic_result" where
  "check_disk_space usages =
     (case usages of
        None \<Rightarrow> skipped ''disk-space'' ''unavailable''
      | Some [] \<Rightarrow> skipped ''disk-space'' ''no-data''
      | Some us \<Rightarrow>
          (case foldl disk_step (StatusOK, [], None) us of
             (status, metrics, None) \<Rightarrow> skipped ''disk-space'' ''no-data''
           | (status, metrics, Some (p, m)) \<Rightarrow>
               \<lparr>dr_check_id = ''disk-space'', dr_status = status, dr_confidence = ConfHigh,
                dr_metrics = metrics @ [(''min_free_pct'', fmt_fixed 1 p), (''min_free_mount'', m)],
                dr_skip_code = []\<rparr>))"

section \<open>The score\<close>

fun points :: "check_status \<Rightarrow> rat" where
  "points StatusOK = 1"
| "points Warning = 1 / 2"
| "points Critical = 0"
| "points Skipped = 0"

definition is_measured :: "diagnostic_result \<Rightarrow> bool" where
  "is_measured r \<longleftrightarrow> dr_status r \<noteq> Skipped"

definition score :: "diagnostic_result list \<Rightarrow> int option \<times> int \<times> int" where
  "score results =
     (let measured = filter is_measured results
      in if measured = [] then (None, 0, int (length results))
         else let total = foldl (\<lambda>a r. fl (a + points (dr_status r))) 0 measured;
                  val = round_half_even (fl (fl (100 * total) / of_int (int (length measured))))
              in (Some val, int (length measured), int (length results)))"

section \<open>The orchestrator\<close>

text \<open>The two \<open>except\<close> ladders of \<open>run\<close>; a source that is None is not asked.\<close>

definition gather_storage :: "'w storage_provider \<Rightarrow> ('w, smart_report list option \<times> string) io" where
  "gather_storage storage =
     io_catch
       (io_bind (st_list_devices storage) (\<lambda>devices.
        io_bind (io_mapM (\<lambda>d. read_smart storage (sd_name d)) devices) (\<lambda>reports.
        io_return (Some reports, ''not-requested''))))
       (\<lambda>e. case e of
              PrivilegedActionDenied _ \<Rightarrow> Some (io_return (None, ''declined''))
            | ProviderUnavailable _ _ _ \<Rightarrow> Some (io_return (None, ''unavailable''))
            | _ \<Rightarrow> if is_lapcare_error e then Some (io_return (None, ''unavailable'')) else None)"

definition pending_upgrades :: "'w firmware_provider \<Rightarrow> ('w, firmware_release list) io" where
  "pending_upgrades firmware =
     io_bind (fw_list_devices firmware) (\<lambda>devices.
     io_bind (io_mapM (\<lambda>d. if fd_updatable d then list_upgrades firmware (fd_id d) else io_return []) devices)
       (\<lambda>rss. io_return (concat rss)))"

definition ask :: "('p \<Rightarrow> ('w, 'a option) io) \<Rightarrow> 'p option \<Rightarrow> ('w, 'a option) io" where
  "ask f p = (case p of None \<Rightarrow> io_return None | Some q \<Rightarrow> f q)"

definition run ::
  "'w battery_wear_provider option \<Rightarrow> 'w storage_provider option \<Rightarrow> 'w firmware_provider option \<Rightarrow>
   'w thermal_provider option \<Rightarrow> 'w disk_usage_provider option \<Rightarrow> bool \<Rightarrow> ('w, diagnostics_report) io" where
  "run battery_wear storage firmware thermal disk include_storage_health =
     io_bind (ask (\<lambda>p. or_missing (list_batteries p)) battery_wear) (\<lambda>wears.
     io_bind (case storage of
                Some st \<Rightarrow> if include_storage_health then gather_storage st
                           else io_return (None, ''not-requested'')
              | None \<Rightarrow> io_return (None, ''not-requested'')) (\<lambda>(reports, storage_skip).
     io_bind (ask (\<lambda>p. or_missing (pending_upgrades p)) firmware) (\<lambda>pending.
     io_bind (ask (\<lambda>p. or_missing (list_temperatures p)) thermal) (\<lambda>temps.
     io_bind (ask (\<lambda>p. or_missing (list_usage p)) disk) (\<lambda>usages.
       let results = [check_battery_wear wears,
                      check_storage_health reports storage_skip,
                      check_firmware_currency pending,
                      check_thermal temps,
                      check_disk_space usages];
           (val, measured, total) = score results
       in io_return \<lparr>rep_results = results, rep_score = val,
                     rep_measured = measured, rep_total = total\<rparr>)))))"

section \<open>Lemmas: skipped checks\<close>

lemma skipped_simps [simp]:
  "dr_status (skipped c k) = Skipped"
  "dr_check_id (skipped c k) = c"
  "dr_skip_code (skipped c k) = k"
  "dr_metrics (skipped c k) = []"
  "dr_confidence (skipped c k) = ConfLow"
  by (simp_all add: skipped_def)

lemma health_status_measured: "health_status (classify_wear (Some w)) \<noteq> Skipped"
  by (simp add: classify_wear_def)

lemma thermal_status_measured [simp]: "thermal_status c \<noteq> Skipped"
  by (simp add: thermal_status_def)

subsection \<open>The storage loop\<close>

text \<open>What one drive's report says on its own; the loop takes the worst of them.\<close>

definition report_verdict :: "smart_report \<Rightarrow> check_status" where
  "report_verdict r =
     (if sr_passed r = Some False then Critical
      else if truthy_int (sr_pending_sectors r) \<or>
              (case sr_percentage_used r of None \<Rightarrow> False | Some used \<Rightarrow> ENDURANCE_WARN_PCT \<le> used)
      then Warning else StatusOK)"

lemma status_cases: "StatusOK \<le> s \<Longrightarrow> s = StatusOK \<or> s = Warning \<or> s = Critical"
  by (cases s) auto

lemma storage_step_status:
  "StatusOK \<le> s \<Longrightarrow> fst (storage_step (s, c, ms) r) = max s (report_verdict r)"
  using status_cases [of s]
  by (auto simp: storage_step_def report_verdict_def Let_def split: option.splits bool.splits)

lemma storage_step_confidence:
  "fst (snd (storage_step (s, c, ms) r)) = (if sr_passed r = None then ConfMedium else c)"
  by (auto simp: storage_step_def Let_def split: option.splits bool.splits)

definition metric_values :: "string \<Rightarrow> metrics \<Rightarrow> string list" where
  "metric_values k ms = List.map snd (filter (\<lambda>kv. fst kv = k) ms)"

lemma metric_values_simps [simp]:
  "metric_values k [] = []"
  "metric_values k ((a, b) # ms) = (if a = k then b # metric_values k ms else metric_values k ms)"
  "metric_values k (ms @ ns) = metric_values k ms @ metric_values k ns"
  by (simp_all add: metric_values_def)

lemma storage_step_failing:
  "metric_values ''failing_device'' (snd (snd (storage_step (s, c, ms) r))) =
   metric_values ''failing_device'' ms @ (if sr_passed r = Some False then [sr_device_name r] else [])"
  by (auto simp: storage_step_def Let_def split: option.splits bool.splits)

lemma storage_fold_status:
  "StatusOK \<le> fst a \<Longrightarrow> fst (foldl storage_step a rs) = foldl max (fst a) (List.map report_verdict rs)"
proof (induction rs arbitrary: a)
  case (Cons r rs)
  have "fst (storage_step a r) = max (fst a) (report_verdict r)"
    using storage_step_status Cons.prems by (metis prod.collapse)
  then show ?case using Cons.IH [of "storage_step a r"] Cons.prems by (simp add: le_max_iff_disj)
qed simp

lemma storage_fold_confidence:
  "fst (snd (foldl storage_step a rs)) =
   (if \<exists>r\<in>set rs. sr_passed r = None then ConfMedium else fst (snd a))"
proof (induction rs arbitrary: a)
  case (Cons r rs)
  have "fst (snd (storage_step a r)) = (if sr_passed r = None then ConfMedium else fst (snd a))"
    using storage_step_confidence by (metis prod.collapse)
  then show ?case using Cons.IH [of "storage_step a r"] by auto
qed simp

lemma storage_fold_failing:
  "metric_values ''failing_device'' (snd (snd (foldl storage_step a rs))) =
   metric_values ''failing_device'' (snd (snd a)) @
   List.map sr_device_name (filter (\<lambda>r. sr_passed r = Some False) rs)"
proof (induction rs arbitrary: a)
  case (Cons r rs)
  have "metric_values ''failing_device'' (snd (snd (storage_step a r))) =
    metric_values ''failing_device'' (snd (snd a)) @ (if sr_passed r = Some False then [sr_device_name r] else [])"
    using storage_step_failing by (metis prod.collapse)
  then show ?case using Cons.IH [of "storage_step a r"] by simp
qed simp

lemma foldl_max_ge: "(a::'a::linorder) \<le> foldl max a xs"
  by (induction xs arbitrary: a) (auto intro: order_trans [OF max.cobounded1])

lemma foldl_max_Max: "foldl max (a::'a::linorder) xs = Max (insert a (set xs))"
proof (induction xs arbitrary: a)
  case (Cons x xs)
  show ?case by (cases "xs = []") (simp_all add: Cons.IH max.assoc)
qed simp

lemma check_storage_health_eq:
  assumes "rs \<noteq> []"
  shows "dr_status (check_storage_health (Some rs) k) = foldl max StatusOK (List.map report_verdict rs)"
    "dr_confidence (check_storage_health (Some rs) k) =
       (if \<exists>r\<in>set rs. sr_passed r = None then ConfMedium else ConfHigh)"
    "metric_values ''failing_device'' (dr_metrics (check_storage_health (Some rs) k)) =
       List.map sr_device_name (filter (\<lambda>r. sr_passed r = Some False) rs)"
    "dr_skip_code (check_storage_health (Some rs) k) = []"
proof -
  obtain s c m where f: "foldl storage_step (StatusOK, ConfHigh, []) rs = (s, c, m)"
    by (metis prod_cases3)
  from assms obtain r rs' where rs: "rs = r # rs'" by (cases rs) auto
  have "check_storage_health (Some rs) k =
      \<lparr>dr_check_id = ''storage-health'', dr_status = s, dr_confidence = c,
       dr_metrics = m @ [(''devices'', show_int (int (length rs)))], dr_skip_code = []\<rparr>"
    using f by (simp add: check_storage_health_def rs del: foldl_Cons)
  with f storage_fold_status [of "(StatusOK, ConfHigh, [])" rs]
    storage_fold_confidence [of "(StatusOK, ConfHigh, [])" rs]
    storage_fold_failing [of "(StatusOK, ConfHigh, [])" rs]
  show "dr_status (check_storage_health (Some rs) k) = foldl max StatusOK (List.map report_verdict rs)"
    "dr_confidence (check_storage_health (Some rs) k) =
       (if \<exists>r\<in>set rs. sr_passed r = None then ConfMedium else ConfHigh)"
    "metric_values ''failing_device'' (dr_metrics (check_storage_health (Some rs) k)) =
       List.map sr_device_name (filter (\<lambda>r. sr_passed r = Some False) rs)"
    "dr_skip_code (check_storage_health (Some rs) k) = []"
    by simp_all
qed

subsection \<open>The battery loop\<close>

lemma worst_step_max:
  "worst_step worst b =
     (case wear_percent (bw_capacity_full b) (bw_capacity_design b) of
        None \<Rightarrow> worst
      | Some w \<Rightarrow> Some (case worst of None \<Rightarrow> w | Some v \<Rightarrow> max v w))"
  by (auto simp: worst_step_def max_def split: option.splits)

definition known_wears :: "battery_wear list \<Rightarrow> rat list" where
  "known_wears ws = List.map_filter (\<lambda>b. wear_percent (bw_capacity_full b) (bw_capacity_design b)) ws"

lemma worst_fold:
  "foldl worst_step acc ws =
     (case (acc, known_wears ws) of
        (None, []) \<Rightarrow> None
      | (None, x # xs) \<Rightarrow> Some (foldl max x xs)
      | (Some a, xs) \<Rightarrow> Some (foldl max a xs))"
  by (induction ws arbitrary: acc)
     (auto simp: known_wears_def worst_step_max List.map_filter_simps split: option.splits list.splits)

lemma worst_wear_eq:
  "worst_wear ws = (case known_wears ws of [] \<Rightarrow> None | x # xs \<Rightarrow> Some (foldl max x xs))"
  by (simp add: worst_wear_def worst_fold)

lemma worst_wear_Some:
  "worst_wear ws = Some w \<Longrightarrow> w = Max (set (known_wears ws)) \<and> known_wears ws \<noteq> []"
  by (auto simp: worst_wear_eq foldl_max_Max split: list.splits)

subsection \<open>The thermal maximum\<close>

lemma first_max_in: "first_max f b xs \<in> set (b # xs)"
proof (induction xs arbitrary: b)
  case (Cons x xs)
  show ?case using Cons.IH [of "if f b < f x then x else b"] by (auto split: if_splits)
qed simp

lemma first_max_acc: "f b \<le> f (first_max f b xs)"
proof (induction xs arbitrary: b)
  case (Cons x xs)
  show ?case using Cons.IH [of "if f b < f x then x else b"] by (auto split: if_splits)
qed simp

lemma first_max_ge: "x \<in> set (b # xs) \<Longrightarrow> f x \<le> f (first_max f b xs)"
proof (induction xs arbitrary: b)
  case (Cons y ys)
  let ?b = "if f b < f y then y else b"
  have "f b \<le> f (first_max f ?b ys)" "f y \<le> f (first_max f ?b ys)"
    using first_max_acc [of f ?b ys] by (auto split: if_splits)
  with Cons.IH [of ?b] Cons.prems show ?case by auto
qed simp

subsection \<open>The disk loop\<close>

definition mount_verdict :: "disk_usage \<Rightarrow> check_status" where
  "mount_verdict u =
     (if free_pct u < DISK_CRIT_FREE_PCT then Critical
      else if free_pct u < DISK_WARN_FREE_PCT then Warning else StatusOK)"

definition real_mounts :: "disk_usage list \<Rightarrow> disk_usage list" where
  "real_mounts us = filter (\<lambda>u. 0 < du_total_bytes u) us"

lemma disk_step_status:
  "StatusOK \<le> s \<Longrightarrow> fst (disk_step (s, ms, fu) u) = (if 0 < du_total_bytes u then max s (mount_verdict u) else s)"
  using status_cases [of s] by (auto simp: disk_step_def mount_verdict_def Let_def)

lemma disk_fold_status:
  "StatusOK \<le> fst a \<Longrightarrow>
   fst (foldl disk_step a us) = foldl max (fst a) (List.map mount_verdict (real_mounts us))"
proof (induction us arbitrary: a)
  case (Cons u us)
  have st: "fst (disk_step a u) = (if 0 < du_total_bytes u then max (fst a) (mount_verdict u) else fst a)"
    using disk_step_status Cons.prems by (metis prod.collapse)
  then have "StatusOK \<le> fst (disk_step a u)" using Cons.prems by (simp add: le_max_iff_disj)
  from Cons.IH [OF this] st show ?case by (simp add: real_mounts_def)
qed (simp add: real_mounts_def)

text \<open>The mount the report names: the first real mount with the least free percentage.\<close>

definition fullest_ok :: "disk_usage list \<Rightarrow> (rat \<times> string) option \<Rightarrow> bool" where
  "fullest_ok us fu \<longleftrightarrow>
     (case fu of
        None \<Rightarrow> real_mounts us = []
      | Some (p, m) \<Rightarrow>
          (\<exists>u\<in>set (real_mounts us). p = free_pct u \<and> m = du_mountpoint u) \<and>
          (\<forall>u\<in>set (real_mounts us). p \<le> free_pct u))"

lemma disk_step_fullest_eq:
  "snd (snd (disk_step (s, ms, fu) u)) =
     (if 0 < du_total_bytes u
      then Some (case fu of
             None \<Rightarrow> (free_pct u, du_mountpoint u)
           | Some (p, m) \<Rightarrow> if free_pct u < p then (free_pct u, du_mountpoint u) else (p, m))
      else fu)"
  by (simp add: disk_step_def Let_def split: option.splits prod.splits)

lemma fullest_ok_skip: "du_total_bytes u \<le> 0 \<Longrightarrow> fullest_ok (us @ [u]) fu = fullest_ok us fu"
proof -
  assume "du_total_bytes u \<le> 0"
  then have "real_mounts (us @ [u]) = real_mounts us" by (simp add: real_mounts_def)
  then show ?thesis by (simp only: fullest_ok_def)
qed

lemma fullest_ok_step:
  assumes "fullest_ok us fu" "0 < du_total_bytes u"
  shows "fullest_ok (us @ [u]) (Some (case fu of
             None \<Rightarrow> (free_pct u, du_mountpoint u)
           | Some (p, m) \<Rightarrow> if free_pct u < p then (free_pct u, du_mountpoint u) else (p, m)))"
proof (cases fu)
  case None
  with assms show ?thesis by (auto simp: fullest_ok_def real_mounts_def)
next
  case (Some q)
  obtain p m where q: "q = (p, m)" by (cases q)
  have all: "\<forall>v\<in>set (real_mounts us). p \<le> free_pct v"
    and ex: "\<exists>v\<in>set (real_mounts us). p = free_pct v \<and> m = du_mountpoint v"
    using assms Some q by (auto simp: fullest_ok_def)
  have rm: "real_mounts (us @ [u]) = real_mounts us @ [u]" using assms by (simp add: real_mounts_def)
  show ?thesis using all ex by (auto simp: Some q fullest_ok_def rm)
qed

lemma disk_step_fullest:
  "fullest_ok us (snd (snd a)) \<Longrightarrow> fullest_ok (us @ [u]) (snd (snd (disk_step a u)))"
  by (cases a) (simp add: disk_step_fullest_eq fullest_ok_skip fullest_ok_step)

lemma disk_fold_fullest:
  "fullest_ok us0 (snd (snd a)) \<Longrightarrow> fullest_ok (us0 @ us) (snd (snd (foldl disk_step a us)))"
proof (induction us arbitrary: a us0)
  case (Cons u us)
  from Cons.IH [OF disk_step_fullest [OF Cons.prems], of u] show ?case by simp
qed simp

lemma disk_fold_mount:
  "metric_values ''min_free_mount'' (fst (snd (foldl disk_step a us))) =
   metric_values ''min_free_mount'' (fst (snd a))"
proof (induction us arbitrary: a)
  case (Cons u us)
  have "metric_values ''min_free_mount'' (fst (snd (disk_step a u))) = metric_values ''min_free_mount'' (fst (snd a))"
    by (cases a) (auto simp: disk_step_def Let_def)
  then show ?case by (simp add: Cons.IH)
qed simp

lemma check_disk_space_cases:
  assumes "us \<noteq> []"
  obtains (none) "real_mounts us = []" "check_disk_space (Some us) = skipped ''disk-space'' ''no-data''"
  | (some) s ms p m where "foldl disk_step (StatusOK, [], None) us = (s, ms, Some (p, m))"
      "check_disk_space (Some us) =
         \<lparr>dr_check_id = ''disk-space'', dr_status = s, dr_confidence = ConfHigh,
          dr_metrics = ms @ [(''min_free_pct'', fmt_fixed 1 p), (''min_free_mount'', m)],
          dr_skip_code = []\<rparr>"
      "s = foldl max StatusOK (List.map mount_verdict (real_mounts us))"
      "fullest_ok us (Some (p, m))"
proof -
  obtain s ms fu where f: "foldl disk_step (StatusOK, [], None) us = (s, ms, fu)" by (metis prod_cases3)
  have fu: "fullest_ok us fu"
    using disk_fold_fullest [of "[]" "(StatusOK, [], None)" us] f by (simp add: fullest_ok_def real_mounts_def)
  have s: "s = foldl max StatusOK (List.map mount_verdict (real_mounts us))"
    using disk_fold_status [of "(StatusOK, [], None)" us] f by simp
  from assms obtain u us' where us: "us = u # us'" by (cases us) auto
  show thesis
  proof (cases fu)
    case None
    with fu f show ?thesis
      by (intro none) (simp_all add: fullest_ok_def check_disk_space_def us del: foldl_Cons)
  next
    case (Some q)
    obtain p m where q: "q = (p, m)" by (cases q)
    show ?thesis
    proof (rule some)
      show "foldl disk_step (StatusOK, [], None) us = (s, ms, Some (p, m))" using f Some q by simp
      then show "check_disk_space (Some us) =
         \<lparr>dr_check_id = ''disk-space'', dr_status = s, dr_confidence = ConfHigh,
          dr_metrics = ms @ [(''min_free_pct'', fmt_fixed 1 p), (''min_free_mount'', m)],
          dr_skip_code = []\<rparr>"
        by (simp add: check_disk_space_def us del: foldl_Cons)
    qed (use s fu Some q in simp_all)
  qed
qed

subsection \<open>Well-formed results\<close>

text \<open>A check carries a skip code exactly when it is skipped, and then no metrics.\<close>

definition wf_result :: "diagnostic_result \<Rightarrow> bool" where
  "wf_result r \<longleftrightarrow>
     (dr_status r = Skipped \<longleftrightarrow> dr_skip_code r \<noteq> []) \<and>
     (dr_status r = Skipped \<longrightarrow> dr_metrics r = [] \<and> dr_confidence r = ConfLow)"

lemma wf_skipped: "k \<noteq> [] \<Longrightarrow> wf_result (skipped c k)"
  by (simp add: wf_result_def)

lemma foldl_max_measured: "foldl max StatusOK xs \<noteq> Skipped"
  using foldl_max_ge [of StatusOK xs] by auto

lemma wf_check_battery_wear: "wf_result (check_battery_wear x)"
  using health_status_measured
  by (auto simp: check_battery_wear_def wf_skipped split: option.splits list.splits)
     (auto simp: wf_result_def)

lemma wf_check_storage_health: "k \<noteq> [] \<Longrightarrow> wf_result (check_storage_health x k)"
proof (cases x)
  case (Some rs)
  assume "k \<noteq> []"
  then show ?thesis
    using check_storage_health_eq(1,4) [of rs k] foldl_max_measured
    by (cases "rs = []") (auto simp: Some wf_result_def check_storage_health_def [of "Some []"])
qed (simp add: check_storage_health_def wf_skipped)

lemma wf_check_firmware_currency: "wf_result (check_firmware_currency x)"
  by (auto simp: check_firmware_currency_def wf_skipped Let_def split: option.splits list.splits)
     (auto simp: wf_result_def)

lemma wf_check_thermal: "wf_result (check_thermal x)"
  by (auto simp: check_thermal_def wf_skipped Let_def split: option.splits list.splits)
     (auto simp: wf_result_def)

lemma wf_check_disk_space: "wf_result (check_disk_space x)"
proof (cases x)
  case (Some us)
  show ?thesis
  proof (cases "us = []")
    case False
    then show ?thesis
      by (rule check_disk_space_cases) (auto simp: Some wf_skipped wf_result_def foldl_max_measured)
  qed (simp add: Some check_disk_space_def wf_skipped)
qed (simp add: check_disk_space_def wf_skipped)

lemmas wf_checks = wf_check_battery_wear wf_check_storage_health wf_check_firmware_currency
  wf_check_thermal wf_check_disk_space

lemma check_ids:
  "dr_check_id (check_battery_wear a) = ''battery-wear''"
  "dr_check_id (check_storage_health b k) = ''storage-health''"
  "dr_check_id (check_firmware_currency c) = ''firmware-currency''"
  "dr_check_id (check_thermal d) = ''thermal''"
  "dr_check_id (check_disk_space e) = ''disk-space''"
  by (auto simp: check_battery_wear_def check_storage_health_def check_firmware_currency_def
      check_thermal_def check_disk_space_def Let_def
      split: option.splits list.splits prod.splits)

section \<open>Lemmas: the score\<close>

fun half_points :: "check_status \<Rightarrow> int" where
  "half_points StatusOK = 2"
| "half_points Warning = 1"
| "half_points Critical = 0"
| "half_points Skipped = 0"

definition half_total :: "diagnostic_result list \<Rightarrow> int" where
  "half_total rs = sum_list (List.map (\<lambda>r. half_points (dr_status r)) rs)"

lemma half_points_bounds: "0 \<le> half_points s" "half_points s \<le> 2"
  by (cases s; simp)+

lemma half_total_bounds: "0 \<le> half_total rs" "half_total rs \<le> 2 * int (length rs)"
  by (induction rs) (use half_points_bounds in \<open>auto simp: half_total_def intro: add_mono\<close>)

lemma points_half: "points s = of_int (half_points s) / 2"
  by (cases s) auto

lemma fl_half_int: "\<bar>m\<bar> \<le> 2 ^ 53 \<Longrightarrow> fl (of_int m / 2) = of_int m / 2"
  by (rule fl_exact [of _ m "- 1"]) (simp_all add: power_int_def)

text \<open>Sums of points are exact in binary64.\<close>

lemma points_sum_exact:
  "0 \<le> k \<Longrightarrow> k + 2 * int (length rs) \<le> 2 ^ 53 \<Longrightarrow>
   foldl (\<lambda>a r. fl (a + points (dr_status r))) (of_int k / 2) rs = of_int (k + half_total rs) / 2"
proof (induction rs arbitrary: k)
  case (Cons r rs)
  let ?k = "k + half_points (dr_status r)"
  have "fl (of_int k / 2 + points (dr_status r)) = fl (of_int ?k / 2)"
    by (simp add: points_half add_divide_distrib)
  also have "\<dots> = of_int ?k / 2"
    using Cons.prems half_points_bounds [of "dr_status r"] by (intro fl_half_int) simp
  finally have "foldl (\<lambda>a r. fl (a + points (dr_status r))) (of_int k / 2) (r # rs) =
      foldl (\<lambda>a r. fl (a + points (dr_status r))) (of_int ?k / 2) rs"
    by (simp only: foldl_Cons)
  also have "\<dots> = of_int (?k + half_total rs) / 2"
    using Cons.prems half_points_bounds [of "dr_status r"] by (intro Cons.IH) simp_all
  finally show ?case by (simp add: half_total_def algebra_simps)
qed (simp add: half_total_def)

lemma round_between_halves:
  assumes "of_int h < 2 * x" "2 * x < of_int h + 1"
  shows "round_half_even x = (h + 1) div 2"
proof (cases "even h")
  case True
  then obtain g where g: "h = 2 * g" by blast
  with assms have "\<lfloor>x\<rfloor> = g" by (simp add: floor_eq_iff)
  with g assms show ?thesis by (simp add: round_half_even_def Let_def)
next
  case False
  then obtain g where g: "h = 2 * g + 1" by (metis oddE)
  with assms have "\<lfloor>x\<rfloor> = g" by (simp add: floor_eq_iff)
  with g assms show ?thesis by (simp add: round_half_even_def Let_def)
qed

lemma quotient_gap:
  fixes a b c :: rat
  assumes "0 < c"
  shows "a * c + 1 \<le> b \<Longrightarrow> a + 1 / c \<le> b / c" "b + 1 \<le> a * c \<Longrightarrow> b / c + 1 / c \<le> a"
proof -
  assume "a * c + 1 \<le> b"
  then show "a + 1 / c \<le> b / c" using assms by (simp add: pos_le_divide_eq distrib_right)
next
  assume "b + 1 \<le> a * c"
  then have "(b + 1) / c \<le> a" using assms by (simp add: pos_divide_le_eq)
  then show "b / c + 1 / c \<le> a" by (simp add: add_divide_distrib)
qed

text \<open>Rounding a quotient to an integer does not notice that the quotient was a float.\<close>

lemma round_fl_quotient:
  assumes n: "0 < n" "n \<le> 2 ^ 40" and q: "q = of_int a / of_int n" "0 \<le> q" "q \<le> 100"
  shows "round_half_even (fl q) = round_half_even q"
proof (cases "\<exists>m. 2 * q = of_int m")
  case True
  then obtain m where m: "2 * q = of_int m" by blast
  with q have "of_int 0 \<le> (of_int m :: rat)" "of_int m \<le> (of_int 200 :: rat)" by simp_all
  then have "0 \<le> m" "m \<le> 200" by (simp_all only: of_int_le_iff)
  then have "fl (of_int m / 2) = of_int m / 2" by (intro fl_half_int) simp
  moreover have "q = of_int m / 2" using m by simp
  ultimately have "fl q = q" by (simp only:)
  then show ?thesis by simp
next
  case False
  define h where "h = \<lfloor>2 * q\<rfloor>"
  have "of_int h \<le> 2 * q" "2 * q < of_int h + 1" unfolding h_def using floor_correct [of "2 * q"] by auto
  moreover have "2 * q \<noteq> of_int h" using False by blast
  ultimately have h: "of_int h < 2 * q" "2 * q < of_int (h + 1)" by simp_all
  have nn: "(0::rat) < of_int n" using n by simp
  have 2: "2 * q * of_int n = of_int (2 * a)" using q n by simp
  have "of_int h * of_int n < (of_int (2 * a) :: rat)" "of_int (2 * a) < (of_int (h + 1) * of_int n :: rat)"
    using mult_strict_right_mono [OF h(1) nn] mult_strict_right_mono [OF h(2) nn] 2 by simp_all
  then have "of_int (h * n) < (of_int (2 * a) :: rat)" "of_int (2 * a) < (of_int ((h + 1) * n) :: rat)"
    by (simp_all only: of_int_mult)
  then have "h * n < 2 * a" "2 * a < (h + 1) * n" by (simp_all only: of_int_less_iff)
  then have "of_int (h * n + 1) \<le> (of_int (2 * a) :: rat)" "of_int (2 * a + 1) \<le> (of_int ((h + 1) * n) :: rat)"
    by (simp_all only: of_int_le_iff)
  then have gap: "of_int h + 1 / of_int n \<le> 2 * q" "2 * q + 1 / of_int n \<le> of_int h + 1"
    using quotient_gap [OF nn, of "of_int h" "of_int (2 * a)"]
      quotient_gap [OF nn, of "of_int (2 * a)" "of_int (h + 1)"] by (simp_all add: q)
  have "of_int n \<le> (of_int (2 ^ 40) :: rat)" using n by (simp only: of_int_le_iff)
  then have "1 / 1099511627776 \<le> 1 / (of_int n :: rat)" using nn by (simp add: frac_le)
  moreover have "\<bar>fl q - q\<bar> \<le> 1 / 70368744177664"
    using fl_error [of q 7] q by (simp add: power_int_def power_divide)
  ultimately have "of_int h < 2 * fl q" "2 * fl q < of_int h + 1" using gap by linarith+
  then have "round_half_even (fl q) = (h + 1) div 2" by (rule round_between_halves)
  moreover have "round_half_even q = (h + 1) div 2" using h by (intro round_between_halves) simp_all
  ultimately show ?thesis by simp
qed

lemma score_eq:
  assumes "filter is_measured results \<noteq> []" "int (length results) \<le> 2 ^ 40"
  shows "score results =
     (Some (round_half_even (of_int (50 * half_total (filter is_measured results)) /
                             of_int (int (length (filter is_measured results))))),
      int (length (filter is_measured results)), int (length results))"
proof -
  let ?m = "filter is_measured results"
  let ?K = "half_total ?m" and ?n = "int (length ?m)"
  have "?n \<le> int (length results)" by (simp only: of_nat_le_iff length_filter_le)
  then have "?n \<le> 2 ^ 40" using assms(2) by (rule order_trans)
  moreover have "0 < ?n" using assms(1) by simp
  ultimately have n: "0 < ?n" "?n \<le> 2 ^ 40" by blast+
  have K: "0 \<le> ?K" "?K \<le> 2 * ?n" by (rule half_total_bounds)+
  let ?total = "foldl (\<lambda>a r. fl (a + points (dr_status r))) 0 ?m"
  have "100 * ?total = of_int (50 * ?K)"
    using points_sum_exact [of 0 ?m] n by simp
  moreover have "fl (of_int (50 * ?K)) = of_int (50 * ?K)"
    using K n by (intro fl_int) simp
  ultimately have "fl (100 * ?total) = of_int (50 * ?K)" by (simp only:)
  moreover have "round_half_even (fl (of_int (50 * ?K) / of_int ?n)) = round_half_even (of_int (50 * ?K) / of_int ?n)"
  proof (rule round_fl_quotient [OF n refl])
    have "of_int (50 * ?K) \<le> (of_int (100 * ?n) :: rat)" using K by (simp only: of_int_le_iff)
    with n show "of_int (50 * ?K) / of_int ?n \<le> (100 :: rat)" by (simp add: pos_divide_le_eq)
    show "0 \<le> (of_int (50 * ?K) / of_int ?n :: rat)" using K n by simp
  qed
  ultimately show ?thesis using assms(1) by (simp only: score_def Let_def if_False of_int_of_nat_eq)
qed

lemma half_total_cons [simp]:
  "half_total [] = 0" "half_total (r # rs) = half_points (dr_status r) + half_total rs"
  by (simp_all add: half_total_def)

text \<open>The exact quotient that is rounded lies between 0 and 100.\<close>

lemma quotient_range:
  assumes "rs \<noteq> []"
  shows "0 \<le> (of_int (50 * half_total rs) / of_int (int (length rs)) :: rat)"
    and "of_int (50 * half_total rs) / of_int (int (length rs)) \<le> (100 :: rat)"
proof -
  have n: "(0::rat) < of_int (int (length rs))" using assms by simp
  have K: "0 \<le> half_total rs" "half_total rs \<le> 2 * int (length rs)" by (rule half_total_bounds)+
  have "of_int (50 * half_total rs) \<le> (of_int (100 * int (length rs)) :: rat)"
    using K by (simp only: of_int_le_iff)
  with n show "of_int (50 * half_total rs) / of_int (int (length rs)) \<le> (100 :: rat)"
    by (simp add: pos_divide_le_eq)
  show "0 \<le> (of_int (50 * half_total rs) / of_int (int (length rs)) :: rat)" using K n by simp
qed

lemma score_value_range:
  assumes "score results = (Some v, m, n)" "int (length results) \<le> 2 ^ 40"
  shows "0 \<le> v \<and> v \<le> 100"
proof -
  from assms(1) have ne: "filter is_measured results \<noteq> []" by (auto simp: score_def)
  with score_eq [OF ne assms(2)] assms(1) quotient_range [OF ne] show ?thesis
    by (auto intro: round_half_even_ge [of 0, simplified] round_half_even_le [of _ 100, simplified])
qed

lemma score_counts:
  "fst (snd (score results)) = int (length (filter is_measured results))"
  "snd (snd (score results)) = int (length results)"
  "fst (score results) = None \<longleftrightarrow> filter is_measured results = []"
  by (simp_all add: score_def Let_def)

lemma half_total_full_iff: "half_total rs = 2 * int (length rs) \<longleftrightarrow> (\<forall>r\<in>set rs. dr_status r = StatusOK)"
proof (induction rs)
  case (Cons r rs)
  have "half_points (dr_status r) = 2 \<longleftrightarrow> dr_status r = StatusOK" by (cases "dr_status r") auto
  then show ?case using Cons half_total_bounds(2) [of rs] half_points_bounds(2) [of "dr_status r"] by auto
qed simp

lemma round_100:
  fixes x :: rat
  assumes "round_half_even x = 100"
  shows "199 / 2 \<le> x"
  using round_half_even_bound [of x] assms by (simp add: abs_if split: if_splits)

section \<open>Lemmas: the orchestrator\<close>

text \<open>The report that \<open>run\<close> builds from the inputs it gathered.\<close>

definition assemble ::
  "battery_wear list option \<Rightarrow> smart_report list option \<times> string \<Rightarrow> firmware_release list option \<Rightarrow>
   temperature_reading list option \<Rightarrow> disk_usage list option \<Rightarrow> diagnostics_report" where
  "assemble wears storage pending temps usages =
     (let results = [check_battery_wear wears,
                     check_storage_health (fst storage) (snd storage),
                     check_firmware_currency pending,
                     check_thermal temps,
                     check_disk_space usages]
      in \<lparr>rep_results = results, rep_score = fst (score results),
          rep_measured = fst (snd (score results)), rep_total = snd (snd (score results))\<rparr>)"

definition outcome :: "('w, 'a) io \<Rightarrow> 'w \<Rightarrow> 'a option" where
  "outcome m w = (case fst (m w) of Inl _ \<Rightarrow> None | Inr x \<Rightarrow> Some x)"

definition ask_storage :: "'w storage_provider option \<Rightarrow> bool \<Rightarrow> ('w, smart_report list option \<times> string) io" where
  "ask_storage storage include_storage_health =
     (case storage of
        Some st \<Rightarrow> if include_storage_health then gather_storage st else io_return (None, ''not-requested'')
      | None \<Rightarrow> io_return (None, ''not-requested''))"

lemma run_alt:
  "run bw st fw th du b =
     io_bind (ask (\<lambda>p. or_missing (list_batteries p)) bw) (\<lambda>wears.
     io_bind (ask_storage st b) (\<lambda>storage.
     io_bind (ask (\<lambda>p. or_missing (pending_upgrades p)) fw) (\<lambda>pending.
     io_bind (ask (\<lambda>p. or_missing (list_temperatures p)) th) (\<lambda>temps.
     io_bind (ask (\<lambda>p. or_missing (list_usage p)) du) (\<lambda>usages.
     io_return (assemble wears storage pending temps usages))))))"
  unfolding run_def ask_storage_def assemble_def Let_def
  by (simp add: case_prod_unfold)

lemma port_readI: "lapcare_only m \<Longrightarrow> port_read m"
  by unfold_locales (auto simp: lapcare_only_def)

lemma snapshot_readI: "lapcare_only m \<Longrightarrow> reads_only m \<Longrightarrow> snapshot_read m"
  by (auto simp: snapshot_read_def snapshot_read_axioms_def port_readI reads_only_def)

lemma never_raises_ask [io_intros]:
  "(\<And>q. p = Some q \<Longrightarrow> lapcare_only (f q)) \<Longrightarrow> never_raises (ask (\<lambda>q. or_missing (f q)) p)"
  by (auto simp: ask_def split: option.split intro!: io_intros port_read.or_missing_total port_readI)

lemma ask_snapshot:
  "(\<And>q. p = Some q \<Longrightarrow> lapcare_only (f q) \<and> reads_only (f q)) \<Longrightarrow>
   ask (\<lambda>q. or_missing (f q)) p w = (Inr (case p of None \<Rightarrow> None | Some q \<Rightarrow> outcome (f q) w), w)"
  by (auto simp: ask_def outcome_def split: option.split
      intro!: snapshot_read.or_missing_snapshot snapshot_readI)

lemma lapcare_only_pending [io_intros]:
  "lapcare_only (fw_list_devices p) \<Longrightarrow> (\<And>i. lapcare_only (list_upgrades p i)) \<Longrightarrow>
   lapcare_only (pending_upgrades p)"
  unfolding pending_upgrades_def by (intro io_intros)

lemma reads_only_if [io_intros]: "reads_only m \<Longrightarrow> reads_only n \<Longrightarrow> reads_only (if b then m else n)"
  by simp

lemma reads_only_pending [io_intros]:
  "reads_only (fw_list_devices p) \<Longrightarrow> (\<And>i. reads_only (list_upgrades p i)) \<Longrightarrow>
   reads_only (pending_upgrades p)"
  unfolding pending_upgrades_def by (intro io_intros)

lemma never_raises_gather [io_intros]:
  assumes "lapcare_only (st_list_devices st)" "\<And>n. lapcare_only (read_smart st n)"
  shows "never_raises (gather_storage st)"
  unfolding gather_storage_def
proof (rule never_raises_catch)
  show "lapcare_only (io_bind (st_list_devices st) (\<lambda>devices.
        io_bind (io_mapM (\<lambda>d. read_smart st (sd_name d)) devices) (\<lambda>reports.
        io_return (Some reports, ''not-requested''))))"
    by (intro io_intros assms)
qed (auto split: exn.split intro!: io_intros)

lemma never_raises_ask_storage [io_intros]:
  "(\<And>s. st = Some s \<Longrightarrow> lapcare_only (st_list_devices s) \<and> (\<forall>n. lapcare_only (read_smart s n))) \<Longrightarrow>
   never_raises (ask_storage st b)"
  by (auto simp: ask_storage_def split: option.split intro!: io_intros)

text \<open>The skip code is one of the three the docstring of \<open>run\<close> lists.\<close>

lemma gather_storage_code:
  "gather_storage st w = (Inr (reports, k), w') \<Longrightarrow> k \<in> {''not-requested'', ''declined'', ''unavailable''}"
  by (auto simp: gather_storage_def io_catch_def io_bind_def
      split: prod.splits sum.splits option.splits exn.splits if_splits)

lemma ask_storage_code:
  "ask_storage st b w = (Inr (reports, k), w') \<Longrightarrow> k \<in> {''not-requested'', ''declined'', ''unavailable''}"
  by (auto simp: ask_storage_def dest!: gather_storage_code split: option.splits if_splits)

lemma gather_storage_eq:
  "reads_only (st_list_devices st) \<Longrightarrow> (\<And>n. reads_only (read_smart st n)) \<Longrightarrow>
   reads_only (gather_storage st)"
  unfolding gather_storage_def
  by (rule reads_only_catch) (auto intro!: io_intros split: exn.splits if_splits)

text \<open>The sources asked after the storage, and a run as what it gathers before and after it.\<close>

definition last_sources ::
  "'w firmware_provider option \<Rightarrow> 'w thermal_provider option \<Rightarrow> 'w disk_usage_provider option \<Rightarrow>
   ('w, firmware_release list option \<times> temperature_reading list option \<times> disk_usage list option) io" where
  "last_sources fw th du =
     io_bind (ask (\<lambda>p. or_missing (pending_upgrades p)) fw) (\<lambda>pending.
     io_bind (ask (\<lambda>p. or_missing (list_temperatures p)) th) (\<lambda>temps.
     io_bind (ask (\<lambda>p. or_missing (list_usage p)) du) (\<lambda>usages.
     io_return (pending, temps, usages))))"

lemma run_parts:
  "run bw st fw th du b =
     io_bind (ask (\<lambda>p. or_missing (list_batteries p)) bw) (\<lambda>wears.
     io_bind (ask_storage st b) (\<lambda>storage.
     io_bind (last_sources fw th du) (\<lambda>(pending, temps, usages).
     io_return (assemble wears storage pending temps usages))))"
  unfolding run_alt last_sources_def
  by (auto simp: io_bind_def fun_eq_iff split: prod.split sum.split)

text \<open>A declined storage check and one that was not requested differ in the skip code alone.\<close>

lemma assemble_declined:
  "rep_results (assemble wears (None, k) pending temps usages) =
     (rep_results (assemble wears (None, k') pending temps usages))[1 := skipped ''storage-health'' k]"
  "rep_score (assemble wears (None, k) pending temps usages) = rep_score (assemble wears (None, k') pending temps usages)"
  "rep_measured (assemble wears (None, k) pending temps usages) = rep_measured (assemble wears (None, k') pending temps usages)"
  "rep_total (assemble wears (None, k) pending temps usages) = rep_total (assemble wears (None, k') pending temps usages)"
  by (simp_all add: assemble_def Let_def check_storage_health_def score_def is_measured_def)

lemma gather_storage_denied:
  assumes "st_list_devices st w = (Inr ds, w1)"
    and "io_mapM (\<lambda>d. read_smart st (sd_name d)) ds w1 = (Inl (PrivilegedActionDenied act), w2)"
  shows "gather_storage st w = (Inr (None, ''declined''), w2)"
  using assms by (simp add: gather_storage_def io_catch_def io_bind_def)

text \<open>Whatever the ports do, a run that returns has assembled a report.\<close>

lemma run_returns:
  assumes "run bw st fw th du b w = (Inr rep, w')"
  obtains wears reports k pending temps usages where
    "rep = assemble wears (reports, k) pending temps usages"
    "k \<in> {''not-requested'', ''declined'', ''unavailable''}"
  using assms unfolding run_alt
  by (auto simp: io_bind_def split: prod.splits sum.splits dest!: ask_storage_code)

lemma assemble_score:
  "(rep_score (assemble a b c d e), rep_measured (assemble a b c d e), rep_total (assemble a b c d e)) =
   score (rep_results (assemble a b c d e))"
  by (simp add: assemble_def Let_def del: split_paired_All)

lemma assemble_shape:
  "List.map dr_check_id (rep_results (assemble a b c d e)) = CHECK_IDS"
  "rep_total (assemble a b c d e) = 5"
  "rep_measured (assemble a b c d e) = int (length (filter is_measured (rep_results (assemble a b c d e))))"
  "length (rep_results (assemble a b c d e)) = 5"
  by (simp_all add: assemble_def Let_def check_ids CHECK_IDS_def score_counts)

lemma assemble_wf:
  "k \<noteq> [] \<Longrightarrow> \<forall>r\<in>set (rep_results (assemble a (b, k) c d e)). wf_result r"
  by (simp add: assemble_def Let_def wf_checks)

section \<open>Lemmas: float thresholds against integer arithmetic\<close>

text \<open>The verdict on a mount by integers: under 1/20 free is critical, under 1/10 low.\<close>

definition exact_mount_verdict :: "disk_usage \<Rightarrow> check_status" where
  "exact_mount_verdict u =
     (if 20 * du_free_bytes u < du_total_bytes u then Critical
      else if 10 * du_free_bytes u < du_total_bytes u then Warning else StatusOK)"

lemma fraction_at_least:
  assumes "0 < t" "t \<le> k * f" "0 < k"
  shows "fl (fl (1 / of_int k) * 100) \<le> fl (int_truediv f t * 100)"
proof -
  have "of_int t \<le> (of_int (k * f) :: rat)" using assms(2) by (simp only: of_int_le_iff)
  then have "1 / of_int k \<le> (of_int f / of_int t :: rat)"
    using assms(1,3) by (simp add: pos_divide_le_eq pos_le_divide_eq mult.commute)
  then show ?thesis unfolding int_truediv_def by (intro fl_mono mult_right_mono) auto
qed

lemma fraction_below_gap:
  assumes "0 < t" "k * f < t" "0 < k"
  shows "(of_int f / of_int t :: rat) + 1 / (of_int k * of_int t) \<le> 1 / of_int k"
proof -
  have "of_int (k * f + 1) \<le> (of_int t :: rat)" using assms(2) by (simp only: of_int_le_iff)
  then have "of_int (k * f + 1) / (of_int k * of_int t) \<le> (of_int t / (of_int k * of_int t) :: rat)"
    using assms(1,3) by (intro divide_right_mono) auto
  moreover have "of_int (k * f + 1) / (of_int k * of_int t) = (of_int f / of_int t + 1 / (of_int k * of_int t) :: rat)"
    using assms(1,3) by (simp add: add_divide_distrib)
  ultimately show ?thesis using assms(1,3) by simp
qed

lemma fraction_below:
  assumes t: "0 < t" "t \<le> 2 ^ 50" and f: "0 \<le> f" "k * f < t"
    and k: "k = 20 \<and> e = - 4 \<or> k = 10 \<and> e = - 3"
  shows "fl (int_truediv f t * 100) < 100 / of_int k"
proof -
  define x q g where "x = (of_int f / of_int t :: rat)" and "q = fl x" and "g = (1 / (of_int k * of_int t) :: rat)"
  have "of_int t \<le> (of_int (2 ^ 50) :: rat)" using t(2) by (simp only: of_int_le_iff)
  then have tt: "(0::rat) < of_int t" "of_int t \<le> (1125899906842624 :: rat)" using t(1) by simp_all
  have x0: "0 \<le> x" using tt f by (simp add: x_def)
  have gap: "x + g \<le> 1 / of_int k" using fraction_below_gap [of t k f] t f k by (auto simp: x_def g_def)
  have "1 / 1125899906842624 \<le> (1 / of_int t :: rat)" using tt by (simp add: frac_le)
  then have g: "1 / (of_int k * 1125899906842624) \<le> g" using k by (auto simp: g_def)
  have p: "(2::rat) powi (- 4) = 1 / 16" "(2::rat) powi (- 3) = 1 / 8"
    "(2::rat) powi (- 57) = 1 / 144115188075855872" "(2::rat) powi (- 56) = 1 / 72057594037927936"
    "(2::rat) powi (- 50) = 1 / 1125899906842624" "(2::rat) powi (- 49) = 1 / 562949953421312"
    by (simp_all add: power_int_def power_divide)
  from k show ?thesis
  proof (elim disjE conjE)
    assume [simp]: "k = 20" "e = - 4"
    have gk: "x + g \<le> 1 / 20" "1 / (20 * 1125899906842624) \<le> g" using gap g by simp_all
    then have "x \<le> 1 / 20" by linarith
    then have q: "\<bar>q - x\<bar> \<le> 1 / 144115188075855872"
      using fl_error [of x "- 4"] x0 p by (simp add: q_def)
    then have "q * 100 \<le> 8" using \<open>x \<le> 1 / 20\<close> by linarith
    then have "\<bar>fl (q * 100) - q * 100\<bar> \<le> 1 / 1125899906842624"
      using fl_error [of "q * 100" 3] p fl_nonneg [OF x0] by (simp add: q_def)
    then have "fl (q * 100) < 5" using q gk by linarith
    then show ?thesis by (simp add: q_def x_def int_truediv_def)
  next
    assume [simp]: "k = 10" "e = - 3"
    have gk: "x + g \<le> 1 / 10" "1 / (10 * 1125899906842624) \<le> g" using gap g by simp_all
    then have "x \<le> 1 / 10" by linarith
    then have q: "\<bar>q - x\<bar> \<le> 1 / 72057594037927936"
      using fl_error [of x "- 3"] x0 p by (simp add: q_def)
    then have "q * 100 \<le> 16" using \<open>x \<le> 1 / 10\<close> by linarith
    then have "\<bar>fl (q * 100) - q * 100\<bar> \<le> 1 / 562949953421312"
      using fl_error [of "q * 100" 4] p fl_nonneg [OF x0] by (simp add: q_def)
    then have "fl (q * 100) < 10" using q gk by linarith
    then show ?thesis by (simp add: q_def x_def int_truediv_def)
  qed
qed

lemma percent_at_thresholds: "5 \<le> fl (fl (1 / 20) * 100)" "10 \<le> fl (fl (1 / 10) * 100)"
  by code_simp+

lemma mount_verdict_exact:
  assumes "0 < du_total_bytes u" "du_total_bytes u \<le> 2 ^ 50" "0 \<le> du_free_bytes u"
  shows "mount_verdict u = exact_mount_verdict u"
proof -
  let ?t = "du_total_bytes u" and ?f = "du_free_bytes u"
  have c: "free_pct u < 5 \<longleftrightarrow> 20 * ?f < ?t"
    using fraction_below [OF assms(1,2,3), of 20 "- 4"] fraction_at_least [OF assms(1), of 20 ?f]
      percent_at_thresholds(1) by (fastforce simp: free_pct_def)
  have w: "free_pct u < 10 \<longleftrightarrow> 10 * ?f < ?t"
    using fraction_below [OF assms(1,2,3), of 10 "- 3"] fraction_at_least [OF assms(1), of 10 ?f]
      percent_at_thresholds(2) by (fastforce simp: free_pct_def)
  show ?thesis by (simp add: mount_verdict_def exact_mount_verdict_def diag_consts c w)
qed

text \<open>One pack's class by integers; unknown where the wear is unknown.\<close>

definition battery_class :: "battery_wear \<Rightarrow> health_class" where
  "battery_class b =
     (case (bw_capacity_full b, bw_capacity_design b) of
        (Some f, Some d) \<Rightarrow> if d \<le> 0 then HealthUnknown else exact_class f d
      | _ \<Rightarrow> HealthUnknown)"

definition sane_battery :: "battery_wear \<Rightarrow> bool" where
  "sane_battery b \<longleftrightarrow>
     (\<forall>f. bw_capacity_full b = Some f \<longrightarrow> 0 \<le> f) \<and>
     (\<forall>d. bw_capacity_design b = Some d \<longrightarrow> d \<le> 2 ^ 45)"

lemma classify_battery:
  "sane_battery b \<Longrightarrow>
   classify_wear (wear_percent (bw_capacity_full b) (bw_capacity_design b)) = battery_class b"
  by (auto simp: sane_battery_def battery_class_def classify_wear_exact split: option.splits)
     (auto simp: wear_percent_def classify_wear_def)

lemma health_status_max:
  "health_status (classify_wear (Some (max v w))) =
   max (health_status (classify_wear (Some v))) (health_status (classify_wear (Some w)))"
  by (auto simp: classify_wear_def wear_bounds max_def)

lemma worst_fold_status:
  "health_status (classify_wear (foldl worst_step acc ws)) =
   foldl max (health_status (classify_wear acc))
     (List.map (\<lambda>b. health_status (classify_wear (wear_percent (bw_capacity_full b) (bw_capacity_design b)))) ws)"
proof (induction ws arbitrary: acc)
  case (Cons b ws)
  have N: "health_status (classify_wear None) = Skipped" by (simp add: classify_wear_def)
  have "health_status (classify_wear (worst_step acc b)) =
      max (health_status (classify_wear acc))
        (health_status (classify_wear (wear_percent (bw_capacity_full b) (bw_capacity_design b))))"
    by (auto simp: worst_step_max N health_status_max split: option.splits)
  then show ?case by (simp add: Cons.IH)
qed simp

lemma check_battery_wear_status:
  "dr_status (check_battery_wear (Some ws)) =
   foldl max Skipped
     (List.map (\<lambda>b. health_status (classify_wear (wear_percent (bw_capacity_full b) (bw_capacity_design b)))) ws)"
  using worst_fold_status [of None ws]
  by (auto simp: check_battery_wear_def worst_wear_def classify_wear_def [of None] split: option.splits list.splits)

lemma half_total_mono:
  "list_all2 (\<lambda>r s. severity (dr_status s) \<le> severity (dr_status r)) rs ss \<Longrightarrow>
   list_all is_measured ss \<Longrightarrow> half_total rs \<le> half_total ss"
proof (induction rule: list_all2_induct)
  case (Cons r rs s ss)
  then have "half_points (dr_status r) \<le> half_points (dr_status s)"
    by (cases "dr_status r"; cases "dr_status s") (simp_all add: is_measured_def)
  with Cons show ?case by simp
qed simp

lemma half_total_counts:
  "half_total (filter is_measured rs) =
   2 * int (length (filter (\<lambda>r. dr_status r = StatusOK) rs)) + int (length (filter (\<lambda>r. dr_status r = Warning) rs))"
proof (induction rs)
  case (Cons r rs)
  then show ?case by (cases "dr_status r") (simp_all add: is_measured_def)
qed simp

lemma half_total_measured_mono:
  assumes "list_all2 (\<lambda>r s. (dr_status s = Skipped \<longleftrightarrow> dr_status r = Skipped) \<and>
    severity (dr_status s) \<le> severity (dr_status r)) rs ss"
  shows "half_total (filter is_measured rs) \<le> half_total (filter is_measured ss)"
    and "length (filter is_measured ss) = length (filter is_measured rs)"
  using assms
proof (induction rule: list_all2_induct)
  case (Cons r rs s ss)
  {
    case 1
    from Cons show ?case
      by (cases "dr_status r"; cases "dr_status s") (simp_all add: is_measured_def)
  next
    case 2
    from Cons show ?case by (simp add: is_measured_def)
  }
qed simp_all

lemma score_full_iff:
  assumes "ms \<noteq> []" "int (length ms) < 100"
  shows "round_half_even (of_int (50 * half_total ms) / of_int (int (length ms)) :: rat) = 100 \<longleftrightarrow>
    (\<forall>r\<in>set ms. dr_status r = StatusOK)"
proof
  let ?q = "of_int (50 * half_total ms) / of_int (int (length ms)) :: rat"
  have n: "(0::rat) < of_int (int (length ms))" using assms(1) by simp
  {
    assume "round_half_even ?q = 100"
    then have "199 / 2 \<le> ?q" by (rule round_100)
    then have "of_int (199 * int (length ms)) \<le> (of_int (100 * half_total ms) :: rat)"
      using n by (simp add: pos_le_divide_eq)
    then have "199 * int (length ms) \<le> 100 * half_total ms" by (simp only: of_int_le_iff)
    then have "half_total ms = 2 * int (length ms)"
      using half_total_bounds(2) [of ms] assms(2) by linarith
    then show "\<forall>r\<in>set ms. dr_status r = StatusOK" by (simp only: half_total_full_iff)
  }
  assume "\<forall>r\<in>set ms. dr_status r = StatusOK"
  then have "half_total ms = 2 * int (length ms)" by (simp only: half_total_full_iff)
  then have "?q = 100" using n by simp
  then show "round_half_even ?q = 100" using round_half_even_int [of 100] by simp
qed

lemma foldl_max_append_le: "x \<in> set xs \<Longrightarrow> x \<le> foldl max (a::'a::linorder) xs"
  by (simp add: foldl_max_Max)

lemma score_skip_swap:
  "fst (score [a, skipped c k, d, e, f]) = fst (score [a, skipped c k', d, e, f]) \<and>
   fst (snd (score [a, skipped c k, d, e, f])) = fst (snd (score [a, skipped c k', d, e, f]))"
  by (simp add: score_def Let_def is_measured_def)

section \<open>Properties\<close>

text \<open>C1: A diagnostics run always returns a report: whatever Lapcare error any source raises,
  in whatever world, \<open>run\<close> degrades to a result and lets no exception out.\<close>

theorem run_never_raises:
  assumes "\<And>p. bw = Some p \<Longrightarrow> lapcare_only (list_batteries p)"
    and "\<And>p. st = Some p \<Longrightarrow> lapcare_only (st_list_devices p) \<and> (\<forall>n. lapcare_only (read_smart p n))"
    and "\<And>p. fw = Some p \<Longrightarrow> lapcare_only (fw_list_devices p) \<and> (\<forall>i. lapcare_only (list_upgrades p i))"
    and "\<And>p. th = Some p \<Longrightarrow> lapcare_only (list_temperatures p)"
    and "\<And>p. du = Some p \<Longrightarrow> lapcare_only (list_usage p)"
  shows "\<exists>rep w'. run bw st fw th du b w = (Inr rep, w')"
proof -
  have "never_raises (run bw st fw th du b)"
    unfolding run_alt using assms by (intro io_intros) blast+
  then show ?thesis by (simp add: never_raises_def)
qed

definition broken_storage :: "(unit) storage_provider" where
  "broken_storage = \<lparr>st_list_devices = io_return [\<lparr>sd_name = ''sda'', sd_model = None,
       sd_size_bytes = None, sd_removable = None, sd_rotational = None\<rparr>],
     read_smart = (\<lambda>n. io_raise (PrivilegedActionDenied n))\<rparr>"

lemma broken_storage_lapcare:
  "lapcare_only (st_list_devices broken_storage)" "lapcare_only (read_smart broken_storage n)"
  by (simp_all add: broken_storage_def lapcare_only_def)

theorem run_never_raises_witness:
  "\<exists>rep w'. run (Some \<lparr>list_batteries = io_raise (ProviderTimeout ''upower'' ''10s'')\<rparr>) (Some broken_storage)
     None None None True () = (Inr rep, w')"
  by (rule run_never_raises) (auto simp: broken_storage_lapcare, simp add: lapcare_only_def)

text \<open>C2: A report holds the five checks in the order of \<open>CHECK_IDS\<close>, each with a skip code exactly
  when it was not measured, counts the measured ones honestly out of five, and scores them
  in 0..100, or not at all when nothing was measured.\<close>

theorem run_report_wf:
  assumes "run bw st fw th du b w = (Inr rep, w')"
  shows "List.map dr_check_id (rep_results rep) = CHECK_IDS \<and>
    list_all wf_result (rep_results rep) \<and>
    rep_total rep = 5 \<and> rep_measured rep = int (length (filter is_measured (rep_results rep))) \<and>
    (case rep_score rep of None \<Rightarrow> rep_measured rep = 0
     | Some v \<Rightarrow> 0 < rep_measured rep \<and> 0 \<le> v \<and> v \<le> 100)"
proof -
  obtain wears reports k pending temps usages where rep:
    "rep = assemble wears (reports, k) pending temps usages" "k \<noteq> []"
    using run_returns [OF assms] by (metis empty_iff insert_iff list.distinct(1))
  have ids: "List.map dr_check_id (rep_results rep) = CHECK_IDS" by (simp add: rep assemble_shape)
  have wf: "list_all wf_result (rep_results rep)"
    unfolding rep(1) list_all_iff by (rule assemble_wf [OF rep(2)])
  have five: "rep_total rep = 5" by (simp add: rep assemble_shape)
  have measured: "rep_measured rep = int (length (filter is_measured (rep_results rep)))"
    unfolding rep(1) by (rule assemble_shape)
  have sc: "score (rep_results rep) = (rep_score rep, rep_measured rep, rep_total rep)"
    unfolding rep(1) by (rule assemble_score [symmetric])
  have "case rep_score rep of None \<Rightarrow> rep_measured rep = 0
        | Some v \<Rightarrow> 0 < rep_measured rep \<and> 0 \<le> v \<and> v \<le> 100"
    using score_value_range [of "rep_results rep"] score_counts [of "rep_results rep"] sc
    by (auto simp: rep assemble_shape split: option.split)
  with ids wf five measured show ?thesis by blast
qed

theorem run_report_wf_witness:
  "case run None None None None (Some \<lparr>list_usage = io_return [\<lparr>du_mountpoint = ''/'', du_total_bytes = 100,
       du_free_bytes = 4\<rparr>]\<rparr>) False () of
     (Inr rep, _) \<Rightarrow> rep_total rep = 5 \<and> list_all wf_result (rep_results rep) | _ \<Rightarrow> False"
proof -
  let ?du = "Some \<lparr>list_usage = (io_return [\<lparr>du_mountpoint = ''/'', du_total_bytes = 100, du_free_bytes = 4\<rparr>]
    :: (unit, disk_usage list) io)\<rparr>"
  obtain rep where "run None None None None ?du False () = (Inr rep, ())"
    by (simp add: run_alt ask_def ask_storage_def or_missing_def io_catch_def io_bind_def)
  with run_report_wf [OF this] show ?thesis by simp
qed

text \<open>C38: Over sources that only read the machine, the order in which \<open>run\<close> asks them is
  immaterial: the report is assembled from what each source yields on its own in the same
  world, a failing source counting as missing, and the world is left as it was found.\<close>

theorem run_is_snapshot:
  assumes "\<And>p. bw = Some p \<Longrightarrow> lapcare_only (list_batteries p) \<and> reads_only (list_batteries p)"
    and "\<And>p. fw = Some p \<Longrightarrow> lapcare_only (fw_list_devices p) \<and> reads_only (fw_list_devices p) \<and>
           (\<forall>i. lapcare_only (list_upgrades p i) \<and> reads_only (list_upgrades p i))"
    and "\<And>p. th = Some p \<Longrightarrow> lapcare_only (list_temperatures p) \<and> reads_only (list_temperatures p)"
    and "\<And>p. du = Some p \<Longrightarrow> lapcare_only (list_usage p) \<and> reads_only (list_usage p)"
  shows "run bw st fw th du False w =
    (Inr (assemble (case bw of None \<Rightarrow> None | Some p \<Rightarrow> outcome (list_batteries p) w)
                   (None, ''not-requested'')
                   (case fw of None \<Rightarrow> None | Some p \<Rightarrow> outcome (pending_upgrades p) w)
                   (case th of None \<Rightarrow> None | Some p \<Rightarrow> outcome (list_temperatures p) w)
                   (case du of None \<Rightarrow> None | Some p \<Rightarrow> outcome (list_usage p) w)), w)"
proof -
  have "ask_storage st False = io_return (None, ''not-requested'')"
    by (simp add: ask_storage_def split: option.split)
  moreover have "\<And>p. fw = Some p \<Longrightarrow> lapcare_only (pending_upgrades p) \<and> reads_only (pending_upgrades p)"
    using assms(2) by (blast intro: io_intros)
  ultimately show ?thesis
    using assms by (simp add: run_alt io_bind_apply ask_snapshot)
qed

theorem run_is_snapshot_witness:
  "run (Some \<lparr>list_batteries = io_raise (ProviderTimeout ''upower'' ''10s'')\<rparr>) None None None None False (7 :: nat) =
   (Inr (assemble None (None, ''not-requested'') None None None), 7)"
  using run_is_snapshot [of "Some \<lparr>list_batteries = io_raise (ProviderTimeout ''upower'' ''10s'')\<rparr>"
      None None None None "7::nat"]
  by (simp add: lapcare_only_def reads_only_def outcome_def)

text \<open>C10: The battery check reports the worst pack, classified as by integer arithmetic: poor
  from 30 percent of the design capacity lost, fair from 15, and packs without a known
  wear do not count.\<close>

theorem check_battery_wear_exact:
  assumes "\<forall>b\<in>set ws. sane_battery b"
  shows "dr_status (check_battery_wear (Some ws)) =
    foldl max Skipped (List.map (\<lambda>b. health_status (battery_class b)) ws)"
proof -
  have "List.map (\<lambda>b. health_status (classify_wear (wear_percent (bw_capacity_full b) (bw_capacity_design b)))) ws =
      List.map (\<lambda>b. health_status (battery_class b)) ws"
    using assms by (simp add: classify_battery)
  then show ?thesis by (simp only: check_battery_wear_status)
qed

theorem check_battery_wear_exact_witness:
  "dr_status (check_battery_wear (Some [(blank_battery ''BAT0'')\<lparr>bw_capacity_full := Some 7000,
     bw_capacity_design := Some 10000\<rparr>, blank_battery ''BAT1''])) = Critical"
  by (subst check_battery_wear_exact)
     (simp_all add: sane_battery_def battery_class_def blank_battery_def exact_class_def)

text \<open>C12: The storage check reports the worst drive. It is critical exactly when a drive's own
  self-assessment failed, names every such drive in order, and warns for pending sectors or
  worn endurance otherwise; a drive without a self-assessment lowers the confidence.\<close>

theorem check_storage_health_worst:
  assumes "rs \<noteq> []"
  shows "(let r = check_storage_health (Some rs) k in
    dr_status r = Max (insert StatusOK (report_verdict ` set rs)) \<and>
    (dr_status r = Critical \<longleftrightarrow> (\<exists>x\<in>set rs. sr_passed x = Some False)) \<and>
    metric_values ''failing_device'' (dr_metrics r) =
      List.map sr_device_name (filter (\<lambda>x. sr_passed x = Some False) rs) \<and>
    (dr_confidence r = ConfHigh \<longleftrightarrow> (\<forall>x\<in>set rs. sr_passed x \<noteq> None)))"
proof -
  have st: "dr_status (check_storage_health (Some rs) k) = Max (insert StatusOK (report_verdict ` set rs))"
    using check_storage_health_eq(1) [OF assms] by (simp add: foldl_max_Max)
  have c: "report_verdict x = Critical \<longleftrightarrow> sr_passed x = Some False" for x
    by (simp add: report_verdict_def)
  have "Max (insert StatusOK (report_verdict ` set rs)) = Critical \<longleftrightarrow> (\<exists>x\<in>set rs. report_verdict x = Critical)"
    by (subst Max_eq_iff) (auto simp: image_iff, metis+)
  with st c check_storage_health_eq(2,3) [OF assms] show ?thesis by (auto simp: Let_def)
qed

theorem check_storage_health_worst_witness:
  "dr_status (check_storage_health (Some [(blank_smart ''sda'')\<lparr>sr_passed := Some True\<rparr>,
      (blank_smart ''sdb'')\<lparr>sr_passed := Some False\<rparr>]) ''declined'') = Critical"
  using check_storage_health_worst [of "[(blank_smart ''sda'')\<lparr>sr_passed := Some True\<rparr>,
      (blank_smart ''sdb'')\<lparr>sr_passed := Some False\<rparr>]" "''declined''"]
  by (auto simp: Let_def)

text \<open>The thermal check reads the hottest plausible sensor, at once for every sensor list: the
  status is that of a reading strictly between 1 and 119 degrees that no other such reading
  exceeds, and without one the check is skipped for lack of data.\<close>

theorem check_thermal_hottest:
  "(let r = check_thermal (Some ts) in
    if \<exists>t\<in>set ts. plausible t
    then \<exists>t\<in>set ts. plausible t \<and> (\<forall>u\<in>set ts. plausible u \<longrightarrow> tr_celsius u \<le> tr_celsius t) \<and>
           dr_status r = thermal_status (tr_celsius t) \<and>
           dr_metrics r = [(''max_temp_c'', fmt_fixed 0 (tr_celsius t)),
             (''max_temp_source'', or_str (tr_label t) (tr_chip t)),
             (''sensors'', show_int (int (length (filter plausible ts))))]
    else r = skipped ''thermal'' ''no-data'')"
proof (cases "filter plausible ts")
  case Nil
  then have "\<not> (\<exists>t\<in>set ts. plausible t)" by (simp add: filter_empty_conv)
  with Nil show ?thesis by (simp add: check_thermal_def)
next
  case (Cons t rest)
  let ?h = "first_max tr_celsius t rest"
  have h: "?h \<in> set (filter plausible ts)" unfolding Cons by (rule first_max_in)
  have m: "\<forall>u\<in>set (filter plausible ts). tr_celsius u \<le> tr_celsius ?h"
    unfolding Cons by (intro ballI first_max_ge)
  have h': "?h \<in> set ts" "plausible ?h" "\<exists>t\<in>set ts. plausible t"
    and m': "\<forall>u\<in>set ts. plausible u \<longrightarrow> tr_celsius u \<le> tr_celsius ?h"
    using h m by auto
  have r: "check_thermal (Some ts) = \<lparr>dr_check_id = ''thermal'', dr_status = thermal_status (tr_celsius ?h),
      dr_confidence = ConfMedium, dr_metrics = [(''max_temp_c'', fmt_fixed 0 (tr_celsius ?h)),
        (''max_temp_source'', or_str (tr_label ?h) (tr_chip ?h)),
        (''sensors'', show_int (int (length (filter plausible ts))))], dr_skip_code = []\<rparr>"
    by (simp add: check_thermal_def Cons Let_def)
  show ?thesis unfolding Let_def if_P [OF h'(3)]
    by (rule bexI [OF _ h'(1)]) (simp add: r h' m')
qed

theorem check_thermal_hottest_witness:
  "dr_status (check_thermal (Some [\<lparr>tr_chip = ''coretemp'', tr_label = None, tr_celsius = 96\<rparr>,
     \<lparr>tr_chip = ''nvme'', tr_label = None, tr_celsius = 127\<rparr>])) = Critical"
  using check_thermal_hottest [of "[\<lparr>tr_chip = ''coretemp'', tr_label = None, tr_celsius = 96\<rparr>,
     \<lparr>tr_chip = ''nvme'', tr_label = None, tr_celsius = 127\<rparr>]"]
  by (auto simp: Let_def plausible_def diag_consts thermal_status_def split: if_splits)

text \<open>C15: The disk check reports the fullest real mount and the worst of the verdicts that integer
  arithmetic gives on each (critical under one twentieth free, low under one tenth): up to a
  pebibyte the binary64 percentages never misjudge a mount.\<close>

theorem check_disk_space_exact:
  assumes "real_mounts us \<noteq> []"
    and "\<forall>u\<in>set us. du_total_bytes u \<le> 2 ^ 50 \<and> 0 \<le> du_free_bytes u"
  shows "dr_status (check_disk_space (Some us)) =
      Max (insert StatusOK (exact_mount_verdict ` set (real_mounts us))) \<and>
    (\<exists>u\<in>set (real_mounts us). (\<forall>v\<in>set (real_mounts us). free_pct u \<le> free_pct v) \<and>
       metric_values ''min_free_mount'' (dr_metrics (check_disk_space (Some us))) = [du_mountpoint u])"
proof -
  from assms(1) have "us \<noteq> []" by (auto simp: real_mounts_def)
  then show ?thesis
  proof (rule check_disk_space_cases)
    fix s ms p m
    assume f: "foldl disk_step (StatusOK, [], None) us = (s, ms, Some (p, m))"
      and c: "check_disk_space (Some us) =
         \<lparr>dr_check_id = ''disk-space'', dr_status = s, dr_confidence = ConfHigh,
          dr_metrics = ms @ [(''min_free_pct'', fmt_fixed 1 p), (''min_free_mount'', m)],
          dr_skip_code = []\<rparr>"
      and s: "s = foldl max StatusOK (List.map mount_verdict (real_mounts us))"
      and fu: "fullest_ok us (Some (p, m))"
    have ex: "\<forall>u\<in>set (real_mounts us). mount_verdict u = exact_mount_verdict u"
      using assms(2) by (auto simp: real_mounts_def intro!: mount_verdict_exact)
    then have "s = Max (insert StatusOK (exact_mount_verdict ` set (real_mounts us)))"
      by (simp add: s foldl_max_Max cong: image_cong)
    moreover have "metric_values ''min_free_mount'' ms = []"
      using disk_fold_mount [of "(StatusOK, [], None)" us] f by simp
    moreover obtain u where "u \<in> set (real_mounts us)" "p = free_pct u" "m = du_mountpoint u"
      "\<forall>v\<in>set (real_mounts us). free_pct u \<le> free_pct v"
      using fu by (auto simp: fullest_ok_def)
    ultimately show ?thesis by (auto simp: c)
  qed (use assms(1) in simp)
qed

theorem check_disk_space_exact_witness:
  "dr_status (check_disk_space (Some [\<lparr>du_mountpoint = ''/'', du_total_bytes = 100, du_free_bytes = 50\<rparr>,
     \<lparr>du_mountpoint = ''/boot'', du_total_bytes = 1000, du_free_bytes = 99\<rparr>])) = Warning"
  using check_disk_space_exact [of "[\<lparr>du_mountpoint = ''/'', du_total_bytes = 100, du_free_bytes = 50\<rparr>,
     \<lparr>du_mountpoint = ''/boot'', du_total_bytes = 1000, du_free_bytes = 99\<rparr>]"]
  by (simp add: real_mounts_def exact_mount_verdict_def)

text \<open>C18: The score looks at the measured checks only. Without one there is no score; otherwise it is the
  rounded share of points, full for an OK and half for a warning, among the measured checks,
  skipped ones counting neither way: the float computation returns exactly the rounded
  quotient. For fewer than a hundred checks it is 100 only if every measured one is OK, and it
  does not fall when the same checks are measured and none gets worse.\<close>

theorem score_meaning:
  assumes "length rs < 100"
    and "list_all2 (\<lambda>r s. (dr_status s = Skipped \<longleftrightarrow> dr_status r = Skipped) \<and>
      severity (dr_status s) \<le> severity (dr_status r)) rs ss"
  shows "(let measured = filter (\<lambda>r. dr_status r \<noteq> Skipped) rs;
              ok = length (filter (\<lambda>r. dr_status r = StatusOK) rs);
              warning = length (filter (\<lambda>r. dr_status r = Warning) rs)
     in score rs = (if measured = [] then None
          else Some (round_half_even ((100 * of_nat ok + 50 * of_nat warning) / of_nat (length measured))),
          int (length measured), int (length rs)) \<and>
        (measured \<noteq> [] \<longrightarrow>
          (fst (score rs) = Some 100 \<longleftrightarrow> (\<forall>r\<in>set measured. dr_status r = StatusOK)) \<and>
          (\<exists>x y. fst (score rs) = Some x \<and> fst (score ss) = Some y \<and> x \<le> y)))"
proof -
  let ?m = "filter is_measured rs" and ?m' = "filter is_measured ss"
  let ?ok = "length (filter (\<lambda>r. dr_status r = StatusOK) rs)" and ?w = "length (filter (\<lambda>r. dr_status r = Warning) rs)"
  let ?q = "of_int (50 * half_total ?m) / of_int (int (length ?m)) :: rat"
  have m: "filter (\<lambda>r. dr_status r \<noteq> Skipped) rs = ?m" by (rule filter_cong) (simp_all add: is_measured_def)
  have len: "length ss = length rs" using assms(2) by (simp add: list_all2_lengthD)
  have small: "int (length rs) \<le> 2 ^ 40" "int (length ss) \<le> 2 ^ 40" using assms(1) len by simp_all
  have q: "?q = (100 * of_nat ?ok + 50 * of_nat ?w) / of_nat (length ?m)"
    by (simp add: half_total_counts)
  show ?thesis
  proof (cases "?m = []")
    case True
    then show ?thesis unfolding Let_def m by (simp add: score_def)
  next
    case False
    note eq = score_eq [OF False small(1)]
    have "length ?m < 100" using length_filter_le [of is_measured rs] assms(1) by linarith
    then have full: "round_half_even ?q = 100 \<longleftrightarrow> (\<forall>r\<in>set ?m. dr_status r = StatusOK)"
      using False by (intro score_full_iff) simp_all
    note mono = half_total_measured_mono [OF assms(2)]
    have False': "?m' \<noteq> []" using False mono(2) by (metis length_0_conv)
    have "(of_int (50 * half_total ?m) :: rat) \<le> of_int (50 * half_total ?m')"
      using mono(1) by (simp only: of_int_le_iff)
    then have "round_half_even ?q \<le>
        round_half_even (of_int (50 * half_total ?m') / of_int (int (length ?m')) :: rat)"
      unfolding mono(2) by (intro round_half_even_mono divide_right_mono) simp_all
    then have le: "\<exists>x y. fst (score rs) = Some x \<and> fst (score ss) = Some y \<and> x \<le> y"
      using eq score_eq [OF False' small(2)] by simp
    have "fst (score rs) = Some 100 \<longleftrightarrow> (\<forall>r\<in>set ?m. dr_status r = StatusOK)"
      unfolding eq fst_conv option.inject by (rule full)
    moreover have "score rs = (Some (round_half_even ((100 * of_nat ?ok + 50 * of_nat ?w) / of_nat (length ?m))),
        int (length ?m), int (length rs))"
      unfolding eq q ..
    ultimately show ?thesis unfolding Let_def m using False le by (simp only: if_False simp_thms)
  qed
qed

theorem score_meaning_witness:
  "score [skipped ''storage-health'' ''not-requested'', skipped ''thermal'' []\<lparr>dr_status := Warning\<rparr>] = (Some 50, 1, 2)"
  using score_meaning [of "[skipped ''storage-health'' ''not-requested'', skipped ''thermal'' []\<lparr>dr_status := Warning\<rparr>]"
      "[skipped ''storage-health'' ''not-requested'', skipped ''thermal'' []\<lparr>dr_status := StatusOK\<rparr>]"]
    round_half_even_int [of 50]
  by (simp add: Let_def)

end
