(* ===== verification/Sysfs.thy ===== *)
theory Sysfs
  imports Files Diagnostics
begin

text \<open>
  The providers over sysfs: \<open>providers/dmi.py\<close>, \<open>providers/thinkpad_acpi.py\<close>,
  \<open>providers/battery_sysfs.py\<close> and \<open>providers/hwmon.py\<close>. Each read is a function of the file
  system, made an operation of its port by \<open>io_reads\<close>; the interpretations show which of them
  keep the contract of a port, and the battery provider where it does not.
\<close>

section \<open>DMI identity\<close>

definition dmi_dir :: path where
  "dmi_dir = [''sys'', ''class'', ''dmi'', ''id'']"

definition dir_availability :: "path \<Rightarrow> 'x fs_scheme \<Rightarrow> availability" where
  "dir_availability p w = (if fs_is_dir w p then AvailOK else UnsupportedHardware)"

definition dmi_availability :: "'x fs_scheme \<Rightarrow> availability" where
  "dmi_availability w = dir_availability dmi_dir w"

definition read_identity :: "('x fs_scheme, system_identity) io" where
  "read_identity = io_reads (\<lambda>w.
     let field = (\<lambda>n. read_str 4096 w (dmi_dir @ [n])) in
     Inr \<lparr>si_vendor = field ''sys_vendor'', si_product_name = field ''product_name'',
          si_product_family = field ''product_family'', si_product_version = field ''product_version'',
          si_board_name = field ''board_name'', si_bios_version = field ''bios_version'',
          si_bios_date = field ''bios_date'', si_serial = field ''product_serial''\<rparr>)"

interpretation dmi: snapshot_read read_identity
  unfolding read_identity_def by (rule snapshot_reads) (simp add: Let_def)

section \<open>ThinkPad detection\<close>

definition driver_dir :: path where
  "driver_dir = [''sys'', ''devices'', ''platform'', ''thinkpad_acpi'']"

definition thinkpad_availability :: "'x fs_scheme \<Rightarrow> availability" where
  "thinkpad_availability w = dir_availability [''sys''] w"

definition is_thinkpad_name :: "string option \<Rightarrow> bool" where
  "is_thinkpad_name c \<longleftrightarrow> (case c of None \<Rightarrow> False | Some s \<Rightarrow> s \<noteq> [] \<and> contains (lower s) ''thinkpad'')"

definition detect :: "('x fs_scheme, system_identity) io option \<Rightarrow> ('x fs_scheme, thinkpad_info) io" where
  "detect identity = (\<lambda>w.
     let driver_loaded = fs_is_dir w driver_dir;
         result = (\<lambda>vendor_lenovo model.
           \<lparr>ti_is_thinkpad = driver_loaded \<or> (vendor_lenovo \<and> model \<noteq> None),
            ti_dmi_vendor_lenovo = vendor_lenovo, ti_acpi_driver_loaded = driver_loaded, ti_model = model\<rparr>)
     in (case identity of
           None \<Rightarrow> (Inr (result False None), w)
         | Some read \<Rightarrow>
             io_bind read (\<lambda>ident.
               let vendor_lenovo = upper (strip (or_str (si_vendor ident) [])) = ''LENOVO'';
                   model = (case find is_thinkpad_name [si_product_family ident, si_product_version ident] of
                              None \<Rightarrow> None | Some c \<Rightarrow> c)
               in io_return (result vendor_lenovo model)) w))"

interpretation thinkpad: snapshot_read "detect (Some read_identity)"
  by unfold_locales (auto simp: detect_def Let_def io_bind_def read_identity_def)

section \<open>Battery wear\<close>

definition ps_dir :: path where
  "ps_dir = [''sys'', ''class'', ''power_supply'']"

definition read_capacity :: "'x fs_scheme \<Rightarrow> path \<Rightarrow> int option \<times> int option \<times> capacity_unit option" where
  "read_capacity w entry =
     (let energy_full = read_int w (entry @ [''energy_full'']);
          energy_design = read_int w (entry @ [''energy_full_design''])
      in if energy_full \<noteq> None \<or> energy_design \<noteq> None
         then (energy_full, energy_design, Some MicroWattHours)
         else let charge_full = read_int w (entry @ [''charge_full'']);
                  charge_design = read_int w (entry @ [''charge_full_design''])
              in if charge_full \<noteq> None \<or> charge_design \<noteq> None
                 then (charge_full, charge_design, Some MicroAmpHours)
                 else (None, None, None))"

definition read_battery :: "'x fs_scheme \<Rightarrow> string \<Rightarrow> battery_wear option" where
  "read_battery w n =
     (let entry = ps_dir @ [n] in
      if read_str 64 w (entry @ [''type'']) \<noteq> Some ''Battery'' then None
      else case read_capacity w entry of (full, design, unit) \<Rightarrow>
        let cycles = read_int w (entry @ [''cycle_count'']);
            cycles = (case cycles of None \<Rightarrow> None | Some c \<Rightarrow> if c \<le> 0 then None else Some c)
        in Some \<lparr>bw_name = n, bw_capacity_full = full, bw_capacity_design = design,
                 bw_capacity_unit = unit, bw_cycle_count = cycles,
                 bw_model_name = read_str 256 w (entry @ [''model_name'']),
                 bw_manufacturer = read_str 256 w (entry @ [''manufacturer'']),
                 bw_technology = read_str 64 w (entry @ [''technology''])\<rparr>)"

text \<open>\<open>iterdir\<close> raises \<open>OSError\<close> for a directory that may not be listed; nothing here catches it.\<close>

definition sysfs_batteries :: "('x fs_scheme, battery_wear list) io" where
  "sysfs_batteries = io_reads (\<lambda>w.
     if \<not> fs_is_dir w ps_dir then Inr []
     else case fs_list w ps_dir of
            None \<Rightarrow> Inl (PyException ''OSError'' ''power_supply'')
          | Some names \<Rightarrow> Inr (List.map_filter (read_battery w) (sort names)))"

definition battery_availability :: "'x fs_scheme \<Rightarrow> availability" where
  "battery_availability w = dir_availability ps_dir w"

lemma sysfs_batteries_listed:
  "fs_list w ps_dir = Some names \<Longrightarrow> fs_is_dir w ps_dir \<Longrightarrow>
   sysfs_batteries w = (Inr (List.map_filter (read_battery w) (sort names)), w)"
  by (simp add: sysfs_batteries_def)

lemma read_capacity_unit:
  "read_capacity w e = (f, d, u) \<Longrightarrow> (u = None) = (f = None \<and> d = None)"
  by (auto simp: read_capacity_def Let_def split: if_splits)

section \<open>Temperatures\<close>

definition hwmon_dir :: path where
  "hwmon_dir = [''sys'', ''class'', ''hwmon'']"

text \<open>The group of \<open>^temp(\d+)_input$\<close>; the dollar also matches before a final newline.\<close>

definition temp_index :: "string \<Rightarrow> string option" where
  "temp_index entry =
     (let e = (if endswith entry [CHR 0x0A] then butlast entry else entry);
          d = take (length e - 10) (drop 4 e)
      in if startswith e ''temp'' \<and> endswith e ''_input'' \<and> d \<noteq> [] \<and> list_all (\<lambda>c. digit_val c \<noteq> None) d
         then Some d else None)"

definition read_sensor :: "'x fs_scheme \<Rightarrow> path \<Rightarrow> string \<Rightarrow> string \<Rightarrow> temperature_reading option" where
  "read_sensor w chip_dir chip entry =
     (case temp_index entry of
        None \<Rightarrow> None
      | Some i \<Rightarrow>
          (case read_int w (chip_dir @ [entry]) of
             None \<Rightarrow> None
           | Some milli \<Rightarrow>
               Some \<lparr>tr_chip = chip,
                     tr_label = read_str DEFAULT_MAX_BYTES w (chip_dir @ [''temp'' @ i @ ''_label'']),
                     tr_celsius = int_truediv milli 1000\<rparr>))"

definition read_chip :: "'x fs_scheme \<Rightarrow> string \<Rightarrow> temperature_reading list" where
  "read_chip w n =
     (let chip_dir = hwmon_dir @ [n];
          chip = or_str (read_str DEFAULT_MAX_BYTES w (chip_dir @ [''name''])) n
      in case fs_list w chip_dir of
           None \<Rightarrow> []
         | Some entries \<Rightarrow> List.map_filter (read_sensor w chip_dir chip) (sort entries))"

definition hwmon_temperatures :: "('x fs_scheme, temperature_reading list) io" where
  "hwmon_temperatures = io_reads (\<lambda>w.
     Inr (case fs_list w hwmon_dir of
            None \<Rightarrow> []
          | Some chips \<Rightarrow> concat (List.map (read_chip w) (sort chips))))"

definition hwmon_availability :: "'x fs_scheme \<Rightarrow> availability" where
  "hwmon_availability w = dir_availability hwmon_dir w"

interpretation hwmon: snapshot_read hwmon_temperatures
  unfolding hwmon_temperatures_def by (rule snapshot_reads) simp

lemma digit_one: "is_digit (CHR ''1'')"
  unfolding is_digit_def by (intro exI [of _ 1]) code_simp

lemma temp_index_digits:
  assumes "d \<noteq> []" "all_digits d"
  shows "temp_index (''temp'' @ d @ ''_input'') = Some d"
proof -
  let ?e = "''temp'' @ d @ ''_input''"
  have "last ?e = CHR ''t''" by simp
  then have "\<not> endswith ?e [CHR 0x0A]" by (auto simp: endswith_def)
  moreover have "endswith ?e ''_input''" by (simp add: endswith_def)
  moreover have "startswith ?e ''temp''" using startswith_append by blast
  moreover have "list_all (\<lambda>c. digit_val c \<noteq> None) d"
    using assms(2) digit_facts(1) by (auto simp: all_digits_def list_all_iff)
  ultimately show ?thesis using assms(1) by (simp add: temp_index_def Let_def)
qed

lemma short_milli: "95000 \<le> m \<Longrightarrow> m < 119000 \<Longrightarrow> length (show_int m) < 64"
  using show_dec_length [of m 5] by (simp add: show_int_def)

lemma milli_range: "95000 \<le> m \<Longrightarrow> m < 119000 \<Longrightarrow> 95 \<le> int_truediv m 1000 \<and> int_truediv m 1000 < 119"
proof
  assume m: "95000 \<le> m" "m < 119000"
  have "of_int 95 \<le> (of_int m / of_int 1000 :: rat)"
    using m(1) of_int_le_iff [of 95000 m, where 'a = rat] by simp
  from fl_ge_int [OF this] show "95 \<le> int_truediv m 1000" by (simp add: int_truediv_def)
  have "(of_int m / of_int 1000 :: rat) \<le> 118999 / 1000"
    using m(2) of_int_le_iff [of m 118999, where 'a = rat] by simp
  then have "int_truediv m 1000 \<le> fl (118999 / 1000)" unfolding int_truediv_def by (rule fl_mono)
  also have "\<dots> < 119" by code_simp
  finally show "int_truediv m 1000 < 119" .
qed

section \<open>Properties\<close>

text \<open>Every battery the provider reports is well-formed: its two capacities are in one unit, which is
  given exactly when a capacity is, and a cycle count is positive or unknown.\<close>

theorem batteries_wf:
  assumes "sysfs_batteries w = (Inr bs, w')"
  shows "w' = w \<and> (\<forall>b\<in>set bs. (bw_capacity_unit b = None \<longleftrightarrow> bw_capacity_full b = None \<and> bw_capacity_design b = None) \<and>
    (case bw_cycle_count b of None \<Rightarrow> True | Some c \<Rightarrow> 0 < c))"
proof -
  have "w' = w" and bs: "\<And>b. b \<in> set bs \<Longrightarrow> \<exists>n. read_battery w n = Some b"
    using assms by (auto simp: sysfs_batteries_def set_map_filter split: if_splits option.splits)
  moreover have "(bw_capacity_unit b = None \<longleftrightarrow> bw_capacity_full b = None \<and> bw_capacity_design b = None) \<and>
    (case bw_cycle_count b of None \<Rightarrow> True | Some c \<Rightarrow> 0 < c)" if "read_battery w n = Some b" for n b
  proof -
    obtain f d u where c: "read_capacity w (ps_dir @ [n]) = (f, d, u)" by (metis prod_cases3)
    with that read_capacity_unit [OF c] show ?thesis
      by (auto simp: read_battery_def Let_def split: if_splits option.splits)
  qed
  ultimately show ?thesis by blast
qed

theorem batteries_wf_witness:
  "bw_capacity_unit (blank_battery ''BAT0'') = None \<longleftrightarrow>
   bw_capacity_full (blank_battery ''BAT0'') = None \<and> bw_capacity_design (blank_battery ''BAT0'') = None"
proof -
  let ?w = "\<lparr>fs_is_dir = (\<lambda>p. True), fs_exists = (\<lambda>p. True), fs_list = (\<lambda>p. Some [''BAT0'']),
     fs_read = (\<lambda>p. if last p = ''type'' then Some ''Battery'' else None)\<rparr>"
  have "strip ''Battery'' = ''Battery''" "decode_replace ''Battery'' = ''Battery''" by code_simp+
  then have "sysfs_batteries ?w = (Inr [blank_battery ''BAT0''], ?w)"
    by (simp add: sysfs_batteries_def read_battery_def read_capacity_def read_int_def read_str_def
        List.map_filter_simps blank_battery_def Let_def)
  from batteries_wf [OF this] show ?thesis by simp
qed

text \<open>A power-supply directory that may not be listed breaks the contract of the port: the
  \<open>OSError\<close> passes through the provider untranslated and through \<open>run\<close>, which returns no
  report at all, whatever the other sources are.\<close>

theorem battery_oserror_escapes:
  assumes "fs_is_dir w ps_dir" "fs_list w ps_dir = None"
  shows "\<exists>e. \<not> is_lapcare_error e \<and>
    run (Some \<lparr>list_batteries = sysfs_batteries\<rparr>) st fw th du b w = (Inl e, w)"
proof -
  have "sysfs_batteries w = (Inl (PyException ''OSError'' ''power_supply''), w)"
    using assms by (simp add: sysfs_batteries_def)
  then have "or_missing sysfs_batteries w = (Inl (PyException ''OSError'' ''power_supply''), w)"
    by (simp add: or_missing_def io_catch_def io_bind_def)
  then have "run (Some \<lparr>list_batteries = sysfs_batteries\<rparr>) st fw th du b w =
      (Inl (PyException ''OSError'' ''power_supply''), w)"
    by (simp add: run_alt ask_def io_bind_def)
  then show ?thesis by (intro exI [of _ "PyException ''OSError'' ''power_supply''"]) simp
qed

theorem battery_oserror_escapes_witness:
  "\<exists>e. \<not> is_lapcare_error e \<and> run (Some \<lparr>list_batteries = sysfs_batteries\<rparr>) None None None None False
     \<lparr>fs_is_dir = (\<lambda>p. True), fs_exists = (\<lambda>p. True), fs_list = (\<lambda>p. None), fs_read = (\<lambda>p. None)\<rparr> =
     (Inl e, \<lparr>fs_is_dir = (\<lambda>p. True), fs_exists = (\<lambda>p. True), fs_list = (\<lambda>p. None), fs_read = (\<lambda>p. None)\<rparr>)"
  by (rule battery_oserror_escapes) simp_all

text \<open>C22: An overheating sensor is never missed: when any chip has a file \<open>temp<digits>_input\<close> whose
  driver printed at least 95000 and less than 119000 millidegrees, the thermal check on what
  the provider reads is critical.\<close>

theorem overheating_is_critical:
  assumes "fs_list w hwmon_dir = Some chips" "n \<in> set chips"
    and "fs_list w (hwmon_dir @ [n]) = Some entries" "''temp'' @ d @ ''_input'' \<in> set entries"
    and "d \<noteq> []" "all_digits d"
    and "fs_read w (hwmon_dir @ [n, ''temp'' @ d @ ''_input'']) = Some (show_int milli @ [CHR 0x0A])"
    and "95000 \<le> milli" "milli < 119000"
  shows "dr_status (check_thermal (outcome hwmon_temperatures w)) = Critical"
proof -
  let ?e = "''temp'' @ d @ ''_input''"
  have i: "temp_index ?e = Some d" by (rule temp_index_digits [OF assms(5,6)])
  have "length (show_int milli) < 64" using assms(8,9) by (rule short_milli)
  then have "read_int w ((hwmon_dir @ [n]) @ [?e]) = Some milli" using assms(7) by (intro read_int_line) auto
  then have s: "\<exists>t. read_sensor w (hwmon_dir @ [n]) chip ?e = Some t \<and> tr_celsius t = int_truediv milli 1000" for chip
    by (simp only: read_sensor_def i option.case) simp
  obtain t where t: "t \<in> set (read_chip w n)" "tr_celsius t = int_truediv milli 1000"
    using assms(3,4) s unfolding read_chip_def Let_def by (fastforce simp: set_map_filter)
  define ts where "ts = concat (List.map (read_chip w) (sort chips))"
  have o: "outcome hwmon_temperatures w = Some ts"
    using assms(1) by (simp add: outcome_def hwmon_temperatures_def ts_def)
  have "t \<in> set ts" using t(1) assms(2) by (auto simp: ts_def)
  moreover have c: "95 \<le> tr_celsius t" "tr_celsius t < 119" using milli_range [OF assms(8,9)] t(2) by auto
  then have p: "plausible t" by (simp add: plausible_def diag_consts)
  ultimately have f: "t \<in> set (filter plausible ts)" by simp
  then obtain a rest where a: "filter plausible ts = a # rest" by (cases "filter plausible ts") auto
  have "tr_celsius t \<le> tr_celsius (first_max tr_celsius a rest)" using f unfolding a by (rule first_max_ge)
  with c show ?thesis unfolding o
    by (simp add: check_thermal_def a Let_def thermal_status_def diag_consts)
qed

theorem overheating_is_critical_witness:
  "dr_status (check_thermal (outcome hwmon_temperatures
     \<lparr>fs_is_dir = (\<lambda>p. True), fs_exists = (\<lambda>p. True),
      fs_list = (\<lambda>p. if p = hwmon_dir then Some [''hwmon0''] else Some [''name'', ''temp1_input'']),
      fs_read = (\<lambda>p. if last p = ''temp1_input'' then Some (show_int 97000 @ [CHR 0x0A]) else None)\<rparr>)) = Critical"
  by (rule overheating_is_critical [of _ "[''hwmon0'']" "''hwmon0''" "[''name'', ''temp1_input'']" "''1''" 97000])
     (simp_all add: hwmon_dir_def all_digits_def digit_one)

end
