(* ===== verification/OsInfo.thy ===== *)
theory OsInfo
  imports Files
begin

text \<open>
  \<open>providers/os_info.py\<close>: the distribution from \<open>/etc/os-release\<close>, the uptime, and the
  summary of processors and memory. Texts of key and value lines are folds over
  \<open>splitlines\<close>; \<open>parse_os_release\<close> is shown to invert the way such a file is written.
\<close>

definition release_step :: "(string \<times> string) list \<Rightarrow> string \<Rightarrow> (string \<times> string) list" where
  "release_step values raw =
     (let line = strip raw in
      if line = [] \<or> startswith line ''#'' \<or> \<not> contains line ''='' then values
      else case partition_on ''='' line of (key, _, value) \<Rightarrow>
        dict_set (strip key) (strip_chars [CHR 0x22] (strip value)) values)"

definition parse_os_release :: "string \<Rightarrow> (string \<times> string) list" where
  "parse_os_release text = foldl release_step [] (splitlines text)"

definition os_release_path :: path where "os_release_path = [''etc'', ''os-release'']"

definition os_availability :: "'x fs_scheme \<Rightarrow> availability" where
  "os_availability w =
     (if fs_is_dir w [''proc''] \<or> fs_exists w os_release_path then AvailOK else UnsupportedHardware)"

definition read_os :: "('x fs_scheme, os_info) io" where
  "read_os = io_reads (\<lambda>w.
     let release = (case read_str 16384 w os_release_path of
                      None \<Rightarrow> [] | Some t \<Rightarrow> if t = [] then [] else parse_os_release t);
         uptime = (case read_str 128 w [''proc'', ''uptime''] of
                     None \<Rightarrow> None
                   | Some t \<Rightarrow> (case split_ws t of [] \<Rightarrow> None | x # _ \<Rightarrow> py_float x))
     in Inr \<lparr>os_distro_name = dict_get ''PRETTY_NAME'' release,
             os_distro_version = dict_get ''VERSION_ID'' release,
             os_kernel = read_str 256 w [''proc'', ''sys'', ''kernel'', ''osrelease''],
             os_hostname = read_str 256 w [''proc'', ''sys'', ''kernel'', ''hostname''],
             os_uptime_seconds = uptime\<rparr>)"

definition cpu_step :: "int \<times> string option \<Rightarrow> string \<Rightarrow> int \<times> string option" where
  "cpu_step = (\<lambda>(count, model) line.
     if startswith line ''processor'' then (count + 1, model)
     else if model = None \<and> startswith line ''model name''
     then (count, or_none (strip (snd (snd (partition_on '':'' line)))))
     else (count, model))"

text \<open>The loop over \<open>/proc/meminfo\<close> stops at its first \<open>MemTotal:\<close> line.\<close>

fun mem_total :: "string list \<Rightarrow> int option" where
  "mem_total [] = None"
| "mem_total (line # rest) =
     (if startswith line ''MemTotal:''
      then (case split_ws line of _ # x # _ \<Rightarrow> py_int x | _ \<Rightarrow> None)
      else mem_total rest)"

definition read_cpu_mem :: "('x fs_scheme, cpu_mem_summary) io" where
  "read_cpu_mem = io_reads (\<lambda>w.
     let (count, model) =
           (case read_str (1024 * 1024) w [''proc'', ''cpuinfo''] of
              None \<Rightarrow> (0, None)
            | Some t \<Rightarrow> foldl cpu_step (0, None) (splitlines t));
         mem = (case read_str 65536 w [''proc'', ''meminfo''] of
                  None \<Rightarrow> None | Some t \<Rightarrow> mem_total (splitlines t))
     in Inr \<lparr>cm_cpu_model = model, cm_cpu_count = (if count = 0 then None else Some count),
             cm_memory_total_kib = mem\<rparr>)"

interpretation os: snapshot_read read_os
  unfolding read_os_def by (rule snapshot_reads) (simp add: Let_def)

interpretation cpu_mem: snapshot_read read_cpu_mem
  unfolding read_cpu_mem_def by (rule snapshot_reads) (simp add: Let_def split_beta)

section \<open>Reading what is written\<close>

definition os_key :: "string \<Rightarrow> bool" where
  "os_key k \<longleftrightarrow> k \<noteq> [] \<and> (\<forall>c\<in>set k. (97 \<le> (of_char c :: nat) \<and> (of_char c :: nat) \<le> 122) \<or>
     (65 \<le> (of_char c :: nat) \<and> (of_char c :: nat) \<le> 90) \<or> c = CHR ''_'')"

definition os_value :: "string \<Rightarrow> bool" where
  "os_value v \<longleftrightarrow> v \<noteq> [] \<and> hd v \<noteq> CHR 0x22 \<and> last v \<noteq> CHR 0x22 \<and>
     (\<forall>c\<in>set v. 32 \<le> (of_char c :: nat) \<and> (of_char c :: nat) < 127)"

definition os_line :: "string \<times> string \<Rightarrow> string" where
  "os_line kv = fst kv @ ''='' @ [CHR 0x22] @ snd kv @ [CHR 0x22]"

definition os_file :: "(string \<times> string) list \<Rightarrow> string" where
  "os_file kvs = concat (List.map (\<lambda>kv. os_line kv @ [CHR 0x0A]) kvs)"

lemma printable_no_break: "32 \<le> (of_char c :: nat) \<Longrightarrow> (of_char c :: nat) < 127 \<Longrightarrow> \<not> is_linebreak [c]"
  by (auto simp: is_linebreak_def)

lemma graphic_no_space: "32 < (of_char c :: nat) \<Longrightarrow> (of_char c :: nat) < 127 \<Longrightarrow> \<not> is_space [c]"
  by (auto simp: is_space_def unicode_space_def)

lemma os_key_chars:
  assumes "os_key k" "c \<in> set k"
  shows "32 < (of_char c :: nat)" "(of_char c :: nat) < 127" "c \<noteq> CHR ''=''" "c \<noteq> CHR ''#''"
  using assms by (auto simp: os_key_def)

lemma printable_one_line: "\<forall>c\<in>set s. 32 \<le> (of_char c :: nat) \<and> (of_char c :: nat) < 127 \<Longrightarrow> one_line s \<and> ascii s"
proof -
  assume a: "\<forall>c\<in>set s. 32 \<le> (of_char c :: nat) \<and> (of_char c :: nat) < 127"
  then have "ascii s" by (auto simp: ascii_def)
  with a show ?thesis by (auto simp: one_line_def chars_ascii printable_no_break)
qed

lemma os_line_printable:
  "os_key (fst kv) \<Longrightarrow> os_value (snd kv) \<Longrightarrow>
   \<forall>c\<in>set (os_line kv). 32 \<le> (of_char c :: nat) \<and> (of_char c :: nat) < 127"
  using os_key_chars by (fastforce simp: os_line_def os_value_def dest: less_imp_le)

lemma strip_graphic_edges:
  assumes "ascii s" "s \<noteq> []" "32 < (of_char (hd s) :: nat)" "(of_char (hd s) :: nat) < 127"
    "32 < (of_char (last s) :: nat)" "(of_char (last s) :: nat) < 127"
  shows "strip s = s"
  using assms by (intro strip_ascii_solid) (simp_all add: graphic_no_space)

lemma strip_quotes:
  assumes "v \<noteq> []" "hd v \<noteq> CHR 0x22" "last v \<noteq> CHR 0x22"
  shows "strip_chars [CHR 0x22] ([CHR 0x22] @ v @ [CHR 0x22]) = v"
proof -
  obtain a u where a: "v = a # u" using assms(1) by (cases v) auto
  obtain z y where z: "v = y @ [z]" using assms(1) by (metis append_butlast_last_id)
  have 1: "dropWhile (\<lambda>c. c = CHR 0x22) (v @ [CHR 0x22]) = v @ [CHR 0x22]" using assms(2) a by simp
  have 2: "dropWhile (\<lambda>c. c = CHR 0x22) (rev v) = rev v" using assms(3) z by simp
  show ?thesis by (simp add: strip_chars_def rdropWhile_def 1 2)
qed

lemma release_step_line:
  assumes k: "os_key (fst kv)" and v: "os_value (snd kv)"
  shows "release_step d (os_line kv) = dict_set (fst kv) (snd kv) d"
proof -
  let ?k = "fst kv" and ?v = "snd kv" and ?q = "[CHR 0x22] @ snd kv @ [CHR 0x22]"
  have kne: "?k \<noteq> []" using k by (simp add: os_key_def)
  have kh: "hd ?k \<in> set ?k" "last ?k \<in> set ?k" using kne by simp_all
  have line: "os_line kv = ?k @ CHR ''='' # ?q" by (simp add: os_line_def)
  have pr: "one_line (os_line kv) \<and> ascii (os_line kv)"
    by (rule printable_one_line [OF os_line_printable [OF k v]])
  have s: "strip (os_line kv) = os_line kv"
    by (rule strip_graphic_edges) (use pr kne os_key_chars [OF k kh(1)] in \<open>simp_all add: line\<close>)
  have sk: "strip ?k = ?k"
    by (rule strip_graphic_edges)
       (use pr kne os_key_chars [OF k kh(1)] os_key_chars [OF k kh(2)] in \<open>simp_all add: line\<close>)
  have sq: "strip ?q = ?q" by (rule strip_graphic_edges) (use pr in \<open>simp_all add: line\<close>)
  have b: "break_on ''='' (os_line kv) = Some (?k, ?q)"
    unfolding line using break_on_char [of "CHR ''=''" ?k "[]" ?q] os_key_chars(3) [OF k] by auto
  have "\<not> startswith (os_line kv) ''#''"
    using kne os_key_chars(4) [OF k kh(1)] by (cases ?k) (auto simp: line startswith_def)
  moreover have "os_line kv \<noteq> []" by (simp add: line)
  moreover have "contains (os_line kv) ''=''" "partition_on ''='' (os_line kv) = (?k, ''='', ?q)"
    by (simp_all add: contains_def partition_on_def b)
  moreover have "strip_chars [CHR 0x22] ?q = ?v" using v by (intro strip_quotes) (simp_all add: os_value_def)
  ultimately show ?thesis by (simp only: release_step_def s sk sq Let_def prod.case if_False simp_thms)
qed

lemma splitlines_os_file:
  "\<forall>kv\<in>set kvs. os_key (fst kv) \<and> os_value (snd kv) \<Longrightarrow> splitlines (os_file kvs) = List.map os_line kvs"
proof (induction kvs)
  case (Cons kv kvs)
  have one: "one_line (os_line kv)" using printable_one_line os_line_printable Cons.prems by auto
  have "os_file kvs = [] \<or> \<not> is_cont (hd (os_file kvs))"
  proof (cases kvs)
    case (Cons kv2 rest)
    then have k2: "os_key (fst kv2)" using Cons.prems by simp
    then have "fst kv2 \<noteq> []" "hd (fst kv2) \<in> set (fst kv2)" by (auto simp: os_key_def)
    then have "hd (os_file kvs) = hd (fst kv2)" by (simp add: Cons os_file_def os_line_def)
    moreover have "(of_char (hd (fst kv2)) :: nat) < 127"
      using os_key_chars(2) [OF k2 \<open>hd (fst kv2) \<in> set (fst kv2)\<close>] .
    ultimately show ?thesis by (simp add: is_cont_def)
  qed (simp add: os_file_def)
  then have "splitlines (os_line kv @ [CHR 0x0A] @ os_file kvs) = os_line kv # splitlines (os_file kvs)"
    by (rule splitlines_cons_line [OF one])
  then show ?case using Cons by (simp add: os_file_def)
qed (simp add: os_file_def splitlines_def)

section \<open>Properties\<close>

text \<open>\<open>_parse_os_release\<close> inverts the format of the file: from lines \<open>KEY="value"\<close> it reads back
  the keys with their values, a repeated key with its last one.\<close>

theorem parse_os_release_roundtrip:
  assumes "\<forall>kv\<in>set kvs. os_key (fst kv) \<and> os_value (snd kv)"
  shows "parse_os_release (os_file kvs) = dict_of kvs"
proof -
  have "foldl release_step d (List.map os_line kvs) = foldl (\<lambda>d (k, v). dict_set k v d) d kvs" for d
    using assms
  proof (induction kvs arbitrary: d)
    case (Cons kv kvs)
    then show ?case using release_step_line [of kv d] by (simp add: split_beta)
  qed simp
  then show ?thesis by (simp add: parse_os_release_def splitlines_os_file [OF assms] dict_of_def)
qed

theorem parse_os_release_roundtrip_witness:
  "dict_get ''NAME'' (parse_os_release (os_file [(''NAME'', ''Ubuntu 24'')])) = Some ''Ubuntu 24''"
  using parse_os_release_roundtrip [of "[(''NAME'', ''Ubuntu 24'')]"]
  by (simp add: os_key_def os_value_def dict_of_def)

end
