(* ===== verification/Json.thy ===== *)
theory Json
  imports PyNum
begin

text \<open>
  The part of Python's \<open>json\<close> module the program uses: \<open>json.dumps(doc, indent=2)\<close> for the
  exported report and \<open>json.loads\<close> for the output of \<open>smartctl --json\<close>. A decoded value is a
  \<open>json\<close>; a dict keeps its insertion order and has distinct keys. The reader takes fuel, and
  \<open>loads\<close> gives it the length of the text, which bounds the nesting; the interpreter's own
  recursion limit is not modelled. The writer escapes every character outside printable
  ASCII, so the reader reads back exactly what was written (\<open>loads_dumps\<close>).
\<close>

datatype json =
    JNull
  | JBool bool
  | JInt int
  | JFloat rat
  | JNonFinite string
  | JStr string
  | JArr "json list"
  | JObj "(string \<times> json) list"

section \<open>Code points\<close>

definition ord :: "char \<Rightarrow> nat" where
  "ord c = of_char c"

definition chr :: "nat \<Rightarrow> char" where
  "chr n = char_of n"

text \<open>\<open>ord\<close> of one code point given by its UTF-8 bytes, and its inverse.\<close>

fun cp_of :: "string \<Rightarrow> nat" where
  "cp_of [a] = ord a"
| "cp_of [a, b] = (ord a mod 32) * 64 + ord b mod 64"
| "cp_of [a, b, c] = (ord a mod 16) * 4096 + (ord b mod 64) * 64 + ord c mod 64"
| "cp_of (a # b # c # d # _) =
     (ord a mod 8) * 262144 + (ord b mod 64) * 4096 + (ord c mod 64) * 64 + ord d mod 64"
| "cp_of [] = 0"

definition utf8_encode :: "nat \<Rightarrow> string" where
  "utf8_encode n =
     (if n < 128 then [chr n]
      else if n < 2048 then [chr (192 + n div 64), chr (128 + n mod 64)]
      else if n < 65536 then
        [chr (224 + n div 4096), chr (128 + n div 64 mod 64), chr (128 + n mod 64)]
      else
        [chr (240 + n div 262144), chr (128 + n div 4096 mod 64), chr (128 + n div 64 mod 64),
         chr (128 + n mod 64)])"

definition hex_digit :: "nat \<Rightarrow> char" where
  "hex_digit d = (if d < 10 then chr (48 + d) else chr (87 + d))"

definition hex_val :: "char \<Rightarrow> nat option" where
  "hex_val c =
     (let n = ord c
      in if 48 \<le> n \<and> n \<le> 57 then Some (n - 48)
         else if 97 \<le> n \<and> n \<le> 102 then Some (n - 87)
         else if 65 \<le> n \<and> n \<le> 70 then Some (n - 55) else None)"

definition hex4 :: "nat \<Rightarrow> string" where
  "hex4 n = [hex_digit (n div 4096 mod 16), hex_digit (n div 256 mod 16),
             hex_digit (n div 16 mod 16), hex_digit (n mod 16)]"

fun read_hex4 :: "string \<Rightarrow> (nat \<times> string) option" where
  "read_hex4 (a # b # c # d # s) =
     (case (hex_val a, hex_val b, hex_val c, hex_val d) of
        (Some x, Some y, Some z, Some w) \<Rightarrow> Some (x * 4096 + y * 256 + z * 16 + w, s)
      | _ \<Rightarrow> None)"
| "read_hex4 _ = None"

section \<open>Writing\<close>

definition DQ :: char where "DQ = CHR 0x22"
definition BS :: char where "BS = CHR 0x5C"

definition u_escape :: "nat \<Rightarrow> string" where
  "u_escape n = [BS, CHR ''u''] @ hex4 n"

definition escape_cp :: "nat \<Rightarrow> string" where
  "escape_cp n =
     (if n = 34 then [BS, DQ]
      else if n = 92 then [BS, BS]
      else if n = 10 then [BS, CHR ''n'']
      else if n = 13 then [BS, CHR ''r'']
      else if n = 9 then [BS, CHR ''t'']
      else if n = 12 then [BS, CHR ''f'']
      else if n = 8 then [BS, CHR ''b'']
      else if 32 \<le> n \<and> n \<le> 126 then [chr n]
      else if n < 65536 then u_escape n
      else u_escape (55296 + (n - 65536) div 1024) @ u_escape (56320 + (n - 65536) mod 1024))"

definition quote :: "string \<Rightarrow> string" where
  "quote s = [DQ] @ concat (List.map (\<lambda>c. escape_cp (cp_of c)) (chars s)) @ [DQ]"

definition newline :: "nat \<Rightarrow> string" where
  "newline n = CHR 0x0A # replicate (2 * n) (CHR '' '')"

fun dumps_at :: "nat \<Rightarrow> json \<Rightarrow> string"
  and dumps_items :: "nat \<Rightarrow> json list \<Rightarrow> string"
  and dumps_members :: "nat \<Rightarrow> (string \<times> json) list \<Rightarrow> string" where
  "dumps_at n JNull = ''null''"
| "dumps_at n (JBool b) = (if b then ''true'' else ''false'')"
| "dumps_at n (JInt i) = show_int i"
| "dumps_at n (JFloat x) = float_repr x"
| "dumps_at n (JNonFinite s) = s"
| "dumps_at n (JStr s) = quote s"
| "dumps_at n (JArr []) = ''[]''"
| "dumps_at n (JArr (v # vs)) =
     ''['' @ newline (Suc n) @ dumps_at (Suc n) v @ dumps_items (Suc n) vs @ newline n @ '']''"
| "dumps_at n (JObj []) = ''{}''"
| "dumps_at n (JObj ((k, v) # kvs)) =
     ''{'' @ newline (Suc n) @ quote k @ '': '' @ dumps_at (Suc n) v @ dumps_members (Suc n) kvs @
     newline n @ ''}''"
| "dumps_items n [] = []"
| "dumps_items n (v # vs) = '','' @ newline n @ dumps_at n v @ dumps_items n vs"
| "dumps_members n [] = []"
| "dumps_members n ((k, v) # kvs) =
     '','' @ newline n @ quote k @ '': '' @ dumps_at n v @ dumps_members n kvs"

definition dumps :: "json \<Rightarrow> string" where
  "dumps v = dumps_at 0 v"

section \<open>Reading\<close>

definition is_json_ws :: "char \<Rightarrow> bool" where
  "is_json_ws c \<longleftrightarrow> c = CHR '' '' \<or> c = CHR 0x09 \<or> c = CHR 0x0A \<or> c = CHR 0x0D"

definition skip_ws :: "string \<Rightarrow> string" where
  "skip_ws s = dropWhile is_json_ws s"

definition simple_escape :: "char \<Rightarrow> char option" where
  "simple_escape c =
     (if c = DQ then Some DQ else if c = BS then Some BS else if c = CHR ''/'' then Some (CHR ''/'')
      else if c = CHR ''b'' then Some (CHR 0x08) else if c = CHR ''f'' then Some (CHR 0x0C)
      else if c = CHR ''n'' then Some (CHR 0x0A) else if c = CHR ''r'' then Some (CHR 0x0D)
      else if c = CHR ''t'' then Some (CHR 0x09) else None)"

text \<open>After \<open>\u\<close>: a code point, a surrogate pair joined; what it encodes to, and the rest.\<close>

definition read_u :: "string \<Rightarrow> (string \<times> string) option" where
  "read_u s =
     (case read_hex4 s of
        None \<Rightarrow> None
      | Some (hi, t) \<Rightarrow>
          (if 55296 \<le> hi \<and> hi < 56320 \<and> take 2 t = [BS, CHR ''u'']
           then (case read_hex4 (drop 2 t) of
                   None \<Rightarrow> None
                 | Some (lo, r) \<Rightarrow>
                     if 56320 \<le> lo \<and> lo < 57344
                     then Some (utf8_encode (65536 + (hi - 55296) * 1024 + (lo - 56320)), r)
                     else Some (utf8_encode hi, t))
           else Some (utf8_encode hi, t)))"

lemma read_hex4_length: "read_hex4 s = Some (n, t) \<Longrightarrow> length t < length s"
  by (cases s rule: read_hex4.cases) (auto split: option.splits)

lemma read_u_length: "read_u s = Some (u, t) \<Longrightarrow> length t < length s"
  by (auto simp: read_u_def dest!: read_hex4_length split: option.splits if_splits)

text \<open>A string body up to its closing quote.\<close>

function scan_string :: "string \<Rightarrow> (string \<times> string) option" where
  "scan_string [] = None"
| "scan_string (c # s) =
     (if c = DQ then Some ([], s)
      else if c = BS then
        (case s of
           [] \<Rightarrow> None
         | e # t \<Rightarrow>
             if e = CHR ''u''
             then (case read_u t of
                     None \<Rightarrow> None
                   | Some (u, r) \<Rightarrow> map_option (apfst (append u)) (scan_string r))
             else (case simple_escape e of
                     None \<Rightarrow> None
                   | Some x \<Rightarrow> map_option (apfst (Cons x)) (scan_string t)))
      else if ord c < 32 then None
      else map_option (apfst (Cons c)) (scan_string s))"
  by pat_completeness auto
termination
  by (relation "measure length") (auto dest: read_u_length)

text \<open>Numbers: an integer part without leading zeros, then a fraction and an exponent.\<close>

definition scan_fraction :: "string \<Rightarrow> string \<times> string" where
  "scan_fraction s =
     (case s of
        c # t \<Rightarrow> (if c = CHR ''.'' \<and> fst (span_digits t) \<noteq> [] then span_digits t else ([], s))
      | [] \<Rightarrow> ([], s))"

text \<open>\<open>float(text)\<close>: correctly rounded, beyond the largest double an infinity.\<close>

definition to_float :: "bool \<Rightarrow> string \<Rightarrow> string \<Rightarrow> int \<Rightarrow> json" where
  "to_float neg ip fp e =
     (let m = the (dec_digits 0 False (ip @ fp));
          x = fl (of_int m * 10 powi (e - int (length fp)))
      in if max_float < x then JNonFinite (if neg then ''-Infinity'' else ''Infinity'')
         else JFloat (if neg then - x else x))"

definition scan_number :: "string \<Rightarrow> (json \<times> string) option" where
  "scan_number s =
     (let (neg, t) = scan_sign [CHR ''-''] s;
          (ds, r) = span_digits t;
          (ip, r) = (case ds of c # _ \<Rightarrow> if c = CHR ''0'' then ([c], tl t) else (ds, r) | [] \<Rightarrow> (ds, r))
      in if ip = [] then None
         else let (fp, r2) = scan_fraction r; (ex, r3) = scan_exponent r2
              in if fp = [] \<and> ex = None
                 then map_option (\<lambda>n. (JInt (if neg then - n else n), r)) (py_dec ip)
                 else Some (to_float neg ip fp (case ex of None \<Rightarrow> 0 | Some e \<Rightarrow> e), r3))"

definition literals :: "(string \<times> json) list" where
  "literals = [(''null'', JNull), (''true'', JBool True), (''false'', JBool False),
     (''NaN'', JNonFinite ''NaN''), (''Infinity'', JNonFinite ''Infinity''),
     (''-Infinity'', JNonFinite ''-Infinity'')]"

definition scan_atom :: "string \<Rightarrow> (json \<times> string) option" where
  "scan_atom s =
     (case find (\<lambda>(l, v). startswith s l) literals of
        Some (l, v) \<Rightarrow> Some (v, drop (length l) s)
      | None \<Rightarrow> scan_number s)"

fun scan_value :: "nat \<Rightarrow> string \<Rightarrow> (json \<times> string) option"
  and scan_items :: "nat \<Rightarrow> json list \<Rightarrow> string \<Rightarrow> (json list \<times> string) option"
  and scan_members :: "nat \<Rightarrow> (string \<times> json) list \<Rightarrow> string \<Rightarrow> ((string \<times> json) list \<times> string) option" where
  "scan_value 0 s = None"
| "scan_value (Suc f) s =
     (case s of
        [] \<Rightarrow> None
      | c # t \<Rightarrow>
          if c = DQ then map_option (apfst JStr) (scan_string t)
          else if c = CHR ''['' then
            (case skip_ws t of
               d # u \<Rightarrow> if d = CHR '']'' then Some (JArr [], u)
                        else map_option (apfst JArr) (scan_items f [] (d # u))
             | [] \<Rightarrow> None)
          else if c = CHR ''{'' then
            (case skip_ws t of
               d # u \<Rightarrow> if d = CHR ''}'' then Some (JObj [], u)
                        else map_option (apfst (JObj \<circ> dict_of)) (scan_members f [] (d # u))
             | [] \<Rightarrow> None)
          else scan_atom (c # t))"
| "scan_items 0 acc s = None"
| "scan_items (Suc f) acc s =
     (case scan_value f s of
        None \<Rightarrow> None
      | Some (v, r) \<Rightarrow>
          (case skip_ws r of
             [] \<Rightarrow> None
           | c # t \<Rightarrow>
               if c = CHR '']'' then Some (acc @ [v], t)
               else if c = CHR '','' then scan_items f (acc @ [v]) (skip_ws t)
               else None))"
| "scan_members 0 acc s = None"
| "scan_members (Suc f) acc s =
     (case s of
        [] \<Rightarrow> None
      | q # s1 \<Rightarrow>
          if q \<noteq> DQ then None
          else case scan_string s1 of
                 None \<Rightarrow> None
               | Some (k, s2) \<Rightarrow>
                   (case skip_ws s2 of
                      [] \<Rightarrow> None
                    | c # s3 \<Rightarrow>
                        if c \<noteq> CHR '':'' then None
                        else case scan_value f (skip_ws s3) of
                               None \<Rightarrow> None
                             | Some (v, r) \<Rightarrow>
                                 (case skip_ws r of
                                    [] \<Rightarrow> None
                                  | d # t \<Rightarrow>
                                      if d = CHR ''}'' then Some (acc @ [(k, v)], t)
                                      else if d = CHR '','' then scan_members f (acc @ [(k, v)]) (skip_ws t)
                                      else None)))"

definition loads_fuel :: "nat \<Rightarrow> string \<Rightarrow> json option" where
  "loads_fuel f s =
     (case scan_value f (skip_ws s) of
        None \<Rightarrow> None
      | Some (v, r) \<Rightarrow> if skip_ws r = [] then Some v else None)"

definition loads :: "string \<Rightarrow> json option" where
  "loads s = loads_fuel (2 * length s + 2) s"

section \<open>Access\<close>

text \<open>\<open>d.get(key)\<close>, None for a missing key or a JSON null alike.\<close>

definition obj_get :: "(string \<times> json) list \<Rightarrow> string \<Rightarrow> json" where
  "obj_get d k = (case dict_get k d of None \<Rightarrow> JNull | Some v \<Rightarrow> v)"

section \<open>The fuel is enough\<close>

lemma length_skip_ws: "length (skip_ws s) \<le> length s"
  by (simp add: skip_ws_def length_dropWhile_le)

lemma skip_ws_Cons: "skip_ws s = c # t \<Longrightarrow> length t < length s"
  using length_skip_ws [of s] by simp

lemma scan_string_length: "scan_string s = Some (u, t) \<Longrightarrow> length t < length s"
proof (induction s arbitrary: u rule: scan_string.induct)
  case (2 c s)
  consider "c = DQ" | e r where "c \<noteq> DQ" "c = BS" "s = e # r" "e = CHR ''u''"
    | e r where "c \<noteq> DQ" "c = BS" "s = e # r" "e \<noteq> CHR ''u''"
    | "c \<noteq> DQ" "c \<noteq> BS"
    using "2.prems" by (cases "c = DQ"; cases "c = BS"; cases s) auto
  then show ?case
  proof cases
    case 1
    then show ?thesis using "2.prems" by simp
  next
    case 2
    then obtain w q v where w: "read_u r = Some (w, q)" "scan_string q = Some (v, t)"
      using "2.prems" by (auto split: option.splits)
    then have "length t < length q" using "2.IH"(1) 2 by metis
    then show ?thesis using read_u_length [OF w(1)] 2 by simp
  next
    case 3
    then obtain x v where "simple_escape e = Some x" "scan_string r = Some (v, t)"
      using "2.prems" by (auto split: option.splits)
    then have "length t < length r" using "2.IH"(2) 3 by metis
    then show ?thesis using 3 by simp
  next
    case 4
    then obtain v where "\<not> ord c < 32" "scan_string s = Some (v, t)"
      using "2.prems" by (auto split: if_splits)
    then have "length t < length s" using "2.IH"(3) 4 by metis
    then show ?thesis by simp
  qed
qed simp

lemma span_digits_length: "length (snd (span_digits s)) + length (fst (span_digits s)) = length s"
  unfolding span_digits_def fst_conv snd_conv
  by (metis add.commute length_append takeWhile_dropWhile_id)

lemma scan_fraction_length: "length (snd (scan_fraction s)) \<le> length s"
  using span_digits_length [of "tl s"]
  by (cases s) (auto simp: scan_fraction_def)

lemma scan_sign_length: "length (snd (scan_sign signs s)) \<le> length s"
  by (simp add: scan_sign_def split: list.split)

lemma span_digits_rest: "length (snd (span_digits s)) \<le> length s"
  using span_digits_length [of s] by linarith

lemma scan_exponent_length: "length (snd (scan_exponent s)) \<le> length s"
proof (cases s)
  case (Cons c t)
  let ?u = "snd (scan_sign [CHR ''-'', CHR ''+''] t)"
  have "length (snd (span_digits ?u)) \<le> length s"
    using span_digits_rest [of ?u] scan_sign_length [of "[CHR ''-'', CHR ''+'']" t] Cons
    by simp
  then show ?thesis
    unfolding scan_exponent_def Cons Let_def split_beta
    by (simp only: list.case split: if_split option.split) simp
qed (simp add: scan_exponent_def)

lemma scan_number_length: "scan_number s = Some (v, t) \<Longrightarrow> length t < length s"
proof -
  assume a: "scan_number s = Some (v, t)"
  define u where "u = snd (scan_sign [CHR ''-''] s)"
  define ds r where "ds = fst (span_digits u)" and "r = snd (span_digits u)"
  define q where "q = (case ds of c # _ \<Rightarrow> if c = CHR ''0'' then ([c], tl u) else (ds, r) | [] \<Rightarrow> (ds, r))"
  have u: "length u \<le> length s" unfolding u_def by (rule scan_sign_length)
  have l: "length r + length ds = length u" unfolding ds_def r_def by (rule span_digits_length)
  have q: "fst q \<noteq> [] \<Longrightarrow> length (snd q) < length u"
    using l by (cases ds) (auto simp: q_def)
  have e: "scan_number s =
     (if fst q = [] then None
      else if fst (scan_fraction (snd q)) = [] \<and> fst (scan_exponent (snd (scan_fraction (snd q)))) = None
      then map_option (\<lambda>n. (JInt (if fst (scan_sign [CHR ''-''] s) then - n else n), snd q)) (py_dec (fst q))
      else Some (to_float (fst (scan_sign [CHR ''-''] s)) (fst q) (fst (scan_fraction (snd q)))
             (case fst (scan_exponent (snd (scan_fraction (snd q)))) of None \<Rightarrow> 0 | Some e \<Rightarrow> e),
           snd (scan_exponent (snd (scan_fraction (snd q))))))"
    unfolding scan_number_def Let_def split_beta u_def [symmetric] ds_def [symmetric] r_def [symmetric]
      q_def [symmetric] ..
  have "t = snd q \<or> t = snd (scan_exponent (snd (scan_fraction (snd q))))" "fst q \<noteq> []"
    using a unfolding e by (auto split: if_splits)
  moreover have "length (snd (scan_exponent (snd (scan_fraction (snd q))))) \<le> length (snd q)"
    by (rule order_trans [OF scan_exponent_length scan_fraction_length])
  ultimately show ?thesis using q u by auto
qed

lemma scan_atom_length: "scan_atom s = Some (v, t) \<Longrightarrow> length t < length s"
proof -
  assume a: "scan_atom s = Some (v, t)"
  show ?thesis
  proof (cases "find (\<lambda>(l, v). startswith s l) literals")
    case None
    with a show ?thesis by (simp add: scan_atom_def scan_number_length)
  next
    case (Some lv)
    obtain l w where lv: "lv = (l, w)" by (cases lv)
    from Some lv have "(l, w) \<in> set literals" "startswith s l"
      by (auto simp: find_Some_iff) (metis nth_mem)
    then have "0 < length l" "length l \<le> length s"
      by (auto simp: literals_def startswith_iff)
    moreover have "t = drop (length l) s" using a Some lv by (simp add: scan_atom_def)
    ultimately show ?thesis by (simp only: length_drop)
  qed
qed

lemma scan_valueE:
  assumes "scan_value (Suc f) s = Some (v, t)"
  obtains (str) u w where "s = DQ # u" "scan_string u = Some (w, t)" "v = JStr w"
  | (arr0) u where "s = CHR ''['' # u" "skip_ws u = CHR '']'' # t" "v = JArr []"
  | (arr) u c w vs where "s = CHR ''['' # u" "skip_ws u = c # w" "c \<noteq> CHR '']''"
      "scan_items f [] (c # w) = Some (vs, t)" "v = JArr vs"
  | (obj0) u where "s = CHR ''{'' # u" "skip_ws u = CHR ''}'' # t" "v = JObj []"
  | (obj) u c w ms where "s = CHR ''{'' # u" "skip_ws u = c # w" "c \<noteq> CHR ''}''"
      "scan_members f [] (c # w) = Some (ms, t)" "v = JObj (dict_of ms)"
  | (atom) c u where "s = c # u" "c \<noteq> DQ" "c \<noteq> CHR ''[''" "c \<noteq> CHR ''{''" "scan_atom s = Some (v, t)"
proof -
  obtain c u where s: "s = c # u" using assms by (cases s) auto
  consider "c = DQ" | "c = CHR ''[''" "c \<noteq> DQ" | "c = CHR ''{''" "c \<noteq> DQ" "c \<noteq> CHR ''[''"
    | "c \<noteq> DQ" "c \<noteq> CHR ''[''" "c \<noteq> CHR ''{''" by blast
  then show thesis
  proof cases
    case 1
    then show thesis using assms s str by auto
  next
    case 2
    then obtain d w where w: "skip_ws u = d # w" using assms s by (cases "skip_ws u") auto
    show thesis
    proof (cases "d = CHR '']''")
      case True
      with 2 w assms s show thesis by (intro arr0) auto
    next
      case False
      with 2 w assms s obtain vs where "scan_items f [] (d # w) = Some (vs, t)" "v = JArr vs" by auto
      with 2 w s False show thesis by (intro arr) auto
    qed
  next
    case 3
    then obtain d w where w: "skip_ws u = d # w" using assms s by (cases "skip_ws u") auto
    show thesis
    proof (cases "d = CHR ''}''")
      case True
      with 3 w assms s show thesis by (intro obj0) auto
    next
      case False
      with 3 w assms s obtain ms where "scan_members f [] (d # w) = Some (ms, t)" "v = JObj (dict_of ms)" by auto
      with 3 w s False show thesis by (intro obj) auto
    qed
  next
    case 4
    with assms s show thesis by (intro atom [OF s]) auto
  qed
qed

lemma scan_itemsE:
  assumes "scan_items (Suc f) acc s = Some (vs, t)"
  obtains (last) v r where "scan_value f s = Some (v, r)" "skip_ws r = CHR '']'' # t" "vs = acc @ [v]"
  | (more) v r u where "scan_value f s = Some (v, r)" "skip_ws r = CHR '','' # u"
      "scan_items f (acc @ [v]) (skip_ws u) = Some (vs, t)"
proof -
  obtain v r where v: "scan_value f s = Some (v, r)" using assms by (cases "scan_value f s") auto
  then obtain c u where c: "skip_ws r = c # u" using assms by (cases "skip_ws r") auto
  show thesis
  proof (cases "c = CHR '']''")
    case True
    with assms v c show thesis by (intro last [OF v]) auto
  next
    case False
    then have "c = CHR '',''" using assms v c by (simp split: if_splits)
    with False assms v c show thesis by (intro more [OF v]) auto
  qed
qed

lemma scan_membersE:
  assumes "scan_members (Suc f) acc s = Some (ms, t)"
  obtains (last) s1 k s2 s3 v r where "s = DQ # s1" "scan_string s1 = Some (k, s2)" "skip_ws s2 = CHR '':'' # s3"
      "scan_value f (skip_ws s3) = Some (v, r)" "skip_ws r = CHR ''}'' # t" "ms = acc @ [(k, v)]"
  | (more) s1 k s2 s3 v r u where "s = DQ # s1" "scan_string s1 = Some (k, s2)" "skip_ws s2 = CHR '':'' # s3"
      "scan_value f (skip_ws s3) = Some (v, r)" "skip_ws r = CHR '','' # u"
      "scan_members f (acc @ [(k, v)]) (skip_ws u) = Some (ms, t)"
proof -
  obtain s1 where s: "s = DQ # s1" using assms by (cases s) (auto split: if_splits)
  obtain k s2 where k: "scan_string s1 = Some (k, s2)" using assms s by (cases "scan_string s1") auto
  obtain c s3 where c: "skip_ws s2 = c # s3" using assms s k by (cases "skip_ws s2") auto
  then have c': "skip_ws s2 = CHR '':'' # s3" using assms s k by (auto split: if_splits)
  obtain v r where v: "scan_value f (skip_ws s3) = Some (v, r)"
    using assms s k c' by (cases "scan_value f (skip_ws s3)") auto
  obtain d u where d: "skip_ws r = d # u" using assms s k c' v by (cases "skip_ws r") auto
  show thesis
  proof (cases "d = CHR ''}''")
    case True
    with assms s k c' v d show thesis by (intro last [OF s k c' v]) auto
  next
    case False
    then have "d = CHR '',''" using assms s k c' v d by (simp split: if_splits)
    with False assms s k c' v d show thesis by (intro more [OF s k c' v]) auto
  qed
qed

lemma scan_length:
  "(scan_value f s = Some (v, t) \<longrightarrow> length t < length s) \<and>
   (scan_items f acc s = Some (vs, t) \<longrightarrow> length t < length s) \<and>
   (scan_members f mem s = Some (ms, t) \<longrightarrow> length t < length s)"
proof (induction f arbitrary: s v t acc vs mem ms)
  case (Suc f)
  have v: "length t < length s" if "scan_value (Suc f) s = Some (v, t)" for s v t
    using that
  proof (cases rule: scan_valueE)
    case atom
    then show ?thesis by (auto dest: scan_atom_length)
  qed (use Suc.IH in \<open>fastforce dest: scan_string_length skip_ws_Cons\<close>)+
  have i: "length t < length s" if "scan_items (Suc f) acc s = Some (vs, t)" for s t
    using that
  proof (cases rule: scan_itemsE)
    case (last w r)
    then show ?thesis using Suc.IH skip_ws_Cons by (meson less_trans)
  next
    case (more w r u)
    then show ?thesis using Suc.IH skip_ws_Cons [of r] length_skip_ws [of u] by (meson le_less_trans less_le_trans less_trans)
  qed
  have m: "length t < length s" if "scan_members (Suc f) mem s = Some (ms, t)" for s t
    using that
  proof (cases rule: scan_membersE)
    case (last s1 k s2 s3 w r)
    have "length t < length r" "length r < length (skip_ws s3)" using last Suc.IH skip_ws_Cons by blast+
    then show ?thesis
      using last(1) scan_string_length [OF last(2)] skip_ws_Cons [OF last(3)] length_skip_ws [of s3] by simp
  next
    case (more s1 k s2 s3 w r u)
    have "length u < length r" "length r < length (skip_ws s3)" "length t < length (skip_ws u)"
      using more Suc.IH skip_ws_Cons by blast+
    then show ?thesis
      using more(1) scan_string_length [OF more(2)] skip_ws_Cons [OF more(3)]
        length_skip_ws [of s3] length_skip_ws [of u] by simp
  qed
  show ?case using v i m by blast
qed simp

lemma g_Suc: "2 * n < g \<Longrightarrow> \<exists>h. g = Suc h \<and> 2 * n \<le> h"
  by (cases g) auto

text \<open>What some fuel reads, every fuel above twice the length reads too.\<close>

lemma scan_enough:
  "(scan_value f s = Some (v, t) \<longrightarrow> (\<forall>g > 2 * length s. scan_value g s = Some (v, t))) \<and>
   (scan_items f acc s = Some (vs, t) \<longrightarrow> (\<forall>g > 2 * length s + 1. scan_items g acc s = Some (vs, t))) \<and>
   (scan_members f mem s = Some (ms, t) \<longrightarrow> (\<forall>g > 2 * length s + 1. scan_members g mem s = Some (ms, t)))"
proof (induction f arbitrary: s v t acc vs mem ms)
  case (Suc f)
  note IHv = Suc.IH [THEN conjunct1, rule_format]
    and IHi = Suc.IH [THEN conjunct2, THEN conjunct1, rule_format]
    and IHm = Suc.IH [THEN conjunct2, THEN conjunct2, rule_format]
  have v: "scan_value g s = Some (v, t)" if a: "scan_value (Suc f) s = Some (v, t)" and g: "2 * length s < g" for s v t g
  proof -
    obtain h where h: "g = Suc h" "2 * length s \<le> h" using g_Suc [OF g] by blast
    from a show ?thesis
    proof (cases rule: scan_valueE)
      case (arr u c w vs)
      have "2 * length (c # w) + 1 < h" using h arr length_skip_ws [of u] by simp
      with IHi [OF arr(4)] have "scan_items h [] (c # w) = Some (vs, t)" by blast
      with h arr show ?thesis by (simp add: DQ_def)
    next
      case (obj u c w ms)
      have "2 * length (c # w) + 1 < h" using h obj length_skip_ws [of u] by simp
      with IHm [OF obj(4)] have "scan_members h [] (c # w) = Some (ms, t)" by blast
      with h obj show ?thesis by (simp add: DQ_def)
    qed (use h in \<open>simp_all add: DQ_def\<close>)
  qed
  have i: "scan_items g acc s = Some (vs, t)" if a: "scan_items (Suc f) acc s = Some (vs, t)"
    and g: "2 * length s + 1 < g" for acc s vs t g
  proof -
    obtain h where h: "g = Suc h" "2 * length s < h" using g by (cases g) auto
    from a show ?thesis
    proof (cases rule: scan_itemsE)
      case (last v r)
      with IHv [OF last(1) h(2)] h show ?thesis by simp
    next
      case (more v r u)
      have "length r < length s" using scan_length [of f s v r] more(1) by blast
      then have "2 * length (skip_ws u) + 1 < h" using h skip_ws_Cons [OF more(2)] length_skip_ws [of u] by simp
      with IHi [OF more(3)] have "scan_items h (acc @ [v]) (skip_ws u) = Some (vs, t)" by blast
      with more IHv [OF more(1) h(2)] h show ?thesis by simp
    qed
  qed
  have m: "scan_members g mem s = Some (ms, t)" if a: "scan_members (Suc f) mem s = Some (ms, t)"
    and g: "2 * length s + 1 < g" for mem s ms t g
  proof -
    obtain h where h: "g = Suc h" "2 * length s < h" using g by (cases g) auto
    from a show ?thesis
    proof (cases rule: scan_membersE)
      case (last s1 k s2 s3 v r)
      have "length (skip_ws s3) < length s"
        using last(1) scan_string_length [OF last(2)] skip_ws_Cons [OF last(3)] length_skip_ws [of s3] by simp
      with h have "2 * length (skip_ws s3) < h" by simp
      with last IHv [OF last(4)] h show ?thesis by simp
    next
      case (more s1 k s2 s3 v r u)
      have l: "length (skip_ws s3) < length s"
        using more(1) scan_string_length [OF more(2)] skip_ws_Cons [OF more(3)] length_skip_ws [of s3] by simp
      with h have v: "2 * length (skip_ws s3) < h" by simp
      have "length r < length (skip_ws s3)" using scan_length [of f "skip_ws s3" v r] more(4) by blast
      then have "2 * length (skip_ws u) + 1 < h" using h l skip_ws_Cons [OF more(5)] length_skip_ws [of u] by simp
      with IHm [OF more(6)] have "scan_members h (mem @ [(k, v)]) (skip_ws u) = Some (ms, t)" by blast
      with more IHv [OF more(4) v] h show ?thesis by simp
    qed
  qed
  show ?case using v i m by blast
qed simp

lemmas scan_value_enough = scan_enough [THEN conjunct1, rule_format]
lemmas scan_items_enough = scan_enough [THEN conjunct2, THEN conjunct1, rule_format]
lemmas scan_members_enough = scan_enough [THEN conjunct2, THEN conjunct2, rule_format]

declare scan_value.simps [simp del] scan_items.simps [simp del] scan_members.simps [simp del]
declare scan_string.simps [simp del]

lemma loads_enough: "loads_fuel f s = Some v \<Longrightarrow> loads s = Some v"
proof -
  assume "loads_fuel f s = Some v"
  then obtain r where r: "scan_value f (skip_ws s) = Some (v, r)" "skip_ws r = []"
    by (auto simp: loads_fuel_def split: option.splits if_splits)
  then have "scan_value (2 * length s + 2) (skip_ws s) = Some (v, r)"
    using scan_enough [THEN conjunct1, rule_format, OF r(1), of "2 * length s + 2"] length_skip_ws [of s] by simp
  with r show ?thesis by (simp add: loads_def loads_fuel_def)
qed

section \<open>Strings are read back as they were written\<close>

lemma chr_ord [simp]: "chr (ord c) = c"
  by (simp add: chr_def ord_def)

lemma ord_chr [simp]: "n < 256 \<Longrightarrow> ord (chr n) = n"
  by (simp add: chr_def ord_def of_char_of)

lemma chr_eq_iff: "n < 256 \<Longrightarrow> chr n = c \<longleftrightarrow> n = ord c"
  by (metis chr_ord ord_chr)

lemma hex_val_digit [simp]: "d < 16 \<Longrightarrow> hex_val (hex_digit d) = Some d"
  by (simp add: hex_val_def hex_digit_def Let_def)

lemma read_hex4_hex4 [simp]: "n < 65536 \<Longrightarrow> read_hex4 (hex4 n @ t) = Some (n, t)"
proof -
  assume n: "n < 65536"
  define a b c where "a = n div 16" and "b = a div 16" and "c = b div 16"
  have d: "n div 256 = b" "n div 4096 = c" by (simp_all add: a_def b_def c_def flip: div_mult2_eq)
  have "n = 16 * a + n mod 16" "a = 16 * b + a mod 16" "b = 16 * c + b mod 16"
    by (simp_all add: a_def b_def c_def)
  moreover have "c < 16" using n by (simp add: a_def b_def c_def flip: div_mult2_eq)
  ultimately show ?thesis by (simp add: hex4_def d flip: a_def)
qed

definition scalar :: "nat \<Rightarrow> bool" where
  "scalar n \<longleftrightarrow> n < 1114112 \<and> \<not> (55296 \<le> n \<and> n < 57344)"

lemma scan_u_escape:
  assumes "n < 65536" "\<not> (55296 \<le> n \<and> n < 56320)"
  shows "scan_string (u_escape n @ t) = map_option (apfst (append (utf8_encode n))) (scan_string t)"
proof -
  have "read_u (hex4 n @ t) = Some (utf8_encode n, t)" using assms by (auto simp: read_u_def)
  then show ?thesis by (simp add: u_escape_def BS_def DQ_def scan_string.simps)
qed

lemma scan_surrogates:
  assumes "65536 \<le> n" "n < 1114112"
  shows "scan_string (u_escape (55296 + (n - 65536) div 1024) @ u_escape (56320 + (n - 65536) mod 1024) @ t) =
    map_option (apfst (append (utf8_encode n))) (scan_string t)"
proof -
  let ?h = "55296 + (n - 65536) div 1024" and ?l = "56320 + (n - 65536) mod 1024"
  have h: "?h < 56320" and l: "?l < 57344" using assms by (auto simp: less_mult_imp_div_less)
  have n: "65536 + (?h - 55296) * 1024 + (?l - 56320) = n"
    using assms div_mult_mod_eq [of "n - 65536" 1024] by simp
  have "read_u (hex4 ?h @ u_escape ?l @ t) = Some (utf8_encode n, t)"
    using h l n by (simp add: read_u_def u_escape_def)
  then show ?thesis by (simp add: u_escape_def [of ?h] BS_def DQ_def scan_string.simps)
qed

lemma scan_simple:
  "simple_escape e = Some x \<Longrightarrow> scan_string (BS # e # t) = map_option (apfst (Cons x)) (scan_string t)"
  by (cases "e = CHR ''u''") (auto simp: scan_string.simps BS_def DQ_def simple_escape_def)

lemma scan_plain:
  "c \<noteq> DQ \<Longrightarrow> c \<noteq> BS \<Longrightarrow> 32 \<le> ord c \<Longrightarrow> scan_string (c # t) = map_option (apfst (Cons c)) (scan_string t)"
  by (simp add: scan_string.simps)

lemma scan_close: "scan_string (DQ # t) = Some ([], t)"
  by (simp add: scan_string.simps)

lemma apfst_Cons: "apfst (Cons x) = apfst (append [x])"
  by (simp add: fun_eq_iff apfst_def map_prod_def)

lemma escape_table:
  "simple_escape DQ = Some (chr 34)" "simple_escape BS = Some (chr 92)"
  "simple_escape (CHR ''n'') = Some (chr 10)" "simple_escape (CHR ''r'') = Some (chr 13)"
  "simple_escape (CHR ''t'') = Some (chr 9)" "simple_escape (CHR ''f'') = Some (chr 12)"
  "simple_escape (CHR ''b'') = Some (chr 8)"
  by code_simp+

lemma scan_escape_cp:
  assumes "scalar n"
  shows "scan_string (escape_cp n @ t) = map_option (apfst (append (utf8_encode n))) (scan_string t)"
proof -
  consider "n \<in> {34, 92, 10, 13, 9, 12, 8}" | "n \<notin> {34, 92, 10, 13, 9, 12, 8}" "32 \<le> n" "n \<le> 126"
    | "n \<notin> {34, 92, 10, 13, 9, 12, 8}" "\<not> (32 \<le> n \<and> n \<le> 126)" "n < 65536"
    | "65536 \<le> n" by fastforce
  then show ?thesis
  proof cases
    case 1
    then have "\<exists>e. simple_escape e = Some (chr n) \<and> escape_cp n = [BS, e]" "utf8_encode n = [chr n]"
      using escape_table by (auto simp: escape_cp_def utf8_encode_def)
    then show ?thesis by (auto simp: scan_simple apfst_Cons)
  next
    case 2
    then have "chr n \<noteq> DQ" "chr n \<noteq> BS" by (auto simp: chr_eq_iff DQ_def BS_def ord_def)
    moreover have "escape_cp n = [chr n]" "utf8_encode n = [chr n]"
      using 2 by (simp_all add: escape_cp_def utf8_encode_def)
    ultimately show ?thesis using 2 by (simp add: scan_plain apfst_Cons)
  next
    case 3
    then have "escape_cp n = u_escape n" by (auto simp: escape_cp_def)
    moreover have "\<not> (55296 \<le> n \<and> n < 56320)" using assms by (auto simp: scalar_def)
    ultimately show ?thesis using 3 scan_u_escape [of n t] by (simp)
  next
    case 4
    then have "escape_cp n = u_escape (55296 + (n - 65536) div 1024) @ u_escape (56320 + (n - 65536) mod 1024)"
      by (simp add: escape_cp_def)
    then show ?thesis using 4 assms scan_surrogates [of n t] by (simp add: scalar_def)
  qed
qed

text \<open>Each code point of a well-formed string is a scalar value that encodes to its bytes.\<close>

lemma offset_mod [simp]: "k mod m = 0 \<Longrightarrow> x < m \<Longrightarrow> (k + x) mod m = (x::nat)"
  by (simp add: mod_add_eq [symmetric] mod_eq_0_iff_dvd)

lemma encode_2: "2 \<le> x \<Longrightarrow> x < 32 \<Longrightarrow> y < 64 \<Longrightarrow>
  cp_of [chr (192 + x), chr (128 + y)] = x * 64 + y \<and>
  utf8_encode (x * 64 + y) = [chr (192 + x), chr (128 + y)]"
  by (auto simp: utf8_encode_def)

lemma encode_3: "x < 16 \<Longrightarrow> y < 64 \<Longrightarrow> z < 64 \<Longrightarrow> 2048 \<le> x * 4096 + y * 64 + z \<Longrightarrow>
  cp_of [chr (224 + x), chr (128 + y), chr (128 + z)] = x * 4096 + y * 64 + z \<and>
  utf8_encode (x * 4096 + y * 64 + z) = [chr (224 + x), chr (128 + y), chr (128 + z)]"
proof -
  assume a: "x < 16" "y < 64" "z < 64" "2048 \<le> x * 4096 + y * 64 + z"
  let ?n = "x * 4096 + y * 64 + z"
  have "?n = (x * 64 + y) * 64 + z" by simp
  moreover from this have "?n mod 64 = z" using a by (metis mod_less mod_mult_self3)
  ultimately have d: "?n div 64 = x * 64 + y" "?n mod 64 = z" using a by simp_all
  have "?n div 4096 = ?n div 64 div 64" by (simp flip: div_mult2_eq)
  then have "?n div 4096 = x" using a d by simp
  with a d show ?thesis by (simp add: utf8_encode_def)
qed

lemma encode_4: "x < 8 \<Longrightarrow> y < 64 \<Longrightarrow> z < 64 \<Longrightarrow> w < 64 \<Longrightarrow> 65536 \<le> x * 262144 + y * 4096 + z * 64 + w \<Longrightarrow>
  cp_of [chr (240 + x), chr (128 + y), chr (128 + z), chr (128 + w)] = x * 262144 + y * 4096 + z * 64 + w \<and>
  utf8_encode (x * 262144 + y * 4096 + z * 64 + w) = [chr (240 + x), chr (128 + y), chr (128 + z), chr (128 + w)]"
proof -
  assume a: "x < 8" "y < 64" "z < 64" "w < 64" "65536 \<le> x * 262144 + y * 4096 + z * 64 + w"
  let ?n = "x * 262144 + y * 4096 + z * 64 + w"
  have "?n = (x * 4096 + y * 64 + z) * 64 + w" by simp
  moreover from this have "?n mod 64 = w" using a by (metis mod_less mod_mult_self3)
  ultimately have d: "?n div 64 = x * 4096 + y * 64 + z" "?n mod 64 = w" using a by simp_all
  have "x * 4096 + y * 64 + z = (x * 64 + y) * 64 + z" by simp
  moreover from this have "(x * 4096 + y * 64 + z) mod 64 = z" using a by (metis mod_less mod_mult_self3)
  ultimately have e: "(x * 4096 + y * 64 + z) div 64 = x * 64 + y" "(x * 4096 + y * 64 + z) mod 64 = z"
    using a by simp_all
  have "?n div 4096 = ?n div 64 div 64" "?n div 262144 = ?n div 64 div 64 div 64" by (simp_all flip: div_mult2_eq)
  then have "?n div 4096 = x * 64 + y" "?n div 262144 = x" using a d e by simp_all
  with a d e show ?thesis by (simp add: utf8_encode_def)
qed

lemma byte_offset: "k \<le> ord c \<Longrightarrow> \<exists>x. ord c = k + x \<and> c = chr (k + x)"
  by (metis chr_ord le_add_diff_inverse)

definition good_chunk :: "string \<Rightarrow> bool" where
  "good_chunk c \<longleftrightarrow> utf8_encode (cp_of c) = c \<and> scalar (cp_of c)"

lemma good_chunk_1: "ord c < 128 \<Longrightarrow> good_chunk [c]"
  by (simp add: good_chunk_def utf8_encode_def scalar_def)

lemma good_chunk_2: "194 \<le> ord a \<Longrightarrow> ord a \<le> 223 \<Longrightarrow> 128 \<le> ord b \<Longrightarrow> ord b \<le> 191 \<Longrightarrow> good_chunk [a, b]"
proof -
  assume r: "194 \<le> ord a" "ord a \<le> 223" "128 \<le> ord b" "ord b \<le> 191"
  obtain x where x: "ord a = 192 + x" "a = chr (192 + x)" using byte_offset [of 192 a] r by auto
  obtain y where y: "ord b = 128 + y" "b = chr (128 + y)" using byte_offset [of 128 b] r by auto
  from r x y have "2 \<le> x" "x < 32" "y < 64" by simp_all
  with encode_2 [of x y] show ?thesis unfolding x(2) y(2) by (simp only: good_chunk_def scalar_def) simp
qed

lemma good_chunk_3:
  "224 \<le> ord a \<Longrightarrow> ord a \<le> 239 \<Longrightarrow> 128 \<le> ord b \<Longrightarrow> ord b \<le> 191 \<Longrightarrow> 128 \<le> ord c \<Longrightarrow> ord c \<le> 191 \<Longrightarrow>
   (ord a = 224 \<Longrightarrow> 160 \<le> ord b) \<Longrightarrow> (ord a = 237 \<Longrightarrow> ord b \<le> 159) \<Longrightarrow> good_chunk [a, b, c]"
proof -
  assume r: "224 \<le> ord a" "ord a \<le> 239" "128 \<le> ord b" "ord b \<le> 191" "128 \<le> ord c" "ord c \<le> 191"
    and lo: "ord a = 224 \<Longrightarrow> 160 \<le> ord b" and sur: "ord a = 237 \<Longrightarrow> ord b \<le> 159"
  obtain x where x: "ord a = 224 + x" "a = chr (224 + x)" using byte_offset [of 224 a] r by auto
  obtain y where y: "ord b = 128 + y" "b = chr (128 + y)" using byte_offset [of 128 b] r by auto
  obtain z where z: "ord c = 128 + z" "c = chr (128 + z)" using byte_offset [of 128 c] r by auto
  have l: "x < 16" "y < 64" "z < 64" using r x y z by simp_all
  have "x = 0 \<Longrightarrow> 32 \<le> y" using lo x y by simp
  then have g: "2048 \<le> x * 4096 + y * 64 + z" by (cases x) auto
  have "x = 13 \<Longrightarrow> y \<le> 31" using sur x y by simp
  then have "scalar (x * 4096 + y * 64 + z)" using l by (cases "x = 13") (auto simp: scalar_def)
  with encode_3 [OF l g] show ?thesis unfolding x(2) y(2) z(2) by (simp only: good_chunk_def) 
qed

lemma good_chunk_4:
  "240 \<le> ord a \<Longrightarrow> ord a \<le> 244 \<Longrightarrow> 128 \<le> ord b \<Longrightarrow> ord b \<le> 191 \<Longrightarrow> 128 \<le> ord c \<Longrightarrow> ord c \<le> 191 \<Longrightarrow>
   128 \<le> ord d \<Longrightarrow> ord d \<le> 191 \<Longrightarrow>
   (ord a = 240 \<Longrightarrow> 144 \<le> ord b) \<Longrightarrow> (ord a = 244 \<Longrightarrow> ord b \<le> 143) \<Longrightarrow> good_chunk [a, b, c, d]"
proof -
  assume r: "240 \<le> ord a" "ord a \<le> 244" "128 \<le> ord b" "ord b \<le> 191" "128 \<le> ord c" "ord c \<le> 191"
    "128 \<le> ord d" "ord d \<le> 191"
    and lo: "ord a = 240 \<Longrightarrow> 144 \<le> ord b" and hi: "ord a = 244 \<Longrightarrow> ord b \<le> 143"
  obtain x where x: "ord a = 240 + x" "a = chr (240 + x)" using byte_offset [of 240 a] r by auto
  obtain y where y: "ord b = 128 + y" "b = chr (128 + y)" using byte_offset [of 128 b] r by auto
  obtain z where z: "ord c = 128 + z" "c = chr (128 + z)" using byte_offset [of 128 c] r by auto
  obtain w where w: "ord d = 128 + w" "d = chr (128 + w)" using byte_offset [of 128 d] r by auto
  have l: "x < 8" "y < 64" "z < 64" "w < 64" using r x y z w by simp_all
  have "x = 0 \<Longrightarrow> 16 \<le> y" using lo x y by simp
  then have g: "65536 \<le> x * 262144 + y * 4096 + z * 64 + w" by (cases x) auto
  have "x \<le> 4" "x = 4 \<Longrightarrow> y \<le> 15" using hi r x y by simp_all
  then have "x * 262144 + y * 4096 + z * 64 + w < 1114112" using l by (cases "x = 4") auto
  with g have "scalar (x * 262144 + y * 4096 + z * 64 + w)" by (simp add: scalar_def)
  with encode_4 [OF l g] show ?thesis unfolding x(2) y(2) z(2) w(2) by (simp only: good_chunk_def)
qed

lemma match_tail_ok1:
  "match_tail [(l, h)] s = (a, r, True) \<Longrightarrow> \<exists>c. a = [c] \<and> s = c # r \<and> l \<le> ord c \<and> ord c \<le> h"
  by (cases s) (auto simp: ord_def split: if_splits)

lemma match_tail_Cons:
  "match_tail ((l, h) # rs) s = (a, r, True) \<Longrightarrow>
   \<exists>c b t. a = c # b \<and> s = c # t \<and> l \<le> ord c \<and> ord c \<le> h \<and> match_tail rs t = (b, r, True)"
  by (cases s) (auto simp: ord_def split: if_splits prod.splits)

lemma valid_hd: "valid_utf8 s \<Longrightarrow> s = [] \<or> \<not> is_cont (hd s)"
  by (cases s) (auto simp: is_cont_def utf8_tail_def split: if_splits)

lemma valid_chunk:
  assumes "utf8_tail (ord c) = Some rs" "match_tail rs cs = (a, r, True)"
  shows "good_chunk (c # a) \<and> (\<forall>x\<in>set a. is_cont x)"
proof -
  consider "rs = []" "ord c < 128" | "rs = [(128, 191)]" "194 \<le> ord c" "ord c \<le> 223"
    | l h where "rs = [(l, h), (128, 191)]" "224 \<le> ord c" "ord c \<le> 239" "128 \<le> l" "h \<le> 191"
        "ord c = 224 \<longrightarrow> l = 160" "ord c = 237 \<longrightarrow> h = 159"
    | l h where "rs = [(l, h), (128, 191), (128, 191)]" "240 \<le> ord c" "ord c \<le> 244" "128 \<le> l" "h \<le> 191"
        "ord c = 240 \<longrightarrow> l = 144" "ord c = 244 \<longrightarrow> h = 143"
    using assms(1) by (auto simp: utf8_tail_def split: if_splits)
  then show ?thesis
  proof cases
    case 1
    with assms show ?thesis by (simp add: good_chunk_1)
  next
    case 2
    then obtain x where "a = [x]" "128 \<le> ord x" "ord x \<le> 191" using match_tail_ok1 assms by metis
    with 2 show ?thesis by (simp add: good_chunk_2 is_cont_def flip: ord_def)
  next
    case (3 l h)
    obtain x b t where x: "a = x # b" "l \<le> ord x" "ord x \<le> h" "match_tail [(128, 191)] t = (b, r, True)"
      using match_tail_Cons assms(2) 3(1) by metis
    then obtain y where "b = [y]" "128 \<le> ord y" "ord y \<le> 191" using match_tail_ok1 by metis
    with 3 x show ?thesis by (auto simp: is_cont_def intro!: good_chunk_3 simp flip: ord_def)
  next
    case (4 l h)
    obtain x b t where x: "a = x # b" "l \<le> ord x" "ord x \<le> h" "match_tail [(128, 191), (128, 191)] t = (b, r, True)"
      using match_tail_Cons assms(2) 4(1) by metis
    then obtain y b2 t2 where y: "b = y # b2" "128 \<le> ord y" "ord y \<le> 191" "match_tail [(128, 191)] t2 = (b2, r, True)"
      using match_tail_Cons by metis
    then obtain z where "b2 = [z]" "128 \<le> ord z" "ord z \<le> 191" using match_tail_ok1 by metis
    with 4 x y show ?thesis by (auto simp: is_cont_def intro!: good_chunk_4 simp flip: ord_def)
  qed
qed

lemma takeWhile_dropWhile_split:
  "\<forall>x\<in>set a. P x \<Longrightarrow> r = [] \<or> \<not> P (hd r) \<Longrightarrow> takeWhile P (a @ r) = a \<and> dropWhile P (a @ r) = r"
  by (cases r) (auto simp: takeWhile_append2 dropWhile_append2)

lemma valid_chars: "valid_utf8 s \<Longrightarrow> \<forall>c\<in>set (chars s). good_chunk c"
proof (induction s rule: valid_utf8.induct)
  case (2 c cs)
  then obtain rs where rs: "utf8_tail (ord c) = Some rs" by (auto simp: ord_def split: option.splits)
  obtain a r ok where "match_tail rs cs = (a, r, ok)" by (metis prod_cases3)
  with "2.prems" rs have m: "match_tail rs cs = (a, r, True)" "valid_utf8 r" by (auto simp: ord_def)
  have cs: "cs = a @ r" using match_tail_append [OF m(1)] .
  have ch: "good_chunk (c # a)" "\<forall>x\<in>set a. is_cont x" using valid_chunk [OF rs m(1)] by auto
  have "takeWhile is_cont cs = a" "dropWhile is_cont cs = r"
    unfolding cs using takeWhile_dropWhile_split [OF ch(2) valid_hd [OF m(2)]] by auto
  moreover have "\<forall>x\<in>set (chars r). good_chunk x" using "2.IH" rs m by (simp add: ord_def)
  ultimately show ?case using ch(1) by simp
qed simp

lemma scan_escaped:
  "\<forall>c\<in>set cs. good_chunk c \<Longrightarrow>
   scan_string (concat (List.map (\<lambda>c. escape_cp (cp_of c)) cs) @ DQ # t) = Some (concat cs, t)"
proof (induction cs)
  case (Cons c cs)
  then show ?case
    by (simp add: scan_escape_cp good_chunk_def)
qed (simp add: scan_close)

lemma scan_quote: "valid_utf8 s \<Longrightarrow> \<exists>b. quote s = DQ # b \<and> (\<forall>t. scan_string (b @ t) = Some (s, t))"
  using scan_escaped [OF valid_chars, of s] by (simp add: quote_def)

section \<open>Integers are read back as they were written\<close>

definition stops :: "string \<Rightarrow> bool" where
  "stops t \<longleftrightarrow> (case t of [] \<Rightarrow> True | c # _ \<Rightarrow> c \<in> {CHR '','', CHR '']'', CHR ''}'', CHR 0x0A})"

lemma stops_nonnumeric:
  "stops (c # t) \<Longrightarrow> digit_val c = None \<and> c \<noteq> CHR ''.'' \<and> c \<noteq> CHR ''e'' \<and> c \<noteq> CHR ''E''"
  by (auto simp: stops_def digit_val_def)

lemma show_dec_hd:
  assumes "0 < n"
  shows "hd (show_dec n) \<noteq> CHR ''0''"
proof -
  have "digit_char d \<noteq> CHR ''0''" if "0 < d" "d < 10" for d
  proof
    assume "digit_char d = CHR ''0''"
    then have "digit_val (digit_char d) = Some 0" by (simp add: digit_val_def)
    with that show False by simp
  qed
  then show ?thesis using assms
  proof (induction n rule: show_dec.induct)
    case (1 n)
    then show ?case by (cases "n < 10") (simp_all add: show_dec.simps [of n])
  qed
qed

lemma span_show_dec:
  assumes "0 \<le> n" "stops t"
  shows "span_digits (show_dec n @ t) = (show_dec n, t)"
proof -
  have "\<forall>c\<in>set (show_dec n). digit_val c \<noteq> None"
    using show_dec_digits [OF assms(1)] digit_facts(1) by (auto simp: all_digits_def)
  moreover have "t = [] \<or> digit_val (hd t) = None" using assms(2) stops_nonnumeric by (cases t) auto
  ultimately show ?thesis
    using takeWhile_dropWhile_split [of "show_dec n" "\<lambda>c. digit_val c \<noteq> None" t] by (simp add: span_digits_def)
qed

lemma literal_first:
  assumes ne: "s \<noteq> []" and hd: "is_digit (hd s) \<or> hd s = CHR ''-'' \<and> tl s \<noteq> [] \<and> is_digit (hd (tl s))"
  shows "find (\<lambda>(l, v). startswith s l) literals = None"
proof -
  have d: "c \<notin> {CHR ''n'', CHR ''t'', CHR ''f'', CHR ''N'', CHR ''I'', CHR ''-''}" if "is_digit c" for c
    using digit_facts(1) [OF that] by (auto simp: digit_val_def)
  obtain c u where s: "s = c # u" using ne by (cases s) auto
  show ?thesis
  proof (cases "c = CHR ''-''")
    case True
    then obtain e v where u: "u = e # v" "is_digit e" using hd d s by (cases u) auto
    with d [of e] True s show ?thesis by (auto simp: find_None_iff literals_def startswith_def)
  next
    case False
    with d [of c] hd s show ?thesis by (auto simp: find_None_iff literals_def startswith_def)
  qed
qed

lemma scan_stop: "stops t \<Longrightarrow> scan_fraction t = ([], t)" "stops t \<Longrightarrow> scan_exponent t = (None, t)"
  using stops_nonnumeric by (cases t; force simp: scan_fraction_def scan_exponent_def)+

definition short_int :: "int \<Rightarrow> bool" where
  "short_int i \<longleftrightarrow> int (length (show_dec \<bar>i\<bar>)) \<le> int_max_str_digits"

lemma scan_show_int:
  assumes "short_int i" "stops t"
  shows "scan_atom (show_int i @ t) = Some (JInt i, t)"
proof -
  define n where "n = \<bar>i\<bar>"
  have n: "0 \<le> n" "i = (if i < 0 then - n else n)" by (auto simp: n_def)
  have s: "show_int i = (if i < 0 then [CHR ''-''] else []) @ show_dec n" by (simp add: show_int_def n_def)
  obtain c u where c: "show_dec n = c # u" "is_digit c" using show_dec_edges(1) [OF n(1)] by (cases "show_dec n") auto
  have "find (\<lambda>(l, v). startswith (show_int i @ t) l) literals = None"
    by (rule literal_first) (use c in \<open>auto simp: s\<close>)
  moreover have "scan_sign [CHR ''-''] (show_int i @ t) = (i < 0, show_dec n @ t)"
    using c digit_facts(4) [OF c(2)] by (auto simp: s scan_sign_def)
  moreover have z: "c = CHR ''0'' \<Longrightarrow> u = []"
    using show_dec_hd [of n] n c by (cases "n = 0") (auto simp: show_dec.simps [of 0])
  moreover have "py_dec (show_dec n) = Some n" using assms(1) n by (intro py_dec_show_dec) (simp_all add: short_int_def n_def)
  ultimately show ?thesis
    using n(2) assms(2) span_show_dec [OF n(1) assms(2)]
    by (cases "c = CHR ''0''") (auto simp: scan_atom_def scan_number_def Let_def c scan_stop)
qed

section \<open>Documents are read back as they were written\<close>

text \<open>
  What \<open>dumps\<close> is given in this program: no floats, dicts with distinct keys, well-formed
  text, and integers below the interpreter's limit on digits.
\<close>

fun writable :: "json \<Rightarrow> bool" where
  "writable JNull = True"
| "writable (JBool b) = True"
| "writable (JInt i) = short_int i"
| "writable (JFloat x) = False"
| "writable (JNonFinite s) = False"
| "writable (JStr s) = valid_utf8 s"
| "writable (JArr vs) = (\<forall>v\<in>set vs. writable v)"
| "writable (JObj kvs) = (distinct (List.map fst kvs) \<and> (\<forall>kv\<in>set kvs. valid_utf8 (fst kv) \<and> writable (snd kv)))"

definition parses :: "string \<Rightarrow> json \<Rightarrow> string \<Rightarrow> bool" where
  "parses s v r \<longleftrightarrow> (\<exists>f. scan_value f s = Some (v, r))"

definition parses_items :: "json list \<Rightarrow> string \<Rightarrow> json list \<Rightarrow> string \<Rightarrow> bool" where
  "parses_items acc s vs r \<longleftrightarrow> (\<exists>f. scan_items f acc s = Some (vs, r))"

definition parses_members :: "(string \<times> json) list \<Rightarrow> string \<Rightarrow> (string \<times> json) list \<Rightarrow> string \<Rightarrow> bool" where
  "parses_members acc s ms r \<longleftrightarrow> (\<exists>f. scan_members f acc s = Some (ms, r))"

lemma parses_enough: "parses s v r \<Longrightarrow> 2 * length s < g \<Longrightarrow> scan_value g s = Some (v, r)"
  unfolding parses_def by (elim exE) (rule scan_value_enough)

lemma parses_items_enough: "parses_items acc s vs r \<Longrightarrow> 2 * length s + 1 < g \<Longrightarrow> scan_items g acc s = Some (vs, r)"
  unfolding parses_items_def by (elim exE) (rule scan_items_enough)

lemma parses_members_enough:
  "parses_members acc s ms r \<Longrightarrow> 2 * length s + 1 < g \<Longrightarrow> scan_members g acc s = Some (ms, r)"
  unfolding parses_members_def by (elim exE) (rule scan_members_enough)

lemma items_last:
  assumes "parses s v r" "skip_ws r = CHR '']'' # t"
  shows "parses_items acc s (acc @ [v]) t"
proof -
  have "scan_value (2 * length s + 1) s = Some (v, r)" by (rule parses_enough [OF assms(1)]) simp
  then have "scan_items (Suc (2 * length s + 1)) acc s = Some (acc @ [v], t)"
    unfolding scan_items.simps(2) using assms(2) by simp
  then show ?thesis unfolding parses_items_def by blast
qed

lemma items_more:
  assumes "parses s v r" "skip_ws r = CHR '','' # u" "parses_items (acc @ [v]) (skip_ws u) vs t"
  shows "parses_items acc s vs t"
proof -
  let ?g = "2 * length s + 2 * length (skip_ws u) + 2"
  have "scan_value ?g s = Some (v, r)" by (rule parses_enough [OF assms(1)]) simp
  moreover have "scan_items ?g (acc @ [v]) (skip_ws u) = Some (vs, t)"
    by (rule parses_items_enough [OF assms(3)]) simp
  ultimately have "scan_items (Suc ?g) acc s = Some (vs, t)"
    unfolding scan_items.simps(2) using assms(2) by simp
  then show ?thesis unfolding parses_items_def by blast
qed

lemma skip_colon: "skip_ws (CHR '':'' # s) = CHR '':'' # s"
  by (simp add: skip_ws_def is_json_ws_def)

lemma members_last:
  assumes "scan_string s1 = Some (k, CHR '':'' # s3)" "parses (skip_ws s3) v r" "skip_ws r = CHR ''}'' # t"
  shows "parses_members acc (DQ # s1) (acc @ [(k, v)]) t"
proof -
  let ?g = "2 * length (skip_ws s3) + 1"
  have "scan_value ?g (skip_ws s3) = Some (v, r)" by (rule parses_enough [OF assms(2)]) simp
  then have "scan_members (Suc ?g) acc (DQ # s1) = Some (acc @ [(k, v)], t)"
    unfolding scan_members.simps(2) using assms(1,3) by (simp add: skip_colon)
  then show ?thesis unfolding parses_members_def by blast
qed

lemma members_more:
  assumes "scan_string s1 = Some (k, CHR '':'' # s3)" "parses (skip_ws s3) v r" "skip_ws r = CHR '','' # u"
    "parses_members (acc @ [(k, v)]) (skip_ws u) ms t"
  shows "parses_members acc (DQ # s1) ms t"
proof -
  let ?g = "2 * length (skip_ws s3) + 2 * length (skip_ws u) + 2"
  have "scan_value ?g (skip_ws s3) = Some (v, r)" by (rule parses_enough [OF assms(2)]) simp
  moreover have "scan_members ?g (acc @ [(k, v)]) (skip_ws u) = Some (ms, t)"
    by (rule parses_members_enough [OF assms(4)]) simp
  ultimately have "scan_members (Suc ?g) acc (DQ # s1) = Some (ms, t)"
    unfolding scan_members.simps(2) using assms(1,3) by (simp add: skip_colon)
  then show ?thesis unfolding parses_members_def by blast
qed

lemma skip_newline: "skip_ws (newline n @ s) = skip_ws s"
proof -
  have "dropWhile is_json_ws (replicate k (CHR '' '') @ s) = dropWhile is_json_ws s" for k
    by (induction k) (simp_all add: is_json_ws_def)
  then show ?thesis by (simp add: skip_ws_def newline_def is_json_ws_def)
qed

lemma skip_solid: "\<not> is_json_ws c \<Longrightarrow> skip_ws (c # s) = c # s"
  by (simp add: skip_ws_def)

text \<open>A written value starts with a character that the reader takes for the start of a value.\<close>

lemma dumps_starts:
  assumes "writable v"
  shows "\<exists>c u. dumps_at n v = c # u \<and> \<not> is_json_ws c \<and> c \<noteq> CHR '']'' \<and> c \<noteq> CHR ''}'' "
proof (cases v)
  case (JInt i)
  obtain c u where c: "show_int i = c # u" "is_digit c \<or> c = CHR ''-''"
    using show_dec_edges(1) [of i] by (cases "i < 0"; cases "show_dec i") (auto simp: show_int_def)
  then have "c = CHR ''-'' \<or> (\<exists>d. digit_val c = Some d)" using digit_facts(1) by auto
  then have "\<not> is_json_ws c \<and> c \<noteq> CHR '']'' \<and> c \<noteq> CHR ''}''"
    by (auto simp: is_json_ws_def digit_val_def)
  with c JInt show ?thesis by simp
next
  case (JArr vs)
  then show ?thesis by (cases vs) (auto simp: is_json_ws_def)
next
  case (JObj kvs)
  then show ?thesis by (cases kvs) (auto simp: is_json_ws_def)
qed (use assms in \<open>auto simp: is_json_ws_def quote_def DQ_def\<close>)

definition reads_back :: "json \<Rightarrow> bool" where
  "reads_back v \<longleftrightarrow> (\<forall>n t. stops t \<longrightarrow> parses (dumps_at n v @ t) v t)"

lemma stops_newline [simp]: "stops (newline n @ t)" "stops (CHR '','' # t)"
  by (simp_all add: stops_def newline_def)

lemma skip_start: "writable v \<Longrightarrow> skip_ws (dumps_at n v @ t) = dumps_at n v @ t"
  using dumps_starts [of v n] by (auto simp: skip_solid)

lemma items_read_back:
  assumes "reads_back v" "\<forall>x\<in>set vs. reads_back x \<and> writable x"
  shows "parses_items acc (dumps_at n v @ dumps_items n vs @ newline m @ CHR '']'' # t) (acc @ v # vs) t"
  using assms
proof (induction vs arbitrary: v acc)
  case Nil
  then have "parses (dumps_at n v @ newline m @ CHR '']'' # t) v (newline m @ CHR '']'' # t)"
    by (simp add: reads_back_def)
  from items_last [OF this] show ?case by (simp add: skip_newline skip_solid is_json_ws_def)
next
  case (Cons x vs)
  let ?tail = "dumps_items n vs @ newline m @ CHR '']'' # t"
  have p: "parses (dumps_at n v @ CHR '','' # newline n @ dumps_at n x @ ?tail) v
      (CHR '','' # newline n @ dumps_at n x @ ?tail)"
    using Cons.prems by (simp add: reads_back_def)
  have s: "skip_ws (CHR '','' # newline n @ dumps_at n x @ ?tail) = CHR '','' # newline n @ dumps_at n x @ ?tail"
    by (simp add: skip_solid is_json_ws_def)
  have "parses_items (acc @ [v]) (dumps_at n x @ ?tail) ((acc @ [v]) @ x # vs) t"
    using Cons.prems by (intro Cons.IH) auto
  then have "parses_items (acc @ [v]) (skip_ws (newline n @ dumps_at n x @ ?tail)) (acc @ v # x # vs) t"
    using Cons.prems by (simp add: skip_newline skip_start)
  from items_more [OF p s this] show ?case by simp
qed

lemma members_read_back:
  assumes "valid_utf8 k" "reads_back v" "writable v"
    "\<forall>kv\<in>set kvs. valid_utf8 (fst kv) \<and> reads_back (snd kv) \<and> writable (snd kv)"
  shows "parses_members acc (quote k @ '': '' @ dumps_at n v @ dumps_members n kvs @ newline m @ CHR ''}'' # t)
    (acc @ (k, v) # kvs) t"
  using assms
proof (induction kvs arbitrary: k v acc)
  case Nil
  obtain b where b: "quote k = DQ # b" "\<And>t. scan_string (b @ t) = Some (k, t)"
    using scan_quote Nil by blast
  have "parses (dumps_at n v @ newline m @ CHR ''}'' # t) v (newline m @ CHR ''}'' # t)"
    using Nil by (simp add: reads_back_def)
  then have p: "parses (skip_ws (CHR '' '' # dumps_at n v @ newline m @ CHR ''}'' # t)) v (newline m @ CHR ''}'' # t)"
    using Nil skip_start [of v n] by (simp add: skip_ws_def is_json_ws_def)
  from members_last [OF b(2) p] show ?case by (simp add: b(1) skip_newline skip_solid is_json_ws_def)
next
  case (Cons kv kvs)
  obtain l x where kv: "kv = (l, x)" by (cases kv)
  let ?tail = "dumps_members n kvs @ newline m @ CHR ''}'' # t"
  let ?next = "quote l @ '': '' @ dumps_at n x @ ?tail"
  obtain b where b: "quote k = DQ # b" "\<And>t. scan_string (b @ t) = Some (k, t)"
    using scan_quote Cons.prems by blast
  have "parses (dumps_at n v @ CHR '','' # newline n @ ?next) v (CHR '','' # newline n @ ?next)"
    using Cons.prems by (simp add: reads_back_def)
  then have p: "parses (skip_ws (CHR '' '' # dumps_at n v @ CHR '','' # newline n @ ?next)) v (CHR '','' # newline n @ ?next)"
    using Cons.prems skip_start [of v n] by (simp add: skip_ws_def is_json_ws_def)
  have s: "skip_ws (CHR '','' # newline n @ ?next) = CHR '','' # newline n @ ?next"
    by (simp add: skip_solid is_json_ws_def)
  have "parses_members (acc @ [(k, v)]) ?next ((acc @ [(k, v)]) @ (l, x) # kvs) t"
    using Cons.prems kv by (intro Cons.IH) auto
  moreover have "skip_ws (newline n @ ?next) = ?next"
    by (simp add: skip_newline quote_def skip_solid is_json_ws_def DQ_def)
  ultimately have "parses_members (acc @ [(k, v)]) (skip_ws (newline n @ ?next)) (acc @ (k, v) # (l, x) # kvs) t"
    by (simp only:) simp
  from members_more [OF b(2) p s this] show ?case by (simp add: b(1) kv)
qed

lemma parses_atomI:
  "c \<noteq> DQ \<Longrightarrow> c \<noteq> CHR ''['' \<Longrightarrow> c \<noteq> CHR ''{'' \<Longrightarrow> scan_atom (c # s) = Some (v, t) \<Longrightarrow> parses (c # s) v t"
  unfolding parses_def by (rule exI [of _ "Suc 0"]) (simp add: scan_value.simps)

lemma parses_arrI:
  "skip_ws s = d # u \<Longrightarrow> d \<noteq> CHR '']'' \<Longrightarrow> parses_items [] (d # u) vs t \<Longrightarrow> parses (CHR ''['' # s) (JArr vs) t"
  unfolding parses_def parses_items_def
  by (elim exE) (rule_tac x = "Suc f" in exI, simp add: scan_value.simps DQ_def)

lemma parses_objI:
  "skip_ws s = d # u \<Longrightarrow> d \<noteq> CHR ''}'' \<Longrightarrow> parses_members [] (d # u) ms t \<Longrightarrow>
   parses (CHR ''{'' # s) (JObj (dict_of ms)) t"
  unfolding parses_def parses_members_def
  by (elim exE) (rule_tac x = "Suc f" in exI, simp add: scan_value.simps DQ_def)

lemma dumps_reads_back: "writable v \<Longrightarrow> reads_back v"
proof (induction v)
  case JNull
  show ?case by (auto simp: reads_back_def scan_atom_def literals_def startswith_def DQ_def intro!: parses_atomI)
next
  case (JBool b)
  show ?case
    by (cases b) (auto simp: reads_back_def scan_atom_def literals_def startswith_def DQ_def intro!: parses_atomI)
next
  case (JInt i)
  have "parses (show_int i @ t) (JInt i) t" if "stops t" for t
  proof -
    obtain c u where c: "show_int i = c # u" "is_digit c \<or> c = CHR ''-''"
      using show_dec_edges(1) [of i] by (cases "i < 0"; cases "show_dec i") (auto simp: show_int_def)
    then have "c = CHR ''-'' \<or> (\<exists>d. digit_val c = Some d)" using digit_facts(1) by auto
    then have "c \<noteq> DQ \<and> c \<noteq> CHR ''['' \<and> c \<noteq> CHR ''{''" by (auto simp: digit_val_def DQ_def)
    then show ?thesis using scan_show_int [of i t] JInt that c by (auto intro!: parses_atomI)
  qed
  then show ?case by (simp add: reads_back_def)
next
  case (JStr s)
  then obtain b where b: "quote s = DQ # b" "\<And>t. scan_string (b @ t) = Some (s, t)"
    using scan_quote by auto
  have "parses (quote s @ t) (JStr s) t" for t
    unfolding parses_def by (rule exI [of _ "Suc 0"]) (simp add: scan_value.simps b)
  then show ?case by (simp add: reads_back_def)
next
  case (JArr vs)
  show ?case
  proof (cases vs)
    case Nil
    have "parses (''[]'' @ t) (JArr []) t" for t
      unfolding parses_def by (rule exI [of _ "Suc 0"]) (simp add: scan_value.simps DQ_def skip_solid is_json_ws_def)
    then show ?thesis by (simp add: reads_back_def Nil)
  next
    case (Cons v ws)
    have "parses (dumps_at n (JArr vs) @ t) (JArr vs) t" for n t
    proof -
      let ?tail = "dumps_items (Suc n) ws @ newline n @ CHR '']'' # t"
      obtain d u where d: "dumps_at (Suc n) v = d # u" "d \<noteq> CHR '']''" using dumps_starts [of v "Suc n"] JArr.prems Cons by auto
      have "parses_items [] (dumps_at (Suc n) v @ ?tail) ([] @ v # ws) t"
        using JArr Cons by (intro items_read_back) auto
      moreover have "skip_ws (newline (Suc n) @ dumps_at (Suc n) v @ ?tail) = d # u @ ?tail"
        using skip_start [of v "Suc n"] JArr.prems Cons d by (simp add: skip_newline)
      ultimately show ?thesis using parses_arrI d Cons by fastforce
    qed
    then show ?thesis by (simp add: reads_back_def)
  qed
next
  case (JObj kvs)
  have all: "\<forall>kv\<in>set kvs. valid_utf8 (fst kv) \<and> reads_back (snd kv) \<and> writable (snd kv)"
    using JObj.prems by (auto intro: JObj.IH)
  show ?case
  proof (cases kvs)
    case Nil
    have "parses (''{}'' @ t) (JObj []) t" for t
      unfolding parses_def by (rule exI [of _ "Suc 0"]) (simp add: scan_value.simps DQ_def skip_solid is_json_ws_def)
    then show ?thesis by (simp add: reads_back_def Nil)
  next
    case (Cons kv ms)
    obtain k v where kv: "kv = (k, v)" by (cases kv)
    have "parses (dumps_at n (JObj kvs) @ t) (JObj (dict_of kvs)) t" for n t
    proof -
      let ?tail = "'': '' @ dumps_at (Suc n) v @ dumps_members (Suc n) ms @ newline n @ CHR ''}'' # t"
      obtain b where b: "quote k = DQ # b" by (simp add: quote_def)
      have "parses_members [] (quote k @ ?tail) ([] @ (k, v) # ms) t"
        using all unfolding Cons kv by (intro members_read_back) auto
      moreover have "skip_ws (newline (Suc n) @ quote k @ ?tail) = DQ # b @ ?tail"
        by (simp add: skip_newline b skip_solid is_json_ws_def DQ_def)
      ultimately show ?thesis using parses_objI [of "newline (Suc n) @ quote k @ ?tail"] b Cons kv
        by (simp add: DQ_def)
    qed
    then show ?thesis using JObj.prems by (simp add: reads_back_def dict_of_distinct)
  qed
qed simp_all

lemma loads_dumps_at:
  assumes "writable v" "t \<in> {[], [CHR 0x0A]}"
  shows "loads (dumps v @ t) = Some v"
proof -
  have "stops t" using assms(2) by (auto simp: stops_def)
  then obtain f where "scan_value f (dumps_at 0 v @ t) = Some (v, t)"
    using dumps_reads_back [OF assms(1)] by (auto simp: reads_back_def parses_def)
  moreover have "skip_ws t = []" using assms(2) by (auto simp: skip_ws_def is_json_ws_def)
  ultimately have "loads_fuel f (dumps v @ t) = Some v"
    by (simp add: loads_fuel_def dumps_def skip_start [OF assms(1)])
  then show ?thesis by (rule loads_enough)
qed

end
