(* ===== verification/DiskUsage.thy ===== *)
theory DiskUsage
  imports Files Json
begin

text \<open>
  \<open>providers/disk_usage.py\<close>: the real mounts of \<open>/proc/mounts\<close> and their sizes. \<open>statvfs\<close> is
  the injected callable, a parameter that returns block size, blocks and available blocks or
  raises. \<open>unicode_escape\<close> is Python's codec of that name, complete but for the table of
  character names, which is the parameter \<open>names\<close>.
\<close>

section \<open>The codec\<close>

fun read_octal :: "nat \<Rightarrow> nat \<Rightarrow> string \<Rightarrow> nat \<times> string" where
  "read_octal 0 acc s = (acc, s)"
| "read_octal (Suc k) acc [] = (acc, [])"
| "read_octal (Suc k) acc (c # s) =
     (if 48 \<le> ord c \<and> ord c \<le> 55 then read_octal k (8 * acc + (ord c - 48)) s else (acc, c # s))"

fun read_hex :: "nat \<Rightarrow> nat \<Rightarrow> string \<Rightarrow> (nat \<times> string) option" where
  "read_hex 0 acc s = Some (acc, s)"
| "read_hex (Suc k) acc [] = None"
| "read_hex (Suc k) acc (c # s) =
     (case hex_val c of None \<Rightarrow> None | Some d \<Rightarrow> read_hex k (16 * acc + d) s)"

definition letter_escapes :: "(char \<times> nat) list" where
  "letter_escapes = [(BS, 92), (CHR 0x27, 39), (CHR 0x22, 34), (CHR ''b'', 8), (CHR ''t'', 9),
     (CHR ''n'', 10), (CHR ''f'', 12), (CHR ''r'', 13), (CHR ''v'', 11), (CHR ''a'', 7)]"

definition hex_widths :: "(char \<times> nat) list" where
  "hex_widths = [(CHR ''x'', 2), (CHR ''u'', 4), (CHR ''U'', 8)]"

text \<open>What follows a backslash: the text it stands for and the rest, None for an error.\<close>

definition read_escape :: "(string \<Rightarrow> nat option) \<Rightarrow> string \<Rightarrow> (string \<times> string) option" where
  "read_escape names s =
     (case s of
        [] \<Rightarrow> None
      | c # t \<Rightarrow>
          if c = CHR 0x0A then Some ([], t)
          else case dict_get c letter_escapes of
                 Some n \<Rightarrow> Some (utf8_encode n, t)
               | None \<Rightarrow>
                   if 48 \<le> ord c \<and> ord c \<le> 55
                   then (case read_octal 3 0 s of (n, r) \<Rightarrow> Some (utf8_encode n, r))
                   else case dict_get c hex_widths of
                          Some k \<Rightarrow>
                            (case read_hex k 0 t of
                               None \<Rightarrow> None
                             | Some (n, r) \<Rightarrow> if n < 1114112 then Some (utf8_encode n, r) else None)
                        | None \<Rightarrow>
                            if c = CHR ''N''
                            then (case t of
                                    [] \<Rightarrow> None
                                  | d # u \<Rightarrow>
                                      if d \<noteq> CHR ''{'' then None
                                      else case break_on ''}'' u of
                                             None \<Rightarrow> None
                                           | Some (nm, r) \<Rightarrow>
                                               map_option (\<lambda>n. (utf8_encode n, r)) (names nm))
                            else Some (BS # utf8_encode (ord c), t))"

lemma read_octal_length: "read_octal k acc s = (n, r) \<Longrightarrow> length r \<le> length s"
  by (induction k acc s arbitrary: n r rule: read_octal.induct) (auto split: if_splits)

lemma read_octal_eats: "48 \<le> ord c \<Longrightarrow> ord c \<le> 55 \<Longrightarrow> read_octal (Suc k) acc (c # s) = (n, r) \<Longrightarrow> length r \<le> length s"
  using read_octal_length by fastforce

lemma read_hex_length: "read_hex k acc s = Some (n, r) \<Longrightarrow> length r \<le> length s"
  by (induction k acc s arbitrary: n r rule: read_hex.induct) (auto split: option.splits intro: le_SucI)

lemma break_on_length: "break_on sep s = Some (a, b) \<Longrightarrow> length b \<le> length s"
  by (drule break_on_Some) simp

lemma read_escape_length: "read_escape names s = Some (u, r) \<Longrightarrow> length r < Suc (length s)"
proof (cases s)
  case (Cons c t)
  assume "read_escape names s = Some (u, r)"
  then show ?thesis
    unfolding read_escape_def Cons list.case
    by (auto split: if_splits option.splits prod.splits list.splits
        dest!: read_hex_length break_on_length read_octal_length)
qed (simp add: read_escape_def)

function unicode_escape :: "(string \<Rightarrow> nat option) \<Rightarrow> bytes \<Rightarrow> string option" where
  "unicode_escape names [] = Some []"
| "unicode_escape names (c # s) =
     (if c \<noteq> BS then map_option (append (utf8_encode (ord c))) (unicode_escape names s)
      else case read_escape names s of
             None \<Rightarrow> None
           | Some (u, r) \<Rightarrow> map_option (append u) (unicode_escape names r))"
  by pat_completeness auto
termination
  by (relation "measure (\<lambda>(_, s). length s)") (auto dest: read_escape_length)

declare unicode_escape.simps(2) [simp del]

definition decode_mount_field :: "(string \<Rightarrow> nat option) \<Rightarrow> string \<Rightarrow> string option" where
  "decode_mount_field names field = unicode_escape names field"

section \<open>The provider\<close>

record statvfs_result =
  f_frsize :: int
  f_blocks :: int
  f_bavail :: int

type_synonym statvfs = "string \<Rightarrow> exn + statvfs_result"

definition usage_of :: "string \<Rightarrow> statvfs_result \<Rightarrow> disk_usage" where
  "usage_of mountpoint stat =
     \<lparr>du_mountpoint = mountpoint, du_total_bytes = f_frsize stat * f_blocks stat,
      du_free_bytes = f_frsize stat * f_bavail stat\<rparr>"

text \<open>A line counts when it has two fields and its source is below \<open>/dev/\<close>.\<close>

definition dev_fields :: "string \<Rightarrow> (string \<times> string) option" where
  "dev_fields line =
     (case split_ws line of
        source # field # _ \<Rightarrow> if startswith source ''/dev/'' then Some (source, field) else None
      | _ \<Rightarrow> None)"

fun usage_lines ::
  "(string \<Rightarrow> nat option) \<Rightarrow> statvfs \<Rightarrow> string list \<Rightarrow> string list \<Rightarrow> exn + disk_usage list" where
  "usage_lines names statvfs seen [] = Inr []"
| "usage_lines names statvfs seen (line # rest) =
     (case dev_fields line of
        None \<Rightarrow> usage_lines names statvfs seen rest
      | Some (source, field) \<Rightarrow>
          (case decode_mount_field names field of
             None \<Rightarrow> Inl (PyException ''UnicodeDecodeError'' field)
           | Some mountpoint \<Rightarrow>
               if source \<in> set seen then usage_lines names statvfs seen rest
               else case statvfs mountpoint of
                      Inl e \<Rightarrow> if is_os_error e then usage_lines names statvfs (source # seen) rest else Inl e
                    | Inr stat \<Rightarrow>
                        (case usage_lines names statvfs (source # seen) rest of
                           Inl e \<Rightarrow> Inl e
                         | Inr us \<Rightarrow> Inr (usage_of mountpoint stat # us))))"

definition mounts_path :: path where "mounts_path = [''proc'', ''mounts'']"

definition disk_usages ::
  "(string \<Rightarrow> nat option) \<Rightarrow> statvfs \<Rightarrow> ('x fs_scheme, disk_usage list) io" where
  "disk_usages names statvfs = io_reads (\<lambda>w.
     case read_str (1024 * 1024) w mounts_path of
       None \<Rightarrow> Inr []
     | Some text \<Rightarrow> usage_lines names statvfs [] (splitlines text))"

definition disk_availability :: "'x fs_scheme \<Rightarrow> availability" where
  "disk_availability w = (if fs_exists w mounts_path then AvailOK else UnsupportedHardware)"

section \<open>One entry per device\<close>

text \<open>The first mount of every source, as \<open>dev_fields\<close> gives them.\<close>

fun first_mounts :: "string list \<Rightarrow> (string \<times> string) list \<Rightarrow> (string \<times> string) list" where
  "first_mounts seen [] = []"
| "first_mounts seen ((source, field) # rest) =
     (if source \<in> set seen then first_mounts seen rest
      else (source, field) # first_mounts (source # seen) rest)"

lemma first_mounts_sources:
  "distinct (List.map fst (first_mounts seen ms)) \<and> set (List.map fst (first_mounts seen ms)) = set (List.map fst ms) - set seen"
  by (induction seen ms rule: first_mounts.induct) auto

definition measure_mount :: "(string \<Rightarrow> nat option) \<Rightarrow> statvfs \<Rightarrow> string \<times> string \<Rightarrow> disk_usage option" where
  "measure_mount names statvfs m =
     (case decode_mount_field names (snd m) of
        None \<Rightarrow> None
      | Some mp \<Rightarrow> (case statvfs mp of Inl _ \<Rightarrow> None | Inr stat \<Rightarrow> Some (usage_of mp stat)))"

lemma usage_lines_eq:
  assumes "\<And>line s f. line \<in> set lines \<Longrightarrow> dev_fields line = Some (s, f) \<Longrightarrow> decode_mount_field names f \<noteq> None"
    and "\<And>mp e. statvfs mp = Inl e \<Longrightarrow> is_os_error e"
  shows "usage_lines names statvfs seen lines =
    Inr (List.map_filter (measure_mount names statvfs) (first_mounts seen (List.map_filter dev_fields lines)))"
  using assms(1)
proof (induction lines arbitrary: seen)
  case (Cons line lines)
  have IH: "usage_lines names statvfs s lines =
      Inr (List.map_filter (measure_mount names statvfs) (first_mounts s (List.map_filter dev_fields lines)))" for s
    by (rule Cons.IH) (use Cons.prems in auto)
  show ?case
  proof (cases "dev_fields line")
    case None
    then show ?thesis by (simp add: IH List.map_filter_simps)
  next
    case (Some sf)
    obtain s f where sf: "sf = (s, f)" by (cases sf)
    obtain mp where mp: "decode_mount_field names f = Some mp" using Cons.prems [of line s f] Some sf by auto
    show ?thesis
    proof (cases "statvfs mp")
      case (Inl e)
      with assms(2) [OF this] show ?thesis
        by (simp add: Some sf mp IH List.map_filter_simps measure_mount_def [of _ _ "(s, f)"])
    next
      case (Inr st)
      then show ?thesis by (simp add: Some sf mp IH List.map_filter_simps measure_mount_def [of _ _ "(s, f)"])
    qed
  qed
qed (simp add: List.map_filter_simps)

section \<open>What the decoding does to a mount point\<close>

text \<open>The escaping the docstring names: space, tab, newline and backslash as octal.\<close>

definition mangle_char :: "char \<Rightarrow> string" where
  "mangle_char c =
     (if c = CHR '' '' then BS # ''040'' else if c = CHR 0x09 then BS # ''011''
      else if c = CHR 0x0A then BS # ''012'' else if c = BS then BS # ''134'' else [c])"

definition mangle :: "string \<Rightarrow> string" where
  "mangle s = concat (List.map mangle_char s)"

lemma octal_escape:
  assumes "[a, b, d] \<in> {''040'', ''011'', ''012'', ''134''}"
  shows "read_escape names (a # b # d # t) =
    Some (utf8_encode (64 * (ord a - 48) + 8 * (ord b - 48) + (ord d - 48)), t)"
proof -
  have o: "48 \<le> ord x \<and> ord x \<le> 55" if "x \<in> {a, b, d}" for x
    using assms that by (auto simp: ord_def)
  have "dict_get a letter_escapes = None" "a \<noteq> CHR 0x0A"
    using assms by (auto simp: letter_escapes_def BS_def)
  with o show ?thesis by (simp add: read_escape_def numeral_3_eq_3 algebra_simps)
qed

lemma unicode_escape_mangled:
  "unicode_escape names (mangle_char c @ t) = map_option (append (utf8_encode (ord c))) (unicode_escape names t)"
proof -
  consider "c = CHR '' ''" | "c = CHR 0x09" | "c = CHR 0x0A" | "c = BS"
    | "c \<noteq> CHR '' ''" "c \<noteq> CHR 0x09" "c \<noteq> CHR 0x0A" "c \<noteq> BS" by blast
  then show ?thesis
    by cases (simp_all add: mangle_char_def unicode_escape.simps(2) octal_escape ord_def BS_def)
qed

lemma decode_mangled: "unicode_escape names (mangle s) = Some (concat (List.map (\<lambda>c. utf8_encode (ord c)) s))"
  by (induction s) (simp_all add: mangle_def unicode_escape_mangled)

lemma latin1_length: "length (utf8_encode (ord c)) = (if ord c < 128 then 1 else 2)"
proof -
  have "ord c < 256" by (simp add: ord_def)
  then show ?thesis by (simp add: utf8_encode_def)
qed

lemma latin1_ascii: "ord c < 128 \<Longrightarrow> utf8_encode (ord c) = [c]"
  by (simp add: utf8_encode_def)

lemma latin1_grows: "length s \<le> length (concat (List.map (\<lambda>c. utf8_encode (ord c)) s))"
  by (induction s) (auto simp: latin1_length)

lemma latin1_id_iff: "concat (List.map (\<lambda>c. utf8_encode (ord c)) s) = s \<longleftrightarrow> ascii s"
proof (induction s)
  case (Cons c s)
  show ?case
  proof (cases "ord c < 128")
    case True
    with Cons show ?thesis by (simp add: latin1_ascii flip: ord_def)
  next
    case False
    have "length (utf8_encode (ord c) @ concat (List.map (\<lambda>c. utf8_encode (ord c)) s)) > length (c # s)"
      using latin1_grows [of s] False by (simp add: latin1_length)
    then have "utf8_encode (ord c) @ concat (List.map (\<lambda>c. utf8_encode (ord c)) s) \<noteq> c # s"
      by (metis less_irrefl)
    with False show ?thesis by (simp flip: ord_def)
  qed
qed simp

section \<open>Properties\<close>

text \<open>Each block device counts once: over mounts whose fields decode and a \<open>statvfs\<close> that raises
  nothing but \<open>OSError\<close>, the provider returns the measurable ones among the first mounts of
  the distinct sources below \<open>/dev/\<close>, in their order, and keeps the contract of its port.\<close>

theorem disk_usages_once:
  assumes "read_str (1024 * 1024) w mounts_path = Some text"
    and "\<And>line s f. line \<in> set (splitlines text) \<Longrightarrow> dev_fields line = Some (s, f) \<Longrightarrow> decode_mount_field names f \<noteq> None"
    and "\<And>mp e. statvfs mp = Inl e \<Longrightarrow> is_os_error e"
  shows "(let ms = first_mounts [] (List.map_filter dev_fields (splitlines text)) in
     disk_usages names statvfs w = (Inr (List.map_filter (measure_mount names statvfs) ms), w) \<and>
     distinct (List.map fst ms) \<and>
     set (List.map fst ms) = set (List.map fst (List.map_filter dev_fields (splitlines text))))"
  using first_mounts_sources [of "[]"] usage_lines_eq [OF assms(2,3)] assms(1)
  by (simp add: Let_def disk_usages_def)

theorem disk_usages_once_witness:
  "disk_usages (\<lambda>n. None) (\<lambda>p. Inr \<lparr>f_frsize = 1, f_blocks = 100, f_bavail = 50\<rparr>)
     \<lparr>fs_is_dir = (\<lambda>p. False), fs_exists = (\<lambda>p. True), fs_list = (\<lambda>p. None),
      fs_read = (\<lambda>p. Some ''/dev/sda1 / ext4'')\<rparr> =
   (Inr [\<lparr>du_mountpoint = ''/'', du_total_bytes = 100, du_free_bytes = 50\<rparr>],
    \<lparr>fs_is_dir = (\<lambda>p. False), fs_exists = (\<lambda>p. True), fs_list = (\<lambda>p. None),
     fs_read = (\<lambda>p. Some ''/dev/sda1 / ext4'')\<rparr>)"
proof -
  let ?w = "\<lparr>fs_is_dir = (\<lambda>p. False), fs_exists = (\<lambda>p. True), fs_list = (\<lambda>p. None),
      fs_read = (\<lambda>p. Some ''/dev/sda1 / ext4'')\<rparr> :: fs"
  have c: "splitlines ''/dev/sda1 / ext4'' = [''/dev/sda1 / ext4'']" "strip ''/dev/sda1 / ext4'' = ''/dev/sda1 / ext4''"
    "decode_replace ''/dev/sda1 / ext4'' = ''/dev/sda1 / ext4''"
    "dev_fields ''/dev/sda1 / ext4'' = Some (''/dev/sda1'', ''/'')" by code_simp+
  have d: "decode_mount_field (\<lambda>n. None) ''/'' = Some ''/''"
    using latin1_ascii [of "CHR ''/''"]
    by (simp add: decode_mount_field_def unicode_escape.simps BS_def ord_def)
  have "read_str (1024 * 1024) ?w mounts_path = Some (strip (decode_replace ''/dev/sda1 / ext4''))"
    by (rule read_str_Some) simp_all
  then have r: "read_str (1024 * 1024) ?w mounts_path = Some ''/dev/sda1 / ext4''" by (simp only: c)
  have "(let ms = first_mounts [] (List.map_filter dev_fields (splitlines ''/dev/sda1 / ext4'')) in
     disk_usages (\<lambda>n. None) (\<lambda>p. Inr \<lparr>f_frsize = 1, f_blocks = 100, f_bavail = 50\<rparr>) ?w =
       (Inr (List.map_filter (measure_mount (\<lambda>n. None) (\<lambda>p. Inr \<lparr>f_frsize = 1, f_blocks = 100, f_bavail = 50\<rparr>)) ms), ?w) \<and>
     distinct (List.map fst ms) \<and>
     set (List.map fst ms) = set (List.map fst (List.map_filter dev_fields (splitlines ''/dev/sda1 / ext4''))))"
    by (rule disk_usages_once [OF r]) (auto simp: c d)
  then show ?thesis by (simp add: Let_def c d List.map_filter_simps measure_mount_def usage_of_def)
qed

text \<open>C39: The mount point that reaches \<open>statvfs\<close> is the real one exactly when its name is ASCII: the
  escapes for space, tab, newline and backslash are undone, and any other character comes
  out as several Latin-1 ones.\<close>

theorem mount_point_roundtrip_iff_ascii:
  "decode_mount_field names (mangle s) = Some s \<longleftrightarrow> ascii s"
  by (simp add: decode_mount_field_def decode_mangled latin1_id_iff)

end
