(* ===== verification/ToolRunner.thy ===== *)
theory ToolRunner
  imports Models
begin

text \<open>
  \<open>platform/subprocess.py\<close>: the one runner of external commands. What the machine would do
  with a command is data: which files are executable and, for a path and its arguments, an
  outcome. The world also keeps the trace of what was spawned and killed, so that \<open>run_tool\<close>
  can be shown to start nothing but whitelisted binaries in the scrubbed environment. The
  contract a provider relies on is the locale \<open>tool_runner\<close>, interpreted on \<open>run_tool\<close>.
\<close>

datatype proc_outcome =
    Exited int bytes bytes
  | Hangs
  | SpawnFails string

datatype proc_event =
    Spawned string "string list" "(string \<times> string) list"
  | Killed string

record procs =
  access_x :: "string \<Rightarrow> bool"
  outcome_of :: "string \<Rightarrow> string list \<Rightarrow> proc_outcome"
  proc_trace :: "proc_event list"

datatype tool_error =
    ToolNotFound string
  | ToolTimeout string rat
  | ToolFailed string int string
  | ToolKeyError string
  | ToolOSError string

definition ALLOWED_TOOLS :: "(string \<times> string list) list" where
  "ALLOWED_TOOLS = [(''lspci'', [''/usr/bin/lspci'']), (''lsusb'', [''/usr/bin/lsusb'']),
     (''pkexec'', [''/usr/bin/pkexec''])]"

definition MAX_OUTPUT_BYTES :: int where
  "MAX_OUTPUT_BYTES = 8 * 1024 * 1024"

definition SCRUBBED_ENV :: "(string \<times> string) list" where
  "SCRUBBED_ENV = [(''PATH'', ''/usr/sbin:/usr/bin:/sbin:/bin''), (''LC_ALL'', ''C.UTF-8'')]"

text \<open>\<open>str(exc)\<close>\<close>

fun tool_error_str :: "tool_error \<Rightarrow> string" where
  "tool_error_str (ToolNotFound tool) = ''tool not installed: '' @ tool"
| "tool_error_str (ToolTimeout tool t) = tool @ '' exceeded '' @ float_repr t @ ''s timeout''"
| "tool_error_str (ToolFailed tool rc _) = tool @ '' exited '' @ show_int rc"
| "tool_error_str (ToolKeyError tool) = CHR 0x27 # tool @ [CHR 0x27]"
| "tool_error_str (ToolOSError msg) = msg"

type_synonym 'w runner = "string \<Rightarrow> string list \<Rightarrow> rat \<Rightarrow> 'w \<Rightarrow> (tool_error + string) \<times> 'w"

definition trace_event :: "proc_event \<Rightarrow> 'x procs_scheme \<Rightarrow> 'x procs_scheme" where
  "trace_event e w = w\<lparr>proc_trace := proc_trace w @ [e]\<rparr>"

definition run_tool :: "'x procs_scheme runner" where
  "run_tool tool args timeout w =
     (case dict_get tool ALLOWED_TOOLS of
        None \<Rightarrow> (Inl (ToolKeyError tool), w)
      | Some candidates \<Rightarrow>
          (case find (access_x w) candidates of
             None \<Rightarrow> (Inl (ToolNotFound tool), w)
           | Some path \<Rightarrow>
               (case outcome_of w path args of
                  SpawnFails msg \<Rightarrow> (Inl (ToolOSError msg), w)
                | Hangs \<Rightarrow>
                    (Inl (ToolTimeout tool timeout),
                     trace_event (Killed path) (trace_event (Spawned path args SCRUBBED_ENV) w))
                | Exited rc out err \<Rightarrow>
                    let w' = trace_event (Spawned path args SCRUBBED_ENV) w in
                    if rc \<noteq> 0 then (Inl (ToolFailed tool rc (pytake 500 (decode_replace err))), w')
                    else if MAX_OUTPUT_BYTES < int (length out)
                    then (Inl (ToolFailed tool 0 (''output exceeded '' @ show_int MAX_OUTPUT_BYTES @ '' bytes'')), w')
                    else (Inr (decode_replace out), w'))))"

section \<open>The contract of a runner\<close>

definition runner_error :: "string \<Rightarrow> rat \<Rightarrow> tool_error \<Rightarrow> bool" where
  "runner_error tool t e \<longleftrightarrow>
     e = ToolNotFound tool \<or> e = ToolTimeout tool t \<or> (\<exists>rc s. e = ToolFailed tool rc s) \<or> (\<exists>m. e = ToolOSError m)"

text \<open>
  A runner fails in the three documented ways, or lets the operating system's refusal to
  start the process through; a tool off the list is a programming error.
\<close>

locale tool_runner =
  fixes runner :: "'w runner"
  assumes documented: "dict_get tool ALLOWED_TOOLS \<noteq> None \<Longrightarrow> runner tool args t w = (Inl e, w') \<Longrightarrow> runner_error tool t e"
    and text_out: "runner tool args t w = (Inr out, w') \<Longrightarrow> valid_utf8 out"
begin

lemma failure_cases:
  assumes "dict_get tool ALLOWED_TOOLS \<noteq> None" "runner tool args t w = (Inl e, w')"
  obtains "e = ToolNotFound tool" | "e = ToolTimeout tool t" | rc s where "e = ToolFailed tool rc s"
    | m where "e = ToolOSError m"
  using documented [OF assms] by (auto simp: runner_error_def)

end

lemma run_tool_documented:
  "dict_get tool ALLOWED_TOOLS \<noteq> None \<Longrightarrow> run_tool tool args t w = (Inl e, w') \<Longrightarrow> runner_error tool t e"
  by (auto simp: run_tool_def runner_error_def Let_def split: option.splits proc_outcome.splits if_splits)

lemma run_tool_text: "run_tool tool args t w = (Inr out, w') \<Longrightarrow> valid_utf8 out"
  by (auto simp: run_tool_def Let_def valid_decode_replace
      split: option.splits proc_outcome.splits if_splits)

interpretation rt: tool_runner run_tool
  by unfold_locales (fact run_tool_documented, fact run_tool_text)

lemma allowed_candidates: "dict_get tool ALLOWED_TOOLS = Some cs \<Longrightarrow> cs = [''/usr/bin/'' @ tool]"
proof -
  assume "dict_get tool ALLOWED_TOOLS = Some cs"
  moreover have "distinct (List.map fst ALLOWED_TOOLS)" by code_simp
  ultimately have "(tool, cs) \<in> set ALLOWED_TOOLS" by (simp add: dict_get_mem)
  moreover have "list_all (\<lambda>(t, cs). cs = [''/usr/bin/'' @ t]) ALLOWED_TOOLS" by code_simp
  ultimately show ?thesis by (auto simp: list_all_iff)
qed

lemma allowed_path: "dict_get tool ALLOWED_TOOLS = Some cs \<Longrightarrow> find P cs = Some p \<Longrightarrow> p = ''/usr/bin/'' @ tool \<and> P p"
  using allowed_candidates [of tool cs] by (simp split: if_splits)

section \<open>Properties\<close>

text \<open>C5: No command can start anything but a whitelisted binary: whatever is asked, the runner spawns
  at most the executable file /usr/bin/<tool> of a listed tool, with exactly the given
  arguments and the scrubbed environment, and a process that outlives its timeout is killed.\<close>

theorem run_tool_whitelisted:
  "\<exists>evs. proc_trace (snd (run_tool tool args t w)) = proc_trace w @ evs \<and>
     (evs = [] \<or>
      (\<exists>path kill. path = ''/usr/bin/'' @ tool \<and> tool \<in> {''lspci'', ''lsusb'', ''pkexec''} \<and> access_x w path \<and>
         evs = Spawned path args SCRUBBED_ENV # kill \<and>
         kill = (if outcome_of w path args = Hangs then [Killed path] else [])))"
proof (cases "dict_get tool ALLOWED_TOOLS")
  case None
  then show ?thesis by (simp add: run_tool_def)
next
  case (Some cs)
  then have tool: "tool \<in> {''lspci'', ''lsusb'', ''pkexec''}" by (auto simp: ALLOWED_TOOLS_def split: if_splits)
  show ?thesis
  proof (cases "find (access_x w) cs")
    case None
    with Some show ?thesis by (simp add: run_tool_def)
  next
    case (Some path)
    have p: "path = ''/usr/bin/'' @ tool" "access_x w path"
      using allowed_path [OF \<open>dict_get tool ALLOWED_TOOLS = Some cs\<close> Some] by auto
    with \<open>dict_get tool ALLOWED_TOOLS = Some cs\<close> Some tool show ?thesis
      by (cases "outcome_of w path args") (auto simp: run_tool_def trace_event_def Let_def)
  qed
qed

text \<open>Success means the tool exited with status 0 and printed no more than the bound; the text is
  its output with broken UTF-8 replaced, and everything else is one of the documented
  errors.\<close>

theorem run_tool_result:
  assumes "dict_get tool ALLOWED_TOOLS \<noteq> None"
  shows "case fst (run_tool tool args t w) of
      Inr out \<Rightarrow> (\<exists>bytes err. outcome_of w (''/usr/bin/'' @ tool) args = Exited 0 bytes err \<and>
         int (length bytes) \<le> MAX_OUTPUT_BYTES \<and> out = decode_replace bytes \<and> valid_utf8 out)
    | Inl e \<Rightarrow> runner_error tool t e"
proof (cases "run_tool tool args t w")
  case (Pair r w')
  show ?thesis
  proof (cases r)
    case (Inl e)
    with Pair run_tool_documented [OF assms] show ?thesis by simp
  next
    case (Inr out)
    obtain cs where cs: "dict_get tool ALLOWED_TOOLS = Some cs" using assms by auto
    obtain path where path: "find (access_x w) cs = Some path" using Pair Inr cs by (auto simp: run_tool_def split: option.splits)
    have p: "path = ''/usr/bin/'' @ tool" using allowed_path [OF cs path] by auto
    from Pair Inr cs path show ?thesis
      by (auto simp: run_tool_def Let_def p valid_decode_replace split: proc_outcome.splits if_splits)
  qed
qed

theorem run_tool_result_witness:
  "fst (run_tool ''lspci'' [''-mm''] 10 \<lparr>access_x = (\<lambda>p. True), outcome_of = (\<lambda>p a. Exited 2 [] ''bad''), proc_trace = []\<rparr>) =
     Inl (ToolFailed ''lspci'' 2 ''bad'') \<and>
   runner_error ''lspci'' 10 (ToolFailed ''lspci'' 2 ''bad'')"
proof -
  let ?w = "\<lparr>access_x = (\<lambda>p. True), outcome_of = (\<lambda>p a. Exited 2 [] ''bad''), proc_trace = []\<rparr>"
  have d: "dict_get ''lspci'' ALLOWED_TOOLS = Some [''/usr/bin/lspci'']" by (simp add: ALLOWED_TOOLS_def)
  have t: "pytake 500 (decode_replace ''bad'') = ''bad''" by code_simp
  have r: "fst (run_tool ''lspci'' [''-mm''] 10 ?w) = Inl (ToolFailed ''lspci'' 2 ''bad'')"
    by (simp only: run_tool_def d) (simp add: t Let_def del: decode_replace.simps)
  with run_tool_result [where tool = "''lspci''" and args = "[''-mm'']" and t = 10 and w = ?w] d show ?thesis by simp
qed

end
