(* ===== verification/Helper.thy ===== *)
theory Helper
  imports Json Models
begin

text \<open>
  \<open>helper/lapcare_helper.py\<close>: the privileged helper. Its machine is data: the block devices,
  the device nodes, whether smartctl is executable and what it does with a command line.
  A run yields an exit status with standard output and error, or the exception nothing
  catches, together with the processes it started: command line, environment, working directory and
  time limit. The decoder of UTF-16 and UTF-32,
  which \<open>json.loads\<close> tries on such bytes, is the parameter \<open>wide\<close>.
\<close>

definition SMARTCTL :: string where "SMARTCTL = ''/usr/sbin/smartctl''"

definition CHILD_ENV :: "(string \<times> string) list" where
  "CHILD_ENV = [(''PATH'', ''/usr/sbin:/usr/bin:/sbin:/bin''), (''LC_ALL'', ''C.UTF-8'')]"

definition TOOL_TIMEOUT_S :: int where "TOOL_TIMEOUT_S = 25"

definition HELPER_MAX_OUTPUT :: int where "HELPER_MAX_OUTPUT = 4 * 1024 * 1024"

datatype smartctl_outcome =
    SmartExited int bytes
  | SmartHangs
  | SmartSpawnFails

record helper_os =
  sys_block :: "string + string list"
  node_is_block :: "string \<Rightarrow> bool option"
  smartctl_x :: bool
  smartctl_run :: "string list \<Rightarrow> smartctl_outcome"

text \<open>One \<open>subprocess.run\<close> of the helper.\<close>

record child =
  ch_argv :: "string list"
  ch_env :: "(string \<times> string) list"
  ch_cwd :: string
  ch_timeout :: int

datatype helper_result =
    HelperExit int bytes string
  | HelperCrash exn

section \<open>\<open>json.loads\<close> on bytes\<close>

definition utf8_tail_sp :: "nat \<Rightarrow> (nat \<times> nat) list option" where
  "utf8_tail_sp b = (if b = 237 then Some [(128, 191), (128, 191)] else utf8_tail b)"

text \<open>Well-formed UTF-8, surrogates let pass: \<open>decode("utf-8", "surrogatepass")\<close> succeeds.\<close>

function valid_utf8_sp :: "bytes \<Rightarrow> bool" where
  "valid_utf8_sp [] = True"
| "valid_utf8_sp (c # cs) =
     (case utf8_tail_sp (of_char c) of
        None \<Rightarrow> False
      | Some rs \<Rightarrow> (case match_tail rs cs of (a, rest, ok) \<Rightarrow> ok \<and> valid_utf8_sp rest))"
  by pat_completeness auto
termination
  by (relation "measure length") (auto dest: match_tail_length [OF sym])

definition utf8_bom :: bytes where "utf8_bom = [CHR 0xEF, CHR 0xBB, CHR 0xBF]"

definition is_wide :: "bytes \<Rightarrow> bool" where
  "is_wide b \<longleftrightarrow>
     startswith b [CHR 0xFF, CHR 0xFE] \<or> startswith b [CHR 0xFE, CHR 0xFF] \<or>
     startswith b [CHR 0x00, CHR 0x00, CHR 0xFE, CHR 0xFF] \<or>
     (4 \<le> length b \<or> length b = 2) \<and> (ord (b ! 0) = 0 \<or> ord (b ! 1) = 0)"

definition json_decode_bytes :: "(bytes \<Rightarrow> string option) \<Rightarrow> bytes \<Rightarrow> string option" where
  "json_decode_bytes wide b =
     (if startswith b utf8_bom
      then (if valid_utf8_sp (drop 3 b) then Some (drop 3 b) else None)
      else if is_wide b then wide b
      else if valid_utf8_sp b then Some b else None)"

definition loads_bytes :: "(bytes \<Rightarrow> string option) \<Rightarrow> bytes \<Rightarrow> json option" where
  "loads_bytes wide b = (case json_decode_bytes wide b of None \<Rightarrow> None | Some s \<Rightarrow> loads s)"

section \<open>The verbs\<close>

text \<open>The error line of \<open>_fail\<close>, as \<open>print\<close> writes it.\<close>

definition fail_line :: "string \<Rightarrow> string \<Rightarrow> string" where
  "fail_line code detail =
     ''lapcare-helper: '' @ code @ (if detail = [] then [] else '': '' @ detail)"

definition fail :: "string \<Rightarrow> string \<Rightarrow> helper_result" where
  "fail code detail = HelperExit 1 [] (fail_line code detail @ [CHR 0x0A])"

definition device_node :: "helper_os \<Rightarrow> string \<Rightarrow> helper_result + string" where
  "device_node os name =
     (case sys_block os of
        Inl strerror \<Rightarrow> Inl (fail ''unknown-device'' (''cannot enumerate /sys/block: '' @ strerror))
      | Inr present \<Rightarrow>
          if name \<notin> set present then Inl (fail ''unknown-device'' [])
          else let node = ''/dev/'' @ name in
               (case node_is_block os node of
                  None \<Rightarrow> Inl (fail ''unknown-device'' (''no device node for '' @ name))
                | Some False \<Rightarrow> Inl (fail ''unknown-device'' (node @ '' is not a block device''))
                | Some True \<Rightarrow> Inr node))"

text \<open>The status is a bitmask; \<open>rc & 3\<close> on a non-negative integer is \<open>rc mod 4\<close>.\<close>

definition fatal_bits :: "int \<Rightarrow> bool" where
  "fatal_bits rc \<longleftrightarrow> rc < 0 \<or> rc mod 4 \<noteq> 0"

definition smart_argv :: "string \<Rightarrow> string list" where
  "smart_argv node = [SMARTCTL, ''--json'', ''--all'', node]"

definition smart_child :: "string \<Rightarrow> child" where
  "smart_child node = \<lparr>ch_argv = smart_argv node, ch_env = CHILD_ENV, ch_cwd = ''/'', ch_timeout = TOOL_TIMEOUT_S\<rparr>"

definition smart_report_verb ::
  "(bytes \<Rightarrow> string option) \<Rightarrow> helper_os \<Rightarrow> string \<Rightarrow> helper_result \<times> child list" where
  "smart_report_verb wide os node =
     (if \<not> smartctl_x os then (fail ''tool-missing'' SMARTCTL, [])
      else
        ((case smartctl_run os (smart_argv node) of
           SmartSpawnFails \<Rightarrow> HelperCrash (PyException ''OSError'' SMARTCTL)
         | SmartHangs \<Rightarrow> fail ''tool-timeout'' (''smartctl exceeded '' @ show_int TOOL_TIMEOUT_S @ ''s'')
         | SmartExited rc out \<Rightarrow>
             if fatal_bits rc then fail ''tool-failed'' (''smartctl exited '' @ show_int rc)
             else if HELPER_MAX_OUTPUT < int (length out)
             then fail ''output-invalid'' (''output exceeds '' @ show_int HELPER_MAX_OUTPUT @ '' bytes'')
             else case loads_bytes wide out of
                    None \<Rightarrow> fail ''output-invalid'' ''smartctl output is not JSON''
                  | Some _ \<Rightarrow> HelperExit 0 out []),
         [smart_child node]))"

definition helper_main ::
  "(bytes \<Rightarrow> string option) \<Rightarrow> helper_os \<Rightarrow> string list \<Rightarrow> helper_result \<times> child list" where
  "helper_main wide os argv =
     (case argv of
        [_, verb, device] \<Rightarrow>
          if verb \<noteq> ''smart-report'' then (fail ''unknown-verb'' [], [])
          else (case device_node os device of
                  Inl r \<Rightarrow> (r, [])
                | Inr node \<Rightarrow> smart_report_verb wide os node)
      | _ \<Rightarrow> (fail ''usage'' ''expected: lapcare-helper smart-report <device>'', []))"

section \<open>Properties\<close>

lemma device_node_Inr:
  "device_node os name = Inr node \<Longrightarrow>
   node = ''/dev/'' @ name \<and> node_is_block os node = Some True \<and> (\<exists>ds. sys_block os = Inr ds \<and> name \<in> set ds)"
  by (auto simp: device_node_def Let_def split: sum.splits if_splits option.splits bool.splits)

definition helper_codes :: "string list" where
  "helper_codes = [''usage'', ''unknown-verb'', ''unknown-device'', ''tool-missing'', ''tool-timeout'',
     ''tool-failed'', ''output-invalid'']"

lemma device_node_Inl: "device_node os name = Inl r \<Longrightarrow> \<exists>c d. r = fail c d \<and> c \<in> set helper_codes"
  by (auto simp: device_node_def Let_def helper_codes_def split: sum.splits if_splits option.splits bool.splits)

text \<open>C6: The helper runs as root nothing but smartctl with fixed options on a node that is the block
  device of a name the kernel lists in /sys/block: no text of the argument reaches the
  command line otherwise; the process gets the scrubbed environment, the root directory and 25
  seconds, and is started at most once.\<close>

theorem helper_runs_only_smartctl:
  "snd (helper_main wide os argv) = [] \<or>
   (\<exists>prog name ds. argv = [prog, ''smart-report'', name] \<and> sys_block os = Inr ds \<and> name \<in> set ds \<and>
      node_is_block os (''/dev/'' @ name) = Some True \<and>
      snd (helper_main wide os argv) =
        [\<lparr>ch_argv = [SMARTCTL, ''--json'', ''--all'', ''/dev/'' @ name],
          ch_env = [(''PATH'', ''/usr/sbin:/usr/bin:/sbin:/bin''), (''LC_ALL'', ''C.UTF-8'')],
          ch_cwd = ''/'', ch_timeout = 25\<rparr>])"
proof (cases "snd (helper_main wide os argv) = []")
  case False
  then obtain prog name node where a: "argv = [prog, ''smart-report'', name]" "device_node os name = Inr node"
    by (auto simp: helper_main_def split: list.splits if_splits sum.splits)
  from device_node_Inr [OF a(2)] False a show ?thesis
    by (auto simp: helper_main_def smart_report_verb_def smart_child_def smart_argv_def CHILD_ENV_def TOOL_TIMEOUT_S_def
        split: if_splits)
qed simp

lemma smart_report_exit_1:
  "fst (smart_report_verb wide os node) = HelperExit 1 out err \<Longrightarrow>
   \<exists>c d. c \<in> set helper_codes \<and> err = fail_line c d @ [CHR 0x0A]"
  by (auto simp: smart_report_verb_def fail_def helper_codes_def
      split: smartctl_outcome.splits option.splits if_splits)

lemma helper_exit_1:
  assumes "fst (helper_main wide os argv) = HelperExit 1 out err"
  shows "\<exists>c d. c \<in> set helper_codes \<and> err = fail_line c d @ [CHR 0x0A]"
proof (cases "\<exists>prog name. argv = [prog, ''smart-report'', name]")
  case True
  then obtain prog name where a: "argv = [prog, ''smart-report'', name]" by blast
  show ?thesis
  proof (cases "device_node os name")
    case (Inl r)
    with device_node_Inl [OF Inl] a assms show ?thesis by (auto simp: helper_main_def fail_def)
  next
    case (Inr node)
    with a assms show ?thesis by (intro smart_report_exit_1 [of wide os node]) (simp add: helper_main_def)
  qed
next
  case False
  then have "fst (helper_main wide os argv) = fail ''unknown-verb'' [] \<or>
    fst (helper_main wide os argv) = fail ''usage'' ''expected: lapcare-helper smart-report <device>''"
    by (auto simp: helper_main_def split: list.split)
  with assms show ?thesis by (auto simp: fail_def helper_codes_def)
qed

text \<open>What a result of the helper may be: smartctl's output, or one error line.\<close>

definition output_valid :: "(bytes \<Rightarrow> string option) \<Rightarrow> helper_os \<Rightarrow> helper_result \<Rightarrow> bool" where
  "output_valid wide os r \<longleftrightarrow> (case r of
     HelperExit rc out err \<Rightarrow>
       (if rc = 0
        then err = [] \<and> loads_bytes wide out \<noteq> None \<and> int (length out) \<le> HELPER_MAX_OUTPUT \<and>
             (\<exists>node src. smartctl_run os (smart_argv node) = SmartExited src out \<and> 0 \<le> src \<and> 4 dvd src)
        else rc = 1 \<and> out = [] \<and> (\<exists>c d. c \<in> set helper_codes \<and> err = fail_line c d @ [CHR 0x0A]))
   | HelperCrash e \<Rightarrow> (\<exists>node. smartctl_run os (smart_argv node) = SmartSpawnFails))"

lemma fail_valid: "x \<in> set helper_codes \<Longrightarrow> output_valid wide os (fail x y)"
  by (auto simp: output_valid_def fail_def)

lemma crash_valid: "smartctl_run os (smart_argv node) = SmartSpawnFails \<Longrightarrow> output_valid wide os (HelperCrash e)"
  by (auto simp: output_valid_def)

lemma device_node_valid: "device_node os name = Inl r \<Longrightarrow> output_valid wide os r"
  using device_node_Inl [of os name r] fail_valid by blast

lemma exit_valid:
  assumes "smartctl_run os (smart_argv node) = SmartExited rc out" "\<not> fatal_bits rc" "int (length out) \<le> HELPER_MAX_OUTPUT"
    "loads_bytes wide out \<noteq> None"
  shows "output_valid wide os (HelperExit 0 out [])"
proof -
  have "0 \<le> rc" "4 dvd rc" using assms(2) by (auto simp: fatal_bits_def)
  with assms(1) have "\<exists>node src. smartctl_run os (smart_argv node) = SmartExited src out \<and> 0 \<le> src \<and> 4 dvd src" by blast
  with assms(3,4) show ?thesis by (simp add: output_valid_def)
qed

lemma tool_codes:
  "''tool-missing'' \<in> set helper_codes" "''tool-timeout'' \<in> set helper_codes" "''tool-failed'' \<in> set helper_codes"
  "''output-invalid'' \<in> set helper_codes"
  by (simp_all add: helper_codes_def)

lemma verb_valid: "output_valid wide os (fst (smart_report_verb wide os node))"
proof (cases "smartctl_run os (smart_argv node)")
  case (SmartExited rc out)
  then show ?thesis
    using exit_valid [OF SmartExited]
    by (simp add: smart_report_verb_def fail_valid tool_codes not_less split: option.split)
qed (simp_all add: smart_report_verb_def fail_valid tool_codes crash_valid)

text \<open>C24: The output of the helper is all or nothing. Exit status 0 means that standard output is
  smartctl's own output, byte for byte, within the bound and readable as JSON, from a run
  whose two fatal status bits are clear; any other exit prints nothing and one error line
  with a code of the list.\<close>

theorem helper_output_valid:
  "case fst (helper_main wide os argv) of
     HelperExit rc out err \<Rightarrow>
       (if rc = 0
        then err = [] \<and> loads_bytes wide out \<noteq> None \<and> int (length out) \<le> HELPER_MAX_OUTPUT \<and>
             (\<exists>node src. smartctl_run os (smart_argv node) = SmartExited src out \<and> 0 \<le> src \<and> 4 dvd src)
        else rc = 1 \<and> out = [] \<and> (\<exists>c d. c \<in> set helper_codes \<and> err = fail_line c d @ [CHR 0x0A]))
   | HelperCrash e \<Rightarrow> (\<exists>node. smartctl_run os (smart_argv node) = SmartSpawnFails)"
proof -
  have "output_valid wide os (fst (helper_main wide os argv))"
  proof (cases "\<exists>prog name. argv = [prog, ''smart-report'', name]")
    case True
    then obtain prog name where argv: "argv = [prog, ''smart-report'', name]" by blast
    show ?thesis
      by (cases "device_node os name") (simp_all add: argv helper_main_def device_node_valid verb_valid)
  next
    case False
    then have "fst (helper_main wide os argv) = fail ''unknown-verb'' [] \<or>
      fst (helper_main wide os argv) = fail ''usage'' ''expected: lapcare-helper smart-report <device>''"
      by (auto simp: helper_main_def split: list.split)
    moreover have "''unknown-verb'' \<in> set helper_codes" "''usage'' \<in> set helper_codes" by (simp_all add: helper_codes_def)
    ultimately show ?thesis using fail_valid by metis
  qed
  then show ?thesis by (simp only: output_valid_def)
qed

end
