(* ===== verification/StorageSmart.thy ===== *)
theory StorageSmart
  imports Files ToolRunner Helper
begin

text \<open>
  \<open>providers/storage_smart.py\<close>: the unprivileged inventory of block devices, the SMART read
  through pkexec and the helper, the translation of its failures, and the one parser of
  smartctl's JSON. The runner is the injected one; the lemmas about errors are proved once
  for every runner that keeps the contract of \<open>ToolRunner\<close>.
\<close>

definition SOURCE_STORAGE :: string where "SOURCE_STORAGE = ''storage_smart''"
definition HELPER_PATH :: string where "HELPER_PATH = ''/usr/libexec/lapcare/lapcare-helper''"
definition ACTION_SMART_REPORT :: string where
  "ACTION_SMART_REPORT = ''io.github.abhilashmuraleedharan.lapcare.smart-report''"
definition PKEXEC_TIMEOUT_S :: rat where "PKEXEC_TIMEOUT_S = 120"
definition PKEXEC_DISMISSED :: int where "PKEXEC_DISMISSED = 126"
definition PKEXEC_NOT_AUTHORIZED :: int where "PKEXEC_NOT_AUTHORIZED = 127"

section \<open>Inventory\<close>

definition block_dir :: path where "block_dir = [''sys'', ''block'']"

definition flag :: "int option \<Rightarrow> bool option" where
  "flag v = map_option (\<lambda>n. n \<noteq> 0) v"

definition read_block_device :: "'x fs_scheme \<Rightarrow> string \<Rightarrow> storage_device option" where
  "read_block_device w n =
     (let entry = block_dir @ [n] in
      if \<not> fs_is_dir w (entry @ [''device'']) then None
      else Some \<lparr>sd_name = n,
                 sd_model = read_str DEFAULT_MAX_BYTES w (entry @ [''device'', ''model'']),
                 sd_size_bytes = map_option (\<lambda>s. s * 512) (read_int w (entry @ [''size''])),
                 sd_removable = flag (read_int w (entry @ [''removable''])),
                 sd_rotational = flag (read_int w (entry @ [''queue'', ''rotational'']))\<rparr>)"

definition block_devices :: "('x fs_scheme, storage_device list) io" where
  "block_devices = io_reads (\<lambda>w.
     case fs_list w block_dir of
       None \<Rightarrow> Inl (ProviderUnavailable SOURCE_STORAGE UnsupportedHardware None)
     | Some names \<Rightarrow> Inr (List.map_filter (read_block_device w) (sort names)))"

definition storage_availability :: "'x fs_scheme \<Rightarrow> availability" where
  "storage_availability w = (if fs_is_dir w block_dir then AvailOK else UnsupportedHardware)"

interpretation block: snapshot_read block_devices
  unfolding block_devices_def by (rule snapshot_reads) (auto split: option.splits)

section \<open>Parsing smartctl's document\<close>

fun json_path :: "json \<Rightarrow> string list \<Rightarrow> json option" where
  "json_path v [] = Some v"
| "json_path (JObj d) (k # ks) = json_path (obj_get d k) ks"
| "json_path v (k # ks) = None"

definition get_int :: "(string \<times> json) list \<Rightarrow> string list \<Rightarrow> int option" where
  "get_int d ks = (case json_path (JObj d) ks of Some (JInt n) \<Rightarrow> Some n | _ \<Rightarrow> None)"

definition get_str :: "(string \<times> json) list \<Rightarrow> string \<Rightarrow> string option" where
  "get_str d k = (case obj_get d k of JStr s \<Rightarrow> or_none s | _ \<Rightarrow> None)"

text \<open>\<open>row.get("id") == attr_id\<close>: an int compares equal to a float or bool of its value.\<close>

definition json_is_int :: "json \<Rightarrow> int \<Rightarrow> bool" where
  "json_is_int v n =
     (case v of JInt i \<Rightarrow> i = n | JFloat x \<Rightarrow> x = of_int n | JBool b \<Rightarrow> (if b then 1 else 0) = n | _ \<Rightarrow> False)"

fun ata_rows :: "int \<Rightarrow> json list \<Rightarrow> int option" where
  "ata_rows attr [] = None"
| "ata_rows attr (row # rows) =
     (case row of
        JObj d \<Rightarrow>
          if json_is_int (obj_get d ''id'') attr
          then (case obj_get d ''raw'' of
                  JObj raw \<Rightarrow>
                    (case obj_get raw ''value'' of JInt n \<Rightarrow> Some n | _ \<Rightarrow> ata_rows attr rows)
                | _ \<Rightarrow> ata_rows attr rows)
          else ata_rows attr rows
      | _ \<Rightarrow> ata_rows attr rows)"

definition ata_raw_value :: "(string \<times> json) list \<Rightarrow> int \<Rightarrow> int option" where
  "ata_raw_value d attr =
     (case obj_get d ''ata_smart_attributes'' of
        JObj table \<Rightarrow> (case obj_get table ''table'' of JArr rows \<Rightarrow> ata_rows attr rows | _ \<Rightarrow> None)
      | _ \<Rightarrow> None)"

definition entry_message :: "json \<Rightarrow> string option" where
  "entry_message e =
     (case e of JObj d \<Rightarrow> (case obj_get d ''string'' of JStr s \<Rightarrow> Some s | _ \<Rightarrow> None) | _ \<Rightarrow> None)"

definition smart_messages :: "(string \<times> json) list \<Rightarrow> string list" where
  "smart_messages d =
     (case obj_get d ''smartctl'' of
        JObj s \<Rightarrow> (case obj_get s ''messages'' of JArr es \<Rightarrow> List.map_filter entry_message es | _ \<Rightarrow> [])
      | _ \<Rightarrow> [])"

definition nvme_log :: string where "nvme_log = ''nvme_smart_health_information_log''"

definition parse_report :: "string \<Rightarrow> (string \<times> json) list \<Rightarrow> smart_report" where
  "parse_report device_name d =
     \<lparr>sr_device_name = device_name,
      sr_passed = (case obj_get d ''smart_status'' of
                     JObj s \<Rightarrow> (case obj_get s ''passed'' of JBool b \<Rightarrow> Some b | _ \<Rightarrow> None)
                   | _ \<Rightarrow> None),
      sr_temperature_c = get_int d [''temperature'', ''current''],
      sr_power_on_hours = get_int d [''power_on_time'', ''hours''],
      sr_power_cycles = get_int d [''power_cycle_count''],
      sr_percentage_used = get_int d [nvme_log, ''percentage_used''],
      sr_available_spare_pct = get_int d [nvme_log, ''available_spare''],
      sr_media_errors = get_int d [nvme_log, ''media_errors''],
      sr_critical_warning = get_int d [nvme_log, ''critical_warning''],
      sr_unsafe_shutdowns = get_int d [nvme_log, ''unsafe_shutdowns''],
      sr_reallocated_sectors = ata_raw_value d 5,
      sr_pending_sectors = ata_raw_value d 197,
      sr_model = get_str d ''model_name'',
      sr_firmware_version = get_str d ''firmware_version'',
      sr_serial_number = get_str d ''serial_number'',
      sr_messages = smart_messages d\<rparr>"

section \<open>The privileged read\<close>

fun first_code :: "string list \<Rightarrow> string option" where
  "first_code [] = None"
| "first_code (line # rest) =
     (if startswith line ''lapcare-helper: '' then or_none (strip (split_max 2 '': '' line ! 1))
      else first_code rest)"

definition helper_error_code :: "string \<Rightarrow> string option" where
  "helper_error_code stderr_snippet = first_code (splitlines stderr_snippet)"

definition translate_failure :: "int \<Rightarrow> string \<Rightarrow> exn" where
  "translate_failure rc snippet =
     (if rc = PKEXEC_DISMISSED \<or> rc = PKEXEC_NOT_AUTHORIZED then PrivilegedActionDenied ACTION_SMART_REPORT
      else case helper_error_code snippet of
             None \<Rightarrow>
               if contains snippet ''lapcare-helper'' then ProviderParseError SOURCE_STORAGE ''helper failed''
               else ProviderUnavailable SOURCE_STORAGE ToolMissing (Some ''lapcare-helper (installed package)'')
           | Some code \<Rightarrow>
               if code = ''tool-missing'' then ProviderUnavailable SOURCE_STORAGE ToolMissing (Some ''smartmontools'')
               else if code = ''tool-timeout''
               then ProviderTimeout SOURCE_STORAGE ''smartctl timed out inside the helper''
               else ProviderParseError SOURCE_STORAGE (''helper: '' @ code))"

fun smart_error :: "tool_error \<Rightarrow> exn" where
  "smart_error (ToolNotFound _) = ProviderUnavailable SOURCE_STORAGE ToolMissing (Some ''pkexec'')"
| "smart_error (ToolTimeout tool t) = ProviderTimeout SOURCE_STORAGE (tool_error_str (ToolTimeout tool t))"
| "smart_error (ToolFailed _ rc snippet) = translate_failure rc snippet"
| "smart_error (ToolKeyError tool) = PyException ''KeyError'' tool"
| "smart_error (ToolOSError msg) = PyException ''OSError'' msg"

definition parse_output :: "string \<Rightarrow> string \<Rightarrow> exn + smart_report" where
  "parse_output device_name out =
     (case loads out of
        None \<Rightarrow> Inl (ProviderParseError SOURCE_STORAGE ''helper output is not JSON'')
      | Some (JObj d) \<Rightarrow> Inr (parse_report device_name d)
      | Some _ \<Rightarrow> Inl (ProviderParseError SOURCE_STORAGE ''helper output is not a JSON object''))"

definition smart_read :: "'w runner \<Rightarrow> string \<Rightarrow> ('w, smart_report) io" where
  "smart_read runner device_name = (\<lambda>w.
     case runner ''pkexec'' [HELPER_PATH, ''smart-report'', device_name] PKEXEC_TIMEOUT_S w of
       (Inl e, w') \<Rightarrow> (Inl (smart_error e), w')
     | (Inr out, w') \<Rightarrow> (parse_output device_name out, w'))"

section \<open>Errors of the read, for every runner\<close>

lemma translate_failure_lapcare: "is_lapcare_error (translate_failure rc s)"
  by (simp add: translate_failure_def split: option.split)

lemma translate_failure_denied:
  "translate_failure rc s = PrivilegedActionDenied a \<longleftrightarrow>
   (rc = 126 \<or> rc = 127) \<and> a = ACTION_SMART_REPORT"
  by (auto simp: translate_failure_def PKEXEC_DISMISSED_def PKEXEC_NOT_AUTHORIZED_def split: option.split)

lemma parse_output_error: "parse_output n out = Inl e \<Longrightarrow> \<exists>m. e = ProviderParseError SOURCE_STORAGE m"
  by (auto simp: parse_output_def split: option.splits json.splits)

lemma pkexec_allowed: "dict_get ''pkexec'' ALLOWED_TOOLS \<noteq> None"
  by (simp add: ALLOWED_TOOLS_def)

context tool_runner
begin

lemma smart_read_errors:
  assumes "smart_read runner n w = (Inl e, w')"
  shows "is_lapcare_error e \<or> is_os_error e"
proof (cases "runner ''pkexec'' [HELPER_PATH, ''smart-report'', n] PKEXEC_TIMEOUT_S w")
  case (Pair r v)
  show ?thesis
  proof (cases r)
    case (Inl te)
    with assms Pair have e: "e = smart_error te" by (simp add: smart_read_def)
    from failure_cases [OF pkexec_allowed Pair [unfolded Inl]] show ?thesis
      by cases (auto simp: e translate_failure_lapcare)
  next
    case (Inr out)
    with assms Pair have "parse_output n out = Inl e" by (simp add: smart_read_def)
    then show ?thesis using parse_output_error by fastforce
  qed
qed

lemma smart_read_denied:
  "fst (smart_read runner n w) = Inl (PrivilegedActionDenied a) \<longleftrightarrow>
   a = ACTION_SMART_REPORT \<and>
   (\<exists>rc s tool. (rc = 126 \<or> rc = 127) \<and>
      fst (runner ''pkexec'' [HELPER_PATH, ''smart-report'', n] PKEXEC_TIMEOUT_S w) = Inl (ToolFailed tool rc s))"
proof (cases "runner ''pkexec'' [HELPER_PATH, ''smart-report'', n] PKEXEC_TIMEOUT_S w")
  case (Pair r v)
  show ?thesis
  proof (cases r)
    case (Inl te)
    with Pair show ?thesis by (cases te) (auto simp: smart_read_def translate_failure_denied)
  next
    case (Inr out)
    with Pair parse_output_error [of n out] show ?thesis by (auto simp: smart_read_def)
  qed
qed

end

section \<open>The error line of the helper\<close>

definition HELPER_PREFIX :: string where "HELPER_PREFIX = ''lapcare-helper: ''"

lemma splitlines_aux_skip:
  "\<forall>c\<in>set cs. \<not> is_linebreak c \<Longrightarrow> splitlines_aux False acc (cs @ ds) = splitlines_aux False (acc @ concat cs) ds"
  by (induction cs arbitrary: acc) auto

lemma splitlines_aux_first:
  "acc \<noteq> [] \<Longrightarrow>
   \<exists>rest. splitlines_aux False acc ds = (acc @ concat (takeWhile (\<lambda>c. \<not> is_linebreak c) ds)) # rest"
proof (induction ds arbitrary: acc)
  case (Cons d ds)
  show ?case
  proof (cases "is_linebreak d")
    case False
    then show ?thesis using Cons.IH [of "acc @ d"] Cons.prems by simp
  qed simp
qed simp

lemma splitlines_first:
  assumes "p \<noteq> []" "ascii p" "one_line p" "t = [] \<or> \<not> is_cont (hd t)"
  shows "\<exists>rest. splitlines (p @ t) = (p @ concat (takeWhile (\<lambda>c. \<not> is_linebreak c) (chars t))) # rest"
proof -
  have "\<forall>c\<in>set (chars p). \<not> is_linebreak c" using assms(3) by (simp add: one_line_def)
  moreover have "chars (p @ t) = chars p @ chars t" by (rule chars_append [OF assms(4)])
  ultimately show ?thesis
    using splitlines_aux_first [OF assms(1), of "chars t"] splitlines_aux_skip [of "chars p" "[]" "chars t"]
    by (simp add: splitlines_def)
qed

lemma helper_code_facts:
  assumes "c \<in> set helper_codes"
  shows "CHR '':'' \<notin> set c" "strip c = c" "c \<noteq> []" "ascii c" "one_line (HELPER_PREFIX @ c)" "length c \<le> 20"
proof -
  have "list_all (\<lambda>c. CHR '':'' \<notin> set c \<and> strip c = c \<and> c \<noteq> [] \<and> ascii c \<and> one_line (HELPER_PREFIX @ c) \<and>
      length c \<le> 20) helper_codes"
    by code_simp
  with assms show "CHR '':'' \<notin> set c" "strip c = c" "c \<noteq> []" "ascii c" "one_line (HELPER_PREFIX @ c)" "length c \<le> 20"
    by (auto simp: list_all_iff)
qed

lemma helper_prefix: "ascii HELPER_PREFIX" "length HELPER_PREFIX = 16"
  by (simp_all add: HELPER_PREFIX_def)

lemma code_of_line:
  assumes c: "c \<in> set helper_codes" and y: "y = [] \<or> (\<exists>z. y = '': '' @ z)"
  shows "first_code ((HELPER_PREFIX @ c @ y) # rest) = Some c"
proof -
  note f = helper_code_facts [OF c]
  have b1: "break_on '': '' (''lapcare-helper'' @ '': '' @ c @ y) = Some (''lapcare-helper'', c @ y)"
    by (rule break_on_char) simp
  have b2: "split_max 1 '': '' (c @ y) = c # (case y of [] \<Rightarrow> [] | _ \<Rightarrow> [drop 2 y])"
    using y break_on_None [OF f(1), of "'' ''"] break_on_char [OF f(1), of "'' ''" ] by auto
  have l: "HELPER_PREFIX @ c @ y = ''lapcare-helper'' @ '': '' @ c @ y" by (simp add: HELPER_PREFIX_def)
  have "split_max 2 '': '' (HELPER_PREFIX @ c @ y) ! 1 = c"
    unfolding l numeral_2_eq_2 split_max.simps(2) [of "Suc 0"] b1 using b2 by simp
  moreover have "startswith (HELPER_PREFIX @ c @ y) ''lapcare-helper: ''"
    by (simp add: HELPER_PREFIX_def startswith_def)
  ultimately show ?thesis using f(2,3) by simp
qed

lemma pytake_prefix:
  assumes "ascii p" "t = [] \<or> \<not> is_cont (hd t)" "length p \<le> n"
  shows "pytake n (p @ t) = p @ pytake (n - length p) t"
proof -
  have "take n (chars p @ chars t) = chars p @ take (n - length p) (chars t)"
    using assms by (simp add: chars_ascii)
  then show ?thesis using assms(2) by (simp add: pytake_def chars_append)
qed

lemma pytake_hd: "pytake k u = [] \<or> (u \<noteq> [] \<and> hd (pytake k u) = hd u)"
proof (cases u)
  case (Cons c v)
  then show ?thesis by (cases k) (simp_all add: pytake_def)
qed (simp add: pytake_def)

lemma valid_append: "valid_utf8 a \<Longrightarrow> valid_utf8 b \<Longrightarrow> valid_utf8 (a @ b)"
proof (induction a rule: valid_utf8.induct)
  case (2 c cs)
  then obtain rs where rs: "utf8_tail (of_char c) = Some rs" by (auto split: option.splits)
  obtain a r ok where "match_tail rs cs = (a, r, ok)" by (metis prod_cases3)
  with "2.prems" rs have m: "match_tail rs cs = (a, r, True)" "valid_utf8 r" by auto
  have "valid_utf8 (r @ b)" using "2.IH" rs m "2.prems"(2) by simp
  with valid_utf8_char [OF rs m(1), of "r @ b"] match_tail_append [OF m(1)] show ?case by simp
qed simp

lemma first_line_code:
  assumes c: "c \<in> set helper_codes" and t: "t = [] \<or> (\<exists>u. t = CHR 0x0A # u \<and> (u = [] \<or> \<not> is_cont (hd u))) \<or> (\<exists>u. t = '': '' @ u \<and> (u = [] \<or> \<not> is_cont (hd u)))"
  shows "helper_error_code (HELPER_PREFIX @ c @ t) = Some c"
proof -
  note f = helper_code_facts [OF c]
  let ?y = "concat (takeWhile (\<lambda>c. \<not> is_linebreak c) (chars t))"
  have nc: "t = [] \<or> \<not> is_cont (hd t)" using t by (auto simp: is_cont_def)
  have "HELPER_PREFIX @ c \<noteq> []" "ascii (HELPER_PREFIX @ c)" using f helper_prefix by auto
  from splitlines_first [OF this f(5) nc] obtain rest where
    "splitlines (HELPER_PREFIX @ c @ t) = (HELPER_PREFIX @ c @ ?y) # rest" by auto
  moreover have "?y = [] \<or> (\<exists>z. ?y = '': '' @ z)"
  proof -
    have nl: "is_linebreak [CHR 0x0A]" "\<not> is_linebreak '':''" "\<not> is_linebreak '' ''" by (simp_all add: is_linebreak_def)
    consider "t = []" | u where "t = CHR 0x0A # u" "u = [] \<or> \<not> is_cont (hd u)" | u where "t = '': '' @ u" "u = [] \<or> \<not> is_cont (hd u)"
      using t by auto
    then show ?thesis
    proof cases
      case (2 u)
      have "chars ([CHR 0x0A] @ u) = [CHR 0x0A] # chars u"
        using chars_append [OF 2(2), of "[CHR 0x0A]"] by (simp add: chars_ascii)
      then show ?thesis by (simp add: 2(1) nl)
    next
      case (3 u)
      have "chars ('': '' @ u) = [CHR '':''] # [CHR '' ''] # chars u"
      proof -
        have "chars '': '' = [[CHR '':''], [CHR '' '']]" by code_simp
        with chars_append [OF 3(2), of "'': ''"] show ?thesis by (simp only: append_Cons append_Nil)
      qed
      then show ?thesis unfolding 3(1) by (simp only: takeWhile.simps nl if_True if_False concat.simps simp_thms) auto
    qed simp
  qed
  ultimately show ?thesis using code_of_line [OF c] by (simp add: helper_error_code_def)
qed

text \<open>The line survives the runner: decoding, then cutting to 500 characters.\<close>

lemma snippet_code:
  assumes c: "c \<in> set helper_codes" and d: "valid_utf8 d"
  shows "helper_error_code (pytake 500 (decode_replace (fail_line c d @ [CHR 0x0A]))) = Some c"
proof -
  note f = helper_code_facts [OF c]
  let ?p = "HELPER_PREFIX @ c"
  define t where "t = (if d = [] then [] else '': '' @ d) @ [CHR 0x0A]"
  have line: "fail_line c d @ [CHR 0x0A] = ?p @ t" by (simp add: fail_line_def HELPER_PREFIX_def t_def)
  have p: "ascii ?p" "length ?p \<le> 36" using f helper_prefix by auto
  have vd: "valid_utf8 (d @ [CHR 0x0A])" by (rule valid_append [OF d]) (rule ascii_valid, simp)
  have vt: "valid_utf8 t"
  proof (cases "d = []")
    case False
    have "valid_utf8 ('': '' @ (d @ [CHR 0x0A]))" by (rule valid_append [OF ascii_valid vd]) simp
    then show ?thesis using False by (simp add: t_def del: valid_utf8.simps)
  qed (simp add: t_def ascii_valid del: valid_utf8.simps)
  have nc: "t = [] \<or> \<not> is_cont (hd t)" by (rule valid_hd [OF vt])
  have dec: "decode_replace (?p @ t) = ?p @ t"
    by (rule decode_replace_valid [OF valid_append [OF ascii_valid [OF p(1)] vt]])
  have cut: "pytake 500 (?p @ t) = ?p @ pytake (500 - length ?p) t"
    using p(2) by (intro pytake_prefix [OF p(1) nc]) simp
  obtain k where k: "500 - length ?p = k" "3 \<le> k" using p(2) by simp
  have "pytake k t = [CHR 0x0A] \<or> (\<exists>u. pytake k t = '': '' @ u \<and> (u = [] \<or> \<not> is_cont (hd u)))"
  proof (cases "d = []")
    case True
    then show ?thesis using k by (simp add: t_def pytake_ascii)
  next
    case False
    have h: "d @ [CHR 0x0A] = [] \<or> \<not> is_cont (hd (d @ [CHR 0x0A]))" by (rule valid_hd [OF vd])
    have "pytake k ('': '' @ (d @ [CHR 0x0A])) = '': '' @ pytake (k - length '': '') (d @ [CHR 0x0A])"
      by (rule pytake_prefix) (use h k in simp_all)
    then have "pytake k ('': '' @ (d @ [CHR 0x0A])) = '': '' @ pytake (k - 2) (d @ [CHR 0x0A])"
      by (simp add: numeral_2_eq_2)
    moreover have "pytake (k - 2) (d @ [CHR 0x0A]) = [] \<or> \<not> is_cont (hd (pytake (k - 2) (d @ [CHR 0x0A])))"
      using pytake_hd [of "k - 2" "d @ [CHR 0x0A]"] h by auto
    ultimately show ?thesis using False by (auto simp: t_def)
  qed
  then have "helper_error_code (HELPER_PREFIX @ c @ pytake k t) = Some c"
    by (intro first_line_code [OF c]) auto
  then show ?thesis unfolding line dec cut k(1) by simp
qed

text \<open>Well-formed text stays well-formed without an ASCII prefix or a final newline.\<close>

lemma valid_drop_ascii: "ascii p \<Longrightarrow> valid_utf8 (p @ x) \<Longrightarrow> valid_utf8 x"
  by (induction p) (auto simp: utf8_tail_def)

lemma match_tail_newline:
  "\<forall>(l, h)\<in>set rs. 128 \<le> l \<Longrightarrow> match_tail rs (cs @ [CHR 0x0A]) = (a, r, True) \<Longrightarrow>
   \<exists>q. cs = a @ q \<and> r = q @ [CHR 0x0A] \<and> match_tail rs cs = (a, q, True)"
proof (induction rs cs arbitrary: a r rule: match_tail.induct)
  case (2 r rs)
  then show ?case by (cases r) auto
next
  case (3 lo hi rs c cs)
  then show ?case by (auto split: if_splits prod.splits)
qed auto

lemma utf8_tail_high: "utf8_tail b = Some rs \<Longrightarrow> \<forall>(l, h)\<in>set rs. 128 \<le> l"
  by (auto simp: utf8_tail_def split: if_splits)

lemma valid_drop_newline: "valid_utf8 (s @ [CHR 0x0A]) \<Longrightarrow> valid_utf8 s"
proof (induction s rule: valid_utf8.induct)
  case (2 c cs)
  then obtain rs where rs: "utf8_tail (of_char c) = Some rs" by (auto split: option.splits)
  obtain a r where m: "match_tail rs (cs @ [CHR 0x0A]) = (a, r, True)" "valid_utf8 r"
    using "2.prems" rs by (cases "match_tail rs (cs @ [CHR 0x0A])") auto
  obtain q where q: "r = q @ [CHR 0x0A]" "match_tail rs cs = (a, q, True)"
    using match_tail_newline [OF utf8_tail_high [OF rs] m(1)] by blast
  have "valid_utf8 q" using "2.IH" rs q m(2) by simp
  then show ?case using rs q by simp
qed simp

lemma fail_line_valid:
  assumes "c \<in> set helper_codes" "valid_utf8 (fail_line c d @ [CHR 0x0A])"
  shows "valid_utf8 d"
proof (cases "d = []")
  case False
  have "ascii (HELPER_PREFIX @ c @ '': '')" using helper_code_facts(4) [OF assms(1)] helper_prefix by simp
  moreover have "fail_line c d @ [CHR 0x0A] = (HELPER_PREFIX @ c @ '': '') @ (d @ [CHR 0x0A])"
    using False by (simp add: fail_line_def HELPER_PREFIX_def)
  ultimately have "valid_utf8 (d @ [CHR 0x0A])" using assms(2) valid_drop_ascii by metis
  then show ?thesis by (rule valid_drop_newline)
qed simp

section \<open>Properties\<close>

text \<open>Reading SMART data through the audited runner fails only with a Lapcare error, or with the
  operating system's refusal to start pkexec, and it reports a declined authorization
  exactly when pkexec ended with status 126 or 127.\<close>

theorem smart_read_errors_run_tool:
  "(case fst (smart_read run_tool n w) of Inl e \<Rightarrow> is_lapcare_error e \<or> is_os_error e | Inr r \<Rightarrow> sr_device_name r = n) \<and>
   (fst (smart_read run_tool n w) = Inl (PrivilegedActionDenied a) \<longleftrightarrow>
    a = ACTION_SMART_REPORT \<and>
    (\<exists>rc s tool. (rc = 126 \<or> rc = 127) \<and>
       fst (run_tool ''pkexec'' [HELPER_PATH, ''smart-report'', n] PKEXEC_TIMEOUT_S w) = Inl (ToolFailed tool rc s)))"
proof
  show "case fst (smart_read run_tool n w) of Inl e \<Rightarrow> is_lapcare_error e \<or> is_os_error e | Inr r \<Rightarrow> sr_device_name r = n"
  proof (cases "smart_read run_tool n w")
    case (Pair r w')
    show ?thesis
    proof (cases r)
      case (Inl e)
      with Pair rt.smart_read_errors [of n w e w'] show ?thesis by simp
    next
      case (Inr rep)
      with Pair have "sr_device_name rep = n"
        by (auto simp: smart_read_def parse_output_def parse_report_def split: prod.splits sum.splits option.splits json.splits)
      with Pair Inr show ?thesis by simp
    qed
  qed
qed (rule rt.smart_read_denied)

text \<open>C29: The provider understands the helper. A failed helper run prints one line, a code of the
  helper's list with a detail, and for the code that is printed, after the runner has decoded
  and cut the line, the provider raises the matching error: a missing smartctl names the
  package, a smartctl timeout is a timeout, every other code a parse error that quotes it.\<close>

theorem provider_understands_helper:
  assumes "fst (helper_main wide os argv) = HelperExit 1 out err" "valid_utf8 err"
  shows "(\<exists>c d. c \<in> set helper_codes \<and> err = ''lapcare-helper: '' @ c @ (if d = [] then [] else '': '' @ d) @ [CHR 0x0A]) \<and>
    (\<forall>c d. c \<in> set helper_codes \<longrightarrow> err = ''lapcare-helper: '' @ c @ (if d = [] then [] else '': '' @ d) @ [CHR 0x0A] \<longrightarrow>
       smart_error (ToolFailed ''pkexec'' 1 (pytake 500 (decode_replace err))) =
         (if c = ''tool-missing'' then ProviderUnavailable SOURCE_STORAGE ToolMissing (Some ''smartmontools'')
          else if c = ''tool-timeout'' then ProviderTimeout SOURCE_STORAGE ''smartctl timed out inside the helper''
          else ProviderParseError SOURCE_STORAGE (''helper: '' @ c)))"
proof (intro conjI allI impI)
  have line: "fail_line c d @ [CHR 0x0A] =
      ''lapcare-helper: '' @ c @ (if d = [] then [] else '': '' @ d) @ [CHR 0x0A]" for c d
    by (simp add: fail_line_def)
  show "\<exists>c d. c \<in> set helper_codes \<and> err = ''lapcare-helper: '' @ c @ (if d = [] then [] else '': '' @ d) @ [CHR 0x0A]"
    using helper_exit_1 [OF assms(1)] unfolding line .
  fix c d
  assume c: "c \<in> set helper_codes"
    and err: "err = ''lapcare-helper: '' @ c @ (if d = [] then [] else '': '' @ d) @ [CHR 0x0A]"
  have "helper_error_code (pytake 500 (decode_replace err)) = Some c"
    unfolding err line [symmetric]
    using fail_line_valid [OF c] assms(2) err line by (intro snippet_code [OF c]) simp
  then show "smart_error (ToolFailed ''pkexec'' 1 (pytake 500 (decode_replace err))) =
      (if c = ''tool-missing'' then ProviderUnavailable SOURCE_STORAGE ToolMissing (Some ''smartmontools'')
       else if c = ''tool-timeout'' then ProviderTimeout SOURCE_STORAGE ''smartctl timed out inside the helper''
       else ProviderParseError SOURCE_STORAGE (''helper: '' @ c))"
    by (simp add: translate_failure_def PKEXEC_DISMISSED_def PKEXEC_NOT_AUTHORIZED_def)
qed

theorem provider_understands_helper_witness:
  "\<exists>err. fst (helper_main (\<lambda>b. None) \<lparr>sys_block = Inr [''sda''], node_is_block = (\<lambda>p. Some True),
       smartctl_x = False, smartctl_run = (\<lambda>a. SmartHangs)\<rparr> [''h'', ''smart-report'', ''sda'']) = HelperExit 1 [] err \<and>
     smart_error (ToolFailed ''pkexec'' 1 (pytake 500 (decode_replace err))) =
       ProviderUnavailable SOURCE_STORAGE ToolMissing (Some ''smartmontools'')"
proof -
  let ?os = "\<lparr>sys_block = Inr [''sda''], node_is_block = (\<lambda>p. Some True),
       smartctl_x = False, smartctl_run = (\<lambda>a. SmartHangs)\<rparr>"
  let ?err = "fail_line ''tool-missing'' SMARTCTL @ [CHR 0x0A]"
  have h: "fst (helper_main (\<lambda>b. None) ?os [''h'', ''smart-report'', ''sda'']) = HelperExit 1 [] ?err"
    by (simp add: helper_main_def device_node_def smart_report_verb_def fail_def)
  have v: "valid_utf8 ?err" by code_simp
  have line: "?err = ''lapcare-helper: '' @ ''tool-missing'' @ (if SMARTCTL = [] then [] else '': '' @ SMARTCTL) @ [CHR 0x0A]"
    by (simp add: fail_line_def)
  have "''tool-missing'' \<in> set helper_codes" by (simp add: helper_codes_def)
  from conjunct2 [OF provider_understands_helper [OF h v], rule_format, OF this line]
  have "smart_error (ToolFailed ''pkexec'' 1 (pytake 500 (decode_replace ?err))) =
      ProviderUnavailable SOURCE_STORAGE ToolMissing (Some ''smartmontools'')"
    unfolding if_P [OF refl] .
  with h show ?thesis by blast
qed

end
