(* ===== verification/PciUsb.thy ===== *)
theory PciUsb
  imports ToolRunner Ports
begin

text \<open>
  \<open>providers/pci_usb.py\<close>: the inventory of PCI and USB devices from the output of lspci and
  lsusb, run through the injected runner. \<open>shlex_split\<close> is the state machine of
  \<open>shlex.split\<close> (POSIX mode, no comments), \<open>usb_match\<close> the regular expression of the module.
\<close>

definition SOURCE_PCI :: string where "SOURCE_PCI = ''pci_usb''"

definition PACKAGES :: "(string \<times> string) list" where
  "PACKAGES = [(''lspci'', ''pciutils''), (''lsusb'', ''usbutils'')]"

section \<open>\<open>shlex.split\<close>\<close>

datatype sh_state =
    ShSpace
  | ShWord
  | ShQuote char
  | ShEscWord
  | ShEscQuote char

definition sh_space :: "char \<Rightarrow> bool" where
  "sh_space c \<longleftrightarrow> c = CHR '' '' \<or> c = CHR 0x09 \<or> c = CHR 0x0D \<or> c = CHR 0x0A"

definition sh_quote :: "char \<Rightarrow> bool" where
  "sh_quote c \<longleftrightarrow> c = CHR 0x22 \<or> c = CHR 0x27"

definition sh_escape :: "char \<Rightarrow> bool" where
  "sh_escape c \<longleftrightarrow> c = CHR 0x5C"

text \<open>The flag says that the current token was quoted, so that it counts even when empty.\<close>

fun shlex_run :: "sh_state \<Rightarrow> bool \<Rightarrow> string \<Rightarrow> string \<Rightarrow> string list option" where
  "shlex_run ShSpace q tok [] = Some (if tok = [] \<and> \<not> q then [] else [tok])"
| "shlex_run ShWord q tok [] = Some (if tok = [] \<and> \<not> q then [] else [tok])"
| "shlex_run (ShQuote d) q tok [] = None"
| "shlex_run ShEscWord q tok [] = None"
| "shlex_run (ShEscQuote d) q tok [] = None"
| "shlex_run ShSpace q tok (c # s) =
     (if sh_space c
      then (if tok \<noteq> [] \<or> q then map_option (Cons tok) (shlex_run ShSpace False [] s)
            else shlex_run ShSpace q tok s)
      else if sh_escape c then shlex_run ShEscWord q tok s
      else if sh_quote c then shlex_run (ShQuote c) True tok s
      else shlex_run ShWord q [c] s)"
| "shlex_run (ShQuote d) q tok (c # s) =
     (if c = d then shlex_run ShWord q tok s
      else if sh_escape c \<and> d = CHR 0x22 then shlex_run (ShEscQuote d) q tok s
      else shlex_run (ShQuote d) q (tok @ [c]) s)"
| "shlex_run ShEscWord q tok (c # s) = shlex_run ShWord q (tok @ [c]) s"
| "shlex_run (ShEscQuote d) q tok (c # s) =
     shlex_run (ShQuote d) q (tok @ (if \<not> sh_escape c \<and> c \<noteq> d then [CHR 0x5C, c] else [c])) s"
| "shlex_run ShWord q tok (c # s) =
     (if sh_space c
      then (if tok \<noteq> [] \<or> q then map_option (Cons tok) (shlex_run ShSpace False [] s)
            else shlex_run ShSpace q tok s)
      else if sh_quote c then shlex_run (ShQuote c) True tok s
      else if sh_escape c then shlex_run ShEscWord q tok s
      else shlex_run ShWord q (tok @ [c]) s)"

definition shlex_split :: "string \<Rightarrow> string list option" where
  "shlex_split s = shlex_run ShSpace False [] s"

section \<open>The provider\<close>

definition tools_availability :: "(string \<Rightarrow> bool) \<Rightarrow> availability" where
  "tools_availability x_ok =
     (if list_ex (\<lambda>tool. list_ex x_ok (case dict_get tool ALLOWED_TOOLS of None \<Rightarrow> [] | Some cs \<Rightarrow> cs))
           [''lspci'', ''lsusb'']
      then AvailOK else ToolMissing)"

definition DEFAULT_TIMEOUT :: rat where "DEFAULT_TIMEOUT = 10"

fun pci_error :: "string \<Rightarrow> tool_error \<Rightarrow> exn" where
  "pci_error tool (ToolNotFound _) = ProviderUnavailable SOURCE_PCI ToolMissing (dict_get tool PACKAGES)"
| "pci_error tool (ToolTimeout t s) = ProviderTimeout SOURCE_PCI (tool_error_str (ToolTimeout t s))"
| "pci_error tool (ToolFailed _ rc _) = ProviderParseError SOURCE_PCI (tool @ '' exited '' @ show_int rc)"
| "pci_error tool (ToolKeyError k) = PyException ''KeyError'' k"
| "pci_error tool (ToolOSError msg) = PyException ''OSError'' msg"

definition run_translated :: "'w runner \<Rightarrow> string \<Rightarrow> string list \<Rightarrow> ('w, string) io" where
  "run_translated runner tool args = (\<lambda>w.
     case runner tool args DEFAULT_TIMEOUT w of
       (Inl e, w') \<Rightarrow> (Inl (pci_error tool e), w')
     | (Inr out, w') \<Rightarrow> (Inr out, w'))"

definition pci_line :: "string \<Rightarrow> pci_device option" where
  "pci_line line =
     (if strip line = [] then None
      else case shlex_split line of
             None \<Rightarrow> None
           | Some tokens \<Rightarrow>
               (case (tokens, filter (\<lambda>t. \<not> startswith t ''-'') (tl tokens)) of
                  (slot # _, a # b # c # _) \<Rightarrow>
                    Some \<lparr>pci_slot = slot, pci_device_class = Some a, pci_vendor = Some b,
                          pci_device_name = Some c\<rparr>
                | _ \<Rightarrow> None))"

definition parse_lines :: "(string \<Rightarrow> 'd option) \<Rightarrow> string \<Rightarrow> string \<Rightarrow> exn + 'd list" where
  "parse_lines f tool out =
     (let devices = List.map_filter f (splitlines out) in
      if devices = [] \<and> strip out \<noteq> []
      then Inl (ProviderParseError SOURCE_PCI (tool @ '' output had no parseable lines''))
      else Inr devices)"

definition list_pci :: "'w runner \<Rightarrow> ('w, pci_device list) io" where
  "list_pci runner =
     io_bind (run_translated runner ''lspci'' [''-mm'']) (\<lambda>out w. (parse_lines pci_line ''lspci'' out, w))"

definition expect :: "string \<Rightarrow> string \<Rightarrow> string option" where
  "expect p s = (if startswith s p then Some (drop (length p) s) else None)"

definition take_digits :: "string \<Rightarrow> (string \<times> string) option" where
  "take_digits s = (case span_digits s of (d, r) \<Rightarrow> if d = [] then None else Some (d, r))"

definition is_hex :: "char \<Rightarrow> bool" where
  "is_hex c \<longleftrightarrow> (let n = (of_char c :: nat) in 48 \<le> n \<and> n \<le> 57 \<or> 65 \<le> n \<and> n \<le> 70 \<or> 97 \<le> n \<and> n \<le> 102)"

definition take_hex4 :: "string \<Rightarrow> (string \<times> string) option" where
  "take_hex4 s = (if 4 \<le> length s \<and> list_all is_hex (take 4 s) then Some (take 4 s, drop 4 s) else None)"

definition usb_match :: "string \<Rightarrow> (string \<times> string \<times> string \<times> string \<times> string) option" where
  "usb_match s =
     (case expect ''Bus '' s of None \<Rightarrow> None | Some s1 \<Rightarrow>
     (case take_digits s1 of None \<Rightarrow> None | Some (bus, s2) \<Rightarrow>
     (case expect '' Device '' s2 of None \<Rightarrow> None | Some s3 \<Rightarrow>
     (case take_digits s3 of None \<Rightarrow> None | Some (dev, s4) \<Rightarrow>
     (case expect '': ID '' s4 of None \<Rightarrow> None | Some s5 \<Rightarrow>
     (case take_hex4 s5 of None \<Rightarrow> None | Some (vid, s6) \<Rightarrow>
     (case expect '':'' s6 of None \<Rightarrow> None | Some s7 \<Rightarrow>
     (case take_hex4 s7 of None \<Rightarrow> None | Some (pid, name) \<Rightarrow> Some (bus, dev, vid, pid, name)))))))))"

definition usb_line :: "string \<Rightarrow> usb_device option" where
  "usb_line line =
     (if strip line = [] then None
      else case usb_match (strip line) of
             None \<Rightarrow> None
           | Some (bus, dev, vid, pid, name) \<Rightarrow>
               Some \<lparr>usb_bus = bus, usb_device_no = Some dev, usb_vendor_id = Some (lower vid),
                     usb_product_id = Some (lower pid), usb_name = or_none (strip name)\<rparr>)"

definition list_usb :: "'w runner \<Rightarrow> ('w, usb_device list) io" where
  "list_usb runner =
     io_bind (run_translated runner ''lsusb'' []) (\<lambda>out w. (parse_lines usb_line ''lsusb'' out, w))"

section \<open>Errors, for every runner\<close>

context tool_runner
begin

lemma run_translated_errors:
  assumes "tool \<in> {''lspci'', ''lsusb''}" "run_translated runner tool args w = (Inl e, w')"
  shows "is_lapcare_error e \<or> is_os_error e"
proof -
  have "dict_get tool ALLOWED_TOOLS \<noteq> None" using assms(1) by (auto simp: ALLOWED_TOOLS_def)
  moreover obtain te where te: "runner tool args DEFAULT_TIMEOUT w = (Inl te, w')" and e: "e = pci_error tool te"
    using assms(2) by (auto simp: run_translated_def split: prod.splits sum.splits)
  ultimately show ?thesis by (elim failure_cases) (auto simp: e)
qed

lemma parsed_tool_errors:
  assumes "tool \<in> {''lspci'', ''lsusb''}"
    and "io_bind (run_translated runner tool args) (\<lambda>out w. (parse_lines f tool out, w)) w = (Inl e, w')"
  shows "is_lapcare_error e \<or> is_os_error e"
proof (cases "run_translated runner tool args w")
  case (Pair r v)
  show ?thesis
  proof (cases r)
    case (Inl e')
    with Pair assms(2) have "run_translated runner tool args w = (Inl e, w')" by (simp add: io_bind_def)
    then show ?thesis by (rule run_translated_errors [OF assms(1)])
  next
    case (Inr out)
    with Pair assms(2) have "parse_lines f tool out = Inl e" by (simp add: io_bind_def)
    then show ?thesis by (auto simp: parse_lines_def Let_def split: if_splits)
  qed
qed

lemma list_pci_errors: "list_pci runner w = (Inl e, w') \<Longrightarrow> is_lapcare_error e \<or> is_os_error e"
  unfolding list_pci_def by (rule parsed_tool_errors) simp_all

lemma list_usb_errors: "list_usb runner w = (Inl e, w') \<Longrightarrow> is_lapcare_error e \<or> is_os_error e"
  unfolding list_usb_def by (rule parsed_tool_errors) simp_all

end

section \<open>Reading what lspci writes\<close>

definition pci_field :: "string \<Rightarrow> bool" where
  "pci_field s \<longleftrightarrow> \<not> startswith s ''-'' \<and> (\<forall>c\<in>set s. c \<noteq> CHR 0x22 \<and> c \<noteq> CHR 0x5C)"

definition pci_slot_text :: "string \<Rightarrow> bool" where
  "pci_slot_text s \<longleftrightarrow> s \<noteq> [] \<and> (\<forall>c\<in>set s. \<not> sh_space c \<and> \<not> sh_quote c \<and> \<not> sh_escape c)"

definition quoted :: "string \<Rightarrow> string" where
  "quoted s = CHR '' '' # CHR 0x22 # s @ [CHR 0x22]"

definition lspci_line :: "string \<Rightarrow> string list \<Rightarrow> string" where
  "lspci_line slot flds = slot @ concat (List.map quoted flds)"

lemma shlex_word:
  "\<forall>c\<in>set s. \<not> sh_space c \<and> \<not> sh_quote c \<and> \<not> sh_escape c \<Longrightarrow>
   shlex_run ShWord q tok (s @ t) = shlex_run ShWord q (tok @ s) t"
  by (induction s arbitrary: tok) auto

lemma shlex_quote:
  "\<forall>c\<in>set s. c \<noteq> CHR 0x22 \<and> c \<noteq> CHR 0x5C \<Longrightarrow>
   shlex_run (ShQuote (CHR 0x22)) q tok (s @ CHR 0x22 # t) = shlex_run ShWord q (tok @ s) t"
  by (induction s arbitrary: tok) (auto simp: sh_escape_def)

lemma shlex_fields:
  "\<forall>f\<in>set flds. \<forall>c\<in>set f. c \<noteq> CHR 0x22 \<and> c \<noteq> CHR 0x5C \<Longrightarrow> tok \<noteq> [] \<or> q \<Longrightarrow>
   shlex_run ShWord q tok (concat (List.map quoted flds)) = Some (tok # flds)"
proof (induction flds arbitrary: q tok)
  case (Cons f flds)
  have "shlex_run (ShQuote CHR 0x22) True [] (f @ CHR 0x22 # concat (List.map quoted flds)) =
      shlex_run ShWord True f (concat (List.map quoted flds))"
    using shlex_quote [of f True "[]"] Cons.prems by simp
  also have "\<dots> = Some (f # flds)" using Cons by simp
  finally have quote: "shlex_run (ShQuote CHR 0x22) True [] (f @ CHR 0x22 # concat (List.map quoted flds)) = Some (f # flds)" .
  have "concat (List.map quoted (f # flds)) = CHR '' '' # CHR 0x22 # f @ CHR 0x22 # concat (List.map quoted flds)"
    by (simp add: quoted_def)
  moreover have "sh_space (CHR '' '')" "\<not> sh_space (CHR 0x22)" "\<not> sh_escape (CHR 0x22)" "sh_quote (CHR 0x22)"
    by (simp_all add: sh_space_def sh_escape_def sh_quote_def)
  ultimately show ?case using Cons.prems(2) quote by simp
qed auto

lemma shlex_lspci:
  assumes "pci_slot_text slot" "\<forall>f\<in>set flds. pci_field f"
  shows "shlex_split (lspci_line slot flds) = Some (slot # flds)"
proof -
  obtain c s where s: "slot = c # s" using assms(1) by (cases slot) (auto simp: pci_slot_text_def)
  have "shlex_run ShSpace False [] (slot @ t) = shlex_run ShWord False slot t" for t
    using assms(1) shlex_word [of s False "[c]" t] by (simp add: s pci_slot_text_def)
  then show ?thesis
    using shlex_fields [of flds slot False] assms
    by (simp add: shlex_split_def lspci_line_def pci_field_def s)
qed

section \<open>Properties\<close>

text \<open>The parser of \<open>lspci -mm\<close> reads back what lspci writes: from a slot and quoted fields it
  recovers the slot, the class, the vendor and the device, whatever flds follow and
  whatever spaces, apostrophes or other characters (but quotes and backslashes) they hold.\<close>

theorem pci_line_roundtrip:
  assumes "pci_slot_text slot" "\<forall>f\<in>set (a # b # c # rest). pci_field f"
    and "strip (lspci_line slot (a # b # c # rest)) \<noteq> []"
  shows "pci_line (lspci_line slot (a # b # c # rest)) =
    Some \<lparr>pci_slot = slot, pci_device_class = Some a, pci_vendor = Some b, pci_device_name = Some c\<rparr>"
proof -
  have "filter (\<lambda>t. \<not> startswith t ''-'') (a # b # c # rest) = a # b # c # rest"
    using assms(2) by (auto simp: pci_field_def filter_id_conv)
  then show ?thesis
    using shlex_lspci [OF assms(1,2)] assms(3) by (simp add: pci_line_def)
qed

theorem pci_line_roundtrip_witness:
  "pci_line (lspci_line ''00:02.0'' [''VGA'', ''Intel Corp'', ''Device 7d55'']) =
    Some \<lparr>pci_slot = ''00:02.0'', pci_device_class = Some ''VGA'', pci_vendor = Some ''Intel Corp'',
          pci_device_name = Some ''Device 7d55''\<rparr>"
proof (rule pci_line_roundtrip)
  show "pci_slot_text ''00:02.0''" "\<forall>f\<in>set [''VGA'', ''Intel Corp'', ''Device 7d55'']. pci_field f"
    "strip (lspci_line ''00:02.0'' [''VGA'', ''Intel Corp'', ''Device 7d55'']) \<noteq> []"
    by code_simp+
qed

text \<open>The inventory fails only with a Lapcare error, or the refusal of the operating system to start
  the tool; output that is all unparseable is an error and empty output is an empty list.\<close>

theorem pci_usb_errors:
  "(case fst (list_pci run_tool w) of Inl e \<Rightarrow> is_lapcare_error e \<or> is_os_error e
    | Inr ds \<Rightarrow> \<exists>out. fst (run_tool ''lspci'' [''-mm''] DEFAULT_TIMEOUT w) = Inr out \<and> (strip out = [] \<or> ds \<noteq> [])) \<and>
   (case fst (list_usb run_tool w) of Inl e \<Rightarrow> is_lapcare_error e \<or> is_os_error e
    | Inr ds \<Rightarrow> \<exists>out. fst (run_tool ''lsusb'' [] DEFAULT_TIMEOUT w) = Inr out \<and> (strip out = [] \<or> ds \<noteq> []))"
proof -
  have ok: "strip out = [] \<or> ds \<noteq> []" if "parse_lines f t out = Inr ds" for f :: "string \<Rightarrow> 'd option" and t out ds
    using that by (auto simp: parse_lines_def Let_def split: if_splits)
  have "case fst (list_pci run_tool w) of Inl e \<Rightarrow> is_lapcare_error e \<or> is_os_error e
    | Inr ds \<Rightarrow> \<exists>out. fst (run_tool ''lspci'' [''-mm''] DEFAULT_TIMEOUT w) = Inr out \<and> (strip out = [] \<or> ds \<noteq> [])"
    using rt.list_pci_errors [of w] ok [of pci_line]
    by (auto simp: list_pci_def io_bind_def run_translated_def split: prod.splits sum.splits)
  moreover have "case fst (list_usb run_tool w) of Inl e \<Rightarrow> is_lapcare_error e \<or> is_os_error e
    | Inr ds \<Rightarrow> \<exists>out. fst (run_tool ''lsusb'' [] DEFAULT_TIMEOUT w) = Inr out \<and> (strip out = [] \<or> ds \<noteq> [])"
    using rt.list_usb_errors [of w] ok [of usb_line]
    by (auto simp: list_usb_def io_bind_def run_translated_def split: prod.splits sum.splits)
  ultimately show ?thesis by blast
qed

end
