(* ===== verification/ReportJson.thy ===== *)
theory ReportJson
  imports Json Diagnostics
begin

text \<open>
  \<open>core/report.py\<close>: the machine-readable report. \<open>report_doc\<close> is the document handed to
  \<open>json.dumps\<close>, \<open>to_json\<close> its text. The lemmas show what the text says when it is read
  back, that identifiers cannot reach it, and what building a dict from the metrics of a
  check keeps of them.
\<close>

definition SCHEMA_VERSION :: int where "SCHEMA_VERSION = 1"

fun opt_json :: "string option \<Rightarrow> json" where
  "opt_json None = JNull"
| "opt_json (Some s) = JStr s"

definition system_doc :: "system_identity option \<Rightarrow> os_info option \<Rightarrow> (string \<times> json) list" where
  "system_doc identity os =
     (case identity of
        None \<Rightarrow> []
      | Some i \<Rightarrow> [(''model'', opt_json (si_product_family i)),
                   (''machine_type'', opt_json (si_product_name i)),
                   (''vendor'', opt_json (si_vendor i)),
                   (''bios_version'', opt_json (si_bios_version i))]) @
     (case os of
        None \<Rightarrow> []
      | Some s \<Rightarrow> [(''os'', opt_json (os_distro_name s)), (''kernel'', opt_json (os_kernel s))])"

definition metrics_doc :: "metrics \<Rightarrow> (string \<times> json) list" where
  "metrics_doc ms = dict_of (List.map (\<lambda>(k, v). (k, JStr v)) ms)"

definition check_doc :: "diagnostic_result \<Rightarrow> json" where
  "check_doc r =
     JObj [(''id'', JStr (dr_check_id r)),
           (''status'', JStr (check_status_value (dr_status r))),
           (''confidence'', JStr (confidence_value (dr_confidence r))),
           (''skip_code'', opt_json (or_none (dr_skip_code r))),
           (''metrics'', JObj (metrics_doc (dr_metrics r)))]"

definition report_doc ::
  "string \<Rightarrow> string \<Rightarrow> system_identity option \<Rightarrow> os_info option \<Rightarrow> diagnostics_report \<Rightarrow> json" where
  "report_doc generated app_version identity os diagnostics =
     JObj [(''lapcare_report'', JInt SCHEMA_VERSION),
           (''generated'', JStr generated),
           (''app_version'', JStr app_version),
           (''redacted'', JBool True),
           (''system'', JObj (system_doc identity os)),
           (''diagnostics'', JObj
              [(''score'', case rep_score diagnostics of None \<Rightarrow> JNull | Some n \<Rightarrow> JInt n),
               (''measured'', JInt (rep_measured diagnostics)),
               (''total'', JInt (rep_total diagnostics)),
               (''checks'', JArr (List.map check_doc (rep_results diagnostics)))])]"

definition to_json ::
  "string \<Rightarrow> string \<Rightarrow> system_identity option \<Rightarrow> os_info option \<Rightarrow> diagnostics_report \<Rightarrow> string" where
  "to_json generated app_version identity os diagnostics =
     dumps (report_doc generated app_version identity os diagnostics) @ [CHR 0x0A]"

lemma metrics_doc_get:
  "dict_get k (metrics_doc ms) =
     (if metric_values k ms = [] then None else Some (JStr (last (metric_values k ms))))"
proof -
  have "List.map snd (filter (\<lambda>kv. fst kv = k) (List.map (\<lambda>(k, v). (k, JStr v)) ms)) =
      List.map JStr (metric_values k ms)"
    by (induction ms) (auto simp: metric_values_def)
  then show ?thesis by (simp add: metrics_doc_def dict_get_of Let_def last_map)
qed

section \<open>The document can be written and read back\<close>

definition text_ok :: "string option \<Rightarrow> bool" where
  "text_ok s \<longleftrightarrow> (case s of None \<Rightarrow> True | Some t \<Rightarrow> valid_utf8 t)"

definition identity_ok :: "system_identity \<Rightarrow> bool" where
  "identity_ok i \<longleftrightarrow> text_ok (si_product_family i) \<and> text_ok (si_product_name i) \<and> text_ok (si_vendor i) \<and>
     text_ok (si_bios_version i)"

definition result_ok :: "diagnostic_result \<Rightarrow> bool" where
  "result_ok r \<longleftrightarrow> valid_utf8 (dr_check_id r) \<and> valid_utf8 (dr_skip_code r) \<and>
     (\<forall>(k, v)\<in>set (dr_metrics r). valid_utf8 k \<and> valid_utf8 v)"

definition report_ok :: "diagnostics_report \<Rightarrow> bool" where
  "report_ok d \<longleftrightarrow> (\<forall>r\<in>set (rep_results d). result_ok r) \<and> short_int (rep_measured d) \<and> short_int (rep_total d) \<and>
     (case rep_score d of None \<Rightarrow> True | Some n \<Rightarrow> short_int n)"

lemma writable_opt [simp]: "writable (opt_json s) = text_ok s"
  by (cases s) (simp_all add: text_ok_def)

lemma valid_keys:
  "valid_utf8 ''lapcare_report''" "valid_utf8 ''generated''" "valid_utf8 ''app_version''" "valid_utf8 ''redacted''"
  "valid_utf8 ''system''" "valid_utf8 ''diagnostics''" "valid_utf8 ''score''" "valid_utf8 ''measured''"
  "valid_utf8 ''total''" "valid_utf8 ''checks''" "valid_utf8 ''id''" "valid_utf8 ''status''"
  "valid_utf8 ''confidence''" "valid_utf8 ''skip_code''" "valid_utf8 ''metrics''" "valid_utf8 ''model''"
  "valid_utf8 ''machine_type''" "valid_utf8 ''vendor''" "valid_utf8 ''bios_version''" "valid_utf8 ''os''"
  "valid_utf8 ''kernel''"
  by code_simp+

lemma valid_status: "valid_utf8 (check_status_value s)"
  by (cases s; simp only: check_status_value.simps; code_simp)

lemma valid_confidence: "valid_utf8 (confidence_value c)"
  by (cases c; simp only: confidence_value.simps; code_simp)

lemmas valid_values = valid_status valid_confidence

lemma writable_metrics:
  assumes "\<forall>(k, v)\<in>set ms. valid_utf8 k \<and> valid_utf8 v"
  shows "writable (JObj (metrics_doc ms))"
proof -
  let ?kvs = "List.map (\<lambda>(k, v). (k, JStr v)) ms"
  have "\<forall>kv\<in>set (metrics_doc ms). valid_utf8 (fst kv) \<and> writable (snd kv)"
  proof
    fix kv assume "kv \<in> set (metrics_doc ms)"
    then have "fst kv \<in> fst ` set ?kvs" "snd kv \<in> snd ` set ?kvs"
      using dict_of_keys [of ?kvs] dict_of_values [of ?kvs] unfolding metrics_doc_def by blast+
    with assms show "valid_utf8 (fst kv) \<and> writable (snd kv)" by fastforce
  qed
  then show ?thesis by (simp add: metrics_doc_def dict_of_distinct_keys)
qed

lemma writable_check: "result_ok r \<Longrightarrow> writable (check_doc r)"
  using writable_metrics [of "dr_metrics r"]
  by (auto simp: check_doc_def result_ok_def valid_keys valid_values text_ok_def or_none_def
      split: option.split simp del: valid_utf8.simps)

lemma writable_system:
  "(\<And>i. identity = Some i \<Longrightarrow> identity_ok i) \<Longrightarrow>
   (\<And>s. os = Some s \<Longrightarrow> text_ok (os_distro_name s) \<and> text_ok (os_kernel s)) \<Longrightarrow>
   writable (JObj (system_doc identity os))"
  by (cases identity; cases os)
     (simp_all add: system_doc_def identity_ok_def valid_keys del: valid_utf8.simps)

lemma writable_report:
  assumes "valid_utf8 generated" "valid_utf8 app_version" "report_ok d"
    "\<And>i. identity = Some i \<Longrightarrow> identity_ok i"
    "\<And>s. os = Some s \<Longrightarrow> text_ok (os_distro_name s) \<and> text_ok (os_kernel s)"
  shows "writable (report_doc generated app_version identity os d)"
proof -
  have sys: "writable (JObj (system_doc identity os))" using assms(4,5) by (rule writable_system)
  have ch: "\<forall>v\<in>set (List.map check_doc (rep_results d)). writable v"
    using assms(3) by (auto simp: report_ok_def writable_check)
  have sc: "writable (case rep_score d of None \<Rightarrow> JNull | Some n \<Rightarrow> JInt n)"
    using assms(3) by (auto simp: report_ok_def split: option.splits)
  have one: "short_int SCHEMA_VERSION" by (simp add: short_int_def SCHEMA_VERSION_def int_max_str_digits_def show_dec.simps)
  show ?thesis
    using assms(1-3) sys ch sc one
    by (simp add: report_doc_def report_ok_def valid_keys del: valid_utf8.simps set_map)
qed

section \<open>Reading the document\<close>

text \<open>
  A reader of the exported document that knows nothing of the writer: a value at a path of keys,
  a text or a number that may be null, and the words of the two enumerations as
  \<open>core/models.py\<close> spells them.
\<close>

fun doc_at :: "string list \<Rightarrow> json \<Rightarrow> json option" where
  "doc_at [] v = Some v"
| "doc_at (k # ks) (JObj kvs) = (case map_of kvs k of None \<Rightarrow> None | Some v \<Rightarrow> doc_at ks v)"
| "doc_at (k # ks) _ = None"

definition text_at :: "string list \<Rightarrow> json \<Rightarrow> string option option" where
  "text_at path v =
     (case doc_at path v of Some JNull \<Rightarrow> Some None | Some (JStr s) \<Rightarrow> Some (Some s) | _ \<Rightarrow> None)"

definition number_at :: "string list \<Rightarrow> json \<Rightarrow> int option option" where
  "number_at path v =
     (case doc_at path v of Some JNull \<Rightarrow> Some None | Some (JInt n) \<Rightarrow> Some (Some n) | _ \<Rightarrow> None)"

definition word_at :: "(string \<times> 'a) list \<Rightarrow> string list \<Rightarrow> json \<Rightarrow> 'a option" where
  "word_at words path v = (case doc_at path v of Some (JStr s) \<Rightarrow> map_of words s | _ \<Rightarrow> None)"

definition status_words :: "(string \<times> check_status) list" where
  "status_words = [(''ok'', StatusOK), (''warning'', Warning), (''critical'', Critical), (''skipped'', Skipped)]"

definition confidence_words :: "(string \<times> confidence) list" where
  "confidence_words = [(''high'', ConfHigh), (''medium'', ConfMedium), (''low'', ConfLow)]"

text \<open>The object of one check says of a result its id, status, confidence and skip code, and under
  each metric key the value recorded last.\<close>

definition check_reads :: "diagnostic_result \<Rightarrow> json \<Rightarrow> bool" where
  "check_reads r v \<longleftrightarrow>
     text_at [''id''] v = Some (Some (dr_check_id r)) \<and>
     word_at status_words [''status''] v = Some (dr_status r) \<and>
     word_at confidence_words [''confidence''] v = Some (dr_confidence r) \<and>
     text_at [''skip_code''] v = Some (if dr_skip_code r = [] then None else Some (dr_skip_code r)) \<and>
     (\<forall>k. text_at [''metrics'', k] v = map_option Some (map_of (rev (dr_metrics r)) k))"

lemma map_of_dict_get: "map_of kvs k = dict_get k kvs"
  by (induction kvs) auto

lemma map_of_metrics_doc: "map_of (metrics_doc ms) k = map_option JStr (map_of (rev ms) k)"
proof -
  have "map_of (rev ms) k =
      (if metric_values k ms = [] then None else Some (last (metric_values k ms)))"
    by (induction ms rule: rev_induct) (auto simp: metric_values_def)
  then show ?thesis by (simp add: map_of_dict_get [of "metrics_doc ms"] metrics_doc_get)
qed

lemma status_word: "map_of status_words (check_status_value s) = Some s"
  by (cases s) (simp_all add: status_words_def)

lemma confidence_word: "map_of confidence_words (confidence_value c) = Some c"
  by (cases c) (simp_all add: confidence_words_def)

lemma text_opt_json: "text_at (k # ks) (JObj kvs) =
    (case map_of kvs k of None \<Rightarrow> None | Some v \<Rightarrow> text_at ks v)"
  "text_at [] (opt_json s) = Some s" "text_at [] (JStr t) = Some (Some t)"
  by (auto simp: text_at_def split: option.split) (cases s; simp)

lemma check_reads_doc: "check_reads r (check_doc r)"
  by (auto simp: check_reads_def check_doc_def word_at_def text_opt_json or_none_def status_word confidence_word
      map_of_metrics_doc split: option.split)

text \<open>Every metric of a check survives the export exactly when no key was recorded with two values.\<close>

lemma last_values_all:
  "(\<forall>(k, x)\<in>set ms. map_of (rev ms) k = Some x) \<longleftrightarrow> single_valued (set ms)"
proof
  assume all: "\<forall>(k, x)\<in>set ms. map_of (rev ms) k = Some x"
  show "single_valued (set ms)"
  proof (rule single_valuedI)
    fix k x y assume "(k, x) \<in> set ms" "(k, y) \<in> set ms"
    with all have "Some x = map_of (rev ms) k" "Some y = map_of (rev ms) k" by auto
    then show "x = y" by (metis option.inject)
  qed
next
  assume sv: "single_valued (set ms)"
  have "map_of (rev ms) k = Some x" if "(k, x) \<in> set ms" for k x
  proof -
    have "k \<in> fst ` set (rev ms)" using that by force
    then obtain y where y: "map_of (rev ms) k = Some y" by (metis map_of_eq_None_iff not_None_eq)
    then have "(k, y) \<in> set ms" by (auto dest: map_of_SomeD)
    with sv that y show ?thesis by (simp add: single_valued_def)
  qed
  then show "\<forall>(k, x)\<in>set ms. map_of (rev ms) k = Some x" by blast
qed

lemma check_reads_metrics:
  assumes "check_reads r v"
  shows "(\<forall>(k, x)\<in>set (dr_metrics r). text_at [''metrics'', k] v = Some (Some x)) \<longleftrightarrow>
    single_valued (set (dr_metrics r))"
  using assms by (simp add: check_reads_def last_values_all [symmetric] split_def)

lemma read_system:
  "text_at [''model''] (JObj (system_doc identity os)) = map_option si_product_family identity"
  "text_at [''machine_type''] (JObj (system_doc identity os)) = map_option si_product_name identity"
  "text_at [''vendor''] (JObj (system_doc identity os)) = map_option si_vendor identity"
  "text_at [''bios_version''] (JObj (system_doc identity os)) = map_option si_bios_version identity"
  "text_at [''os''] (JObj (system_doc identity os)) = map_option os_distro_name os"
  "text_at [''kernel''] (JObj (system_doc identity os)) = map_option os_kernel os"
  by (simp_all add: text_opt_json system_doc_def split: option.split)

lemma system_keys: "doc_at [k] (JObj (system_doc identity os)) \<noteq> None \<Longrightarrow>
    k \<in> {''model'', ''machine_type'', ''vendor'', ''bios_version'', ''os'', ''kernel''}"
  by (auto simp: system_doc_def split: option.splits if_splits)

section \<open>Properties\<close>

text \<open>C4: The exported text is JSON, and a reader that only knows the documented keys and words gets
  back from it, for well-formed text and counts: the time stamp and the version; the fields of
  the system the caller passed, none other and none for an absent part; the score, or null;
  the two counts; and per check, in order, its id, status, confidence and skip code.
  A metric key gives the value recorded last: all the metrics of a check survive exactly when it
  recorded no key with two values, so of several failing drives only one is exported.\<close>

theorem to_json_roundtrip:
  assumes "valid_utf8 generated" "valid_utf8 app_version" "report_ok d"
    "pred_option identity_ok identity" "pred_option (\<lambda>s. text_ok (os_distro_name s) \<and> text_ok (os_kernel s)) os"
  shows "\<exists>v checks.
    loads (to_json generated app_version identity os d) = Some v \<and>
    doc_at [''lapcare_report''] v = Some (JInt 1) \<and>
    text_at [''generated''] v = Some (Some generated) \<and>
    text_at [''app_version''] v = Some (Some app_version) \<and>
    doc_at [''redacted''] v = Some (JBool True) \<and>
    text_at [''system'', ''model''] v = map_option si_product_family identity \<and>
    text_at [''system'', ''machine_type''] v = map_option si_product_name identity \<and>
    text_at [''system'', ''vendor''] v = map_option si_vendor identity \<and>
    text_at [''system'', ''bios_version''] v = map_option si_bios_version identity \<and>
    text_at [''system'', ''os''] v = map_option os_distro_name os \<and>
    text_at [''system'', ''kernel''] v = map_option os_kernel os \<and>
    (\<forall>k. doc_at [''system'', k] v \<noteq> None \<longrightarrow>
       k \<in> {''model'', ''machine_type'', ''vendor'', ''bios_version'', ''os'', ''kernel''}) \<and>
    number_at [''diagnostics'', ''score''] v = Some (rep_score d) \<and>
    number_at [''diagnostics'', ''measured''] v = Some (Some (rep_measured d)) \<and>
    number_at [''diagnostics'', ''total''] v = Some (Some (rep_total d)) \<and>
    doc_at [''diagnostics'', ''checks''] v = Some (JArr checks) \<and>
    list_all2 check_reads (rep_results d) checks \<and>
    list_all2 (\<lambda>r c. (\<forall>(k, x)\<in>set (dr_metrics r). text_at [''metrics'', k] c = Some (Some x)) \<longleftrightarrow>
      single_valued (set (dr_metrics r))) (rep_results d) checks"
proof (intro exI conjI)
  let ?v = "report_doc generated app_version identity os d"
  let ?checks = "List.map check_doc (rep_results d)"
  show "loads (to_json generated app_version identity os d) = Some ?v"
    unfolding to_json_def using assms
    by (intro loads_dumps_at writable_report) (auto simp: option.pred_set)
  show "list_all2 check_reads (rep_results d) ?checks"
    by (simp add: list_all2_conv_all_nth check_reads_doc)
  then show "list_all2 (\<lambda>r c. (\<forall>(k, x)\<in>set (dr_metrics r). text_at [''metrics'', k] c = Some (Some x)) \<longleftrightarrow>
      single_valued (set (dr_metrics r))) (rep_results d) ?checks"
    by (rule list_all2_mono) (rule check_reads_metrics)
  show "\<forall>k. doc_at [''system'', k] ?v \<noteq> None \<longrightarrow>
      k \<in> {''model'', ''machine_type'', ''vendor'', ''bios_version'', ''os'', ''kernel''}"
    using system_keys [of _ identity os] by (simp add: report_doc_def)
qed (simp_all add: report_doc_def SCHEMA_VERSION_def number_at_def text_opt_json
    read_system [unfolded text_opt_json(1)] split: option.split)

theorem to_json_roundtrip_witness:
  "\<exists>v checks. loads (to_json ''2026-01-01'' ''0.9'' None (Some (blank_os\<lparr>os_distro_name := Some ''Ubuntu''\<rparr>))
      \<lparr>rep_results = [skipped ''thermal'' ''no-data''], rep_score = None, rep_measured = 0, rep_total = 1\<rparr>) = Some v \<and>
    text_at [''system'', ''model''] v = None \<and> text_at [''system'', ''os''] v = Some (Some ''Ubuntu'') \<and>
    number_at [''diagnostics'', ''score''] v = Some None \<and> number_at [''diagnostics'', ''measured''] v = Some (Some 0) \<and>
    number_at [''diagnostics'', ''total''] v = Some (Some 1) \<and>
    doc_at [''diagnostics'', ''checks''] v = Some (JArr checks) \<and>
    List.map (word_at status_words [''status'']) checks = [Some Skipped]"
proof -
  let ?os = "blank_os\<lparr>os_distro_name := Some ''Ubuntu''\<rparr>"
  let ?d = "\<lparr>rep_results = [skipped ''thermal'' ''no-data''], rep_score = None, rep_measured = 0, rep_total = 1\<rparr>"
  have os: "pred_option (\<lambda>s. text_ok (os_distro_name s) \<and> text_ok (os_kernel s)) (Some ?os)"
    unfolding option.pred_inject by code_simp
  have none: "pred_option identity_ok None" by simp
  have "valid_utf8 ''2026-01-01''" "valid_utf8 ''0.9''" "report_ok ?d" by code_simp+
  from to_json_roundtrip [OF this none os] show ?thesis
  proof (elim exE conjE)
    fix v checks
    assume "loads (to_json ''2026-01-01'' ''0.9'' None (Some ?os) ?d) = Some v"
      and sys: "text_at [''system'', ''model''] v = map_option si_product_family None"
        "text_at [''system'', ''os''] v = map_option os_distro_name (Some ?os)"
      and diag: "number_at [''diagnostics'', ''score''] v = Some (rep_score ?d)"
        "number_at [''diagnostics'', ''measured''] v = Some (Some (rep_measured ?d))"
        "number_at [''diagnostics'', ''total''] v = Some (Some (rep_total ?d))"
      and "doc_at [''diagnostics'', ''checks''] v = Some (JArr checks)"
      and cs: "list_all2 check_reads (rep_results ?d) checks"
    moreover have "List.map (word_at status_words [''status'']) checks = [Some Skipped]"
      using cs by (auto simp: list_all2_Cons1 check_reads_def skipped_def)
    ultimately show ?thesis using sys diag by (intro exI [of _ v] exI [of _ checks]) simp
  qed
qed

text \<open>Identifiers cannot reach the export: the text does not depend on the serial number, nor
  on the board, the firmware date or the host name, whatever their values.\<close>

theorem to_json_redacted:
  "to_json generated app_version (map_option (\<lambda>i. i\<lparr>si_serial := serial, si_board_name := board, si_bios_date := date\<rparr>) identity)
     (map_option (\<lambda>s. s\<lparr>os_hostname := host, os_uptime_seconds := uptime\<rparr>) os) d =
   to_json generated app_version identity os d"
  by (simp add: to_json_def report_doc_def system_doc_def split: option.split)

text \<open>The metrics object of an exported check keeps one value per key, the last. Of several drives
  whose self-assessment failed, the export names only the last one, although the check
  reported them all.\<close>

theorem report_names_only_last_failing:
  assumes "failing = List.map sr_device_name (filter (\<lambda>x. sr_passed x = Some False) rs)" "failing \<noteq> []"
  shows "metric_values ''failing_device'' (dr_metrics (check_storage_health (Some rs) k)) = failing \<and>
    dict_get ''failing_device'' (metrics_doc (dr_metrics (check_storage_health (Some rs) k))) =
      Some (JStr (last failing)) \<and>
    distinct (List.map fst (metrics_doc (dr_metrics (check_storage_health (Some rs) k))))"
proof -
  have "rs \<noteq> []" using assms by auto
  with assms check_storage_health_eq(3) [of rs k] show ?thesis
    by (simp add: metrics_doc_get) (simp add: metrics_doc_def dict_of_distinct_keys)
qed

theorem report_names_only_last_failing_witness:
  "dict_get ''failing_device'' (metrics_doc (dr_metrics (check_storage_health
     (Some [(blank_smart ''sda'')\<lparr>sr_passed := Some False\<rparr>, (blank_smart ''sdb'')\<lparr>sr_passed := Some False\<rparr>]) []))) =
   Some (JStr ''sdb'')"
  using report_names_only_last_failing [of "[''sda'', ''sdb'']"
      "[(blank_smart ''sda'')\<lparr>sr_passed := Some False\<rparr>, (blank_smart ''sdb'')\<lparr>sr_passed := Some False\<rparr>]" "[]"]
  by (simp add: blank_smart_def)

end
