(* ===== verification/ReportWriter.thy ===== *)
theory ReportWriter
  imports Models
begin

text \<open>
  \<open>platform/report.py\<close>: writing an export through a temporary file in the target directory
  and a rename. The file system is a map from paths to contents and modes. Where an
  operation of the operating system may fail is data (\<open>faults\<close>), so every interleaving of
  failures is a value the lemmas quantify over.
\<close>

type_synonym files = "string \<Rightarrow> (bytes \<times> nat) option"

record faults =
  mkstemp_suffix :: "string option"
  write_fails_after :: "nat option"
  replace_fails :: bool
  unlink_fails :: bool
  chmod_fails :: bool

definition os_error :: "string \<Rightarrow> exn" where
  "os_error what = PyException ''OSError'' what"

text \<open>\<open>os.path.dirname\<close>: up to the last slash, trailing slashes dropped unless there is nothing else.\<close>

definition dirname :: "string \<Rightarrow> string" where
  "dirname p =
     (let head = rev (dropWhile (\<lambda>c. c \<noteq> CHR ''/'') (rev p));
          trimmed = rdropWhile (\<lambda>c. c = CHR ''/'') head
      in if trimmed = [] then head else trimmed)"

definition temp_path :: "string \<Rightarrow> string \<Rightarrow> string" where
  "temp_path path rnd =
     (let d = (if dirname path = [] then ''.'' else dirname path)
      in (if endswith d ''/'' then d else d @ ''/'') @ ''.lapcare-export-'' @ rnd)"

definition write_content :: "faults \<Rightarrow> string \<Rightarrow> string \<Rightarrow> files \<Rightarrow> exn option \<times> files" where
  "write_content f temp content fs =
     (if \<not> valid_utf8 content then (Some (PyException ''UnicodeEncodeError'' []), fs)
      else case write_fails_after f of
             None \<Rightarrow> (None, fs(temp \<mapsto> (content, 384)))
           | Some n \<Rightarrow> (Some (os_error ''write''), fs(temp \<mapsto> (take n content, 384))))"

definition cleanup :: "faults \<Rightarrow> string \<Rightarrow> files \<Rightarrow> files" where
  "cleanup f temp fs = (if unlink_fails f then fs else fs(temp := None))"

definition write_report :: "faults \<Rightarrow> string \<Rightarrow> string \<Rightarrow> files \<Rightarrow> exn option \<times> files" where
  "write_report f path content fs =
     (case mkstemp_suffix f of
        None \<Rightarrow> (Some (os_error ''mkstemp''), fs)
      | Some rnd \<Rightarrow>
          let temp = temp_path path rnd; fs0 = fs(temp \<mapsto> ([], 384)) in
          (case write_content f temp content fs0 of
             (Some e, fs1) \<Rightarrow>
               if is_os_error e then (Some e, cleanup f temp fs1) else (Some e, fs1)
           | (None, fs1) \<Rightarrow>
               if replace_fails f then (Some (os_error ''replace''), cleanup f temp fs1)
               else let fs2 = (fs1(path := fs1 temp))(temp := None)
                    in if chmod_fails f then (Some (os_error ''chmod''), fs2)
                       else (None, fs2(path \<mapsto> (content, 420)))))"

section \<open>Properties\<close>

text \<open>C21: A document at the chosen name is never half-written: wherever the operation fails, the
  name holds either what it held before or the whole new document, success means the new
  document with mode 0644, and no other file changes except a temporary one, which a failed
  write leaves behind only if removing it failed.\<close>

theorem write_atomic:
  assumes "mkstemp_suffix f = Some rnd" "fs (temp_path path rnd) = None" "temp_path path rnd \<noteq> path"
    and "valid_utf8 content" "write_report f path content fs = (err, fs')"
  shows "(fs' path = fs path \<or> (\<exists>mode. fs' path = Some (content, mode))) \<and>
    (err = None \<longrightarrow> fs' = fs(path \<mapsto> (content, 420))) \<and>
    (\<forall>p. p \<noteq> path \<and> p \<noteq> temp_path path rnd \<longrightarrow> fs' p = fs p) \<and>
    (fs' (temp_path path rnd) \<noteq> None \<longrightarrow> unlink_fails f)"
proof -
  define t where "t = temp_path path rnd"
  have o: "is_os_error (os_error w)" for w by (simp add: os_error_def)
  have t: "fs t = None" "t \<noteq> path" "path \<noteq> t" using assms by (auto simp: t_def)
  have w: "write_report f path content fs =
      (case write_fails_after f of
         Some n \<Rightarrow> (Some (os_error ''write''), cleanup f t (fs(t \<mapsto> (take n content, 384))))
       | None \<Rightarrow>
           if replace_fails f then (Some (os_error ''replace''), cleanup f t (fs(t \<mapsto> (content, 384))))
           else if chmod_fails f then (Some (os_error ''chmod''), fs(path \<mapsto> (content, 384), t := None))
           else (None, fs(path \<mapsto> (content, 384), t := None, path \<mapsto> (content, 420))))"
    using assms(1,4) t
    by (simp add: write_report_def write_content_def Let_def o fun_upd_twist flip: t_def split: option.split)
  have last: "fs(path \<mapsto> (content, 384), t := None, path \<mapsto> (content, 420)) = fs(path \<mapsto> (content, 420))"
    using t by (auto simp: fun_eq_iff)
  show ?thesis using assms(5) t unfolding w last t_def [symmetric]
    by (auto simp: cleanup_def split: option.splits if_splits)
qed

theorem write_atomic_witness:
  "fst (write_report \<lparr>mkstemp_suffix = Some ''x'', write_fails_after = Some 3, replace_fails = False,
       unlink_fails = False, chmod_fails = False\<rparr> ''/tmp/r.json'' ''report'' (\<lambda>p. None)) = Some (os_error ''write'') \<and>
   snd (write_report \<lparr>mkstemp_suffix = Some ''x'', write_fails_after = Some 3, replace_fails = False,
       unlink_fails = False, chmod_fails = False\<rparr> ''/tmp/r.json'' ''report'' (\<lambda>p. None)) ''/tmp/.lapcare-export-x'' = None"
proof -
  let ?f = "\<lparr>mkstemp_suffix = Some ''x'', write_fails_after = Some 3, replace_fails = False,
       unlink_fails = False, chmod_fails = False\<rparr>"
  have t: "temp_path ''/tmp/r.json'' ''x'' = ''/tmp/.lapcare-export-x''" "valid_utf8 ''report''" by code_simp+
  have e: "fst (write_report ?f ''/tmp/r.json'' ''report'' (\<lambda>p. None)) = Some (os_error ''write'')"
    using t(2) by (simp add: write_report_def write_content_def Let_def os_error_def)
  let ?r = "write_report ?f ''/tmp/r.json'' ''report'' (\<lambda>p. None)"
  have "snd ?r (temp_path ''/tmp/r.json'' ''x'') \<noteq> None \<longrightarrow> unlink_fails ?f"
  proof -
    have 1: "mkstemp_suffix ?f = Some ''x''" by simp
    have 2: "temp_path ''/tmp/r.json'' ''x'' \<noteq> ''/tmp/r.json''" unfolding t(1) by simp
    have 3: "?r = (fst ?r, snd ?r)" by (rule prod.collapse [symmetric])
    from write_atomic [OF 1 refl 2 t(2) 3] show ?thesis by (elim conjE)
  qed
  then have "snd ?r ''/tmp/.lapcare-export-x'' = None" unfolding t(1) by (simp only: faults.select_convs) blast
  with e show ?thesis by blast
qed

end
