(* ===== verification/FirmwarePolicy.thy ===== *)
theory FirmwarePolicy
  imports Models
begin

text \<open>\<open>core/firmware_policy.py\<close>: the battery precondition checked before an install is offered.\<close>

definition UNKNOWN_BATTERY_LEVEL :: int where
  "UNKNOWN_BATTERY_LEVEL = 101"

definition battery_ok_for_update :: "int option \<Rightarrow> int option \<Rightarrow> bool" where
  "battery_ok_for_update battery_level threshold =
     (case battery_level of
        None \<Rightarrow> True
      | Some level \<Rightarrow>
          if UNKNOWN_BATTERY_LEVEL \<le> level then True
          else (case threshold of None \<Rightarrow> True | Some t \<Rightarrow> t \<le> level))"

text \<open>An update is blocked exactly when both values are known and the level is below the threshold.\<close>

lemma battery_blocked_iff:
  "\<not> battery_ok_for_update l t \<longleftrightarrow>
   (\<exists>level threshold. l = Some level \<and> t = Some threshold \<and>
      level < UNKNOWN_BATTERY_LEVEL \<and> level < threshold)"
  by (cases l; cases t) (auto simp: battery_ok_for_update_def)

lemma battery_ok_mono:
  "battery_ok_for_update (Some l) t \<Longrightarrow> l \<le> l' \<Longrightarrow> battery_ok_for_update (Some l') t"
  by (cases t) (auto simp: battery_ok_for_update_def split: if_splits)

end
