(* ===== verification/History.thy ===== *)
theory History
  imports Ports
begin

text \<open>
  \<open>platform/history.py\<close>: the wear history, one row per day and battery. The table is the
  association list of its primary key; \<open>db_fault\<close> is what SQLite answers when the file
  cannot be opened or written (a locked, corrupt or read-only database). An integer that
  does not fit SQLite's 64 bits is refused by the driver before the statement runs.
\<close>

record history_db =
  db_rows :: "((string \<times> string) \<times> wear_snapshot) list"
  db_fault :: "string option"

definition sqlite_error :: "string \<Rightarrow> exn" where
  "sqlite_error msg = PyException ''OperationalError'' msg"

definition overflow_error :: exn where
  "overflow_error = PyException ''OverflowError'' ''Python int too large to convert to SQLite INTEGER''"

definition sqlite_int :: "int option \<Rightarrow> bool" where
  "sqlite_int n \<longleftrightarrow> (case n of None \<Rightarrow> True | Some i \<Rightarrow> - (2 ^ 63) \<le> i \<and> i < 2 ^ 63)"

definition snapshot_binds :: "wear_snapshot \<Rightarrow> bool" where
  "snapshot_binds s \<longleftrightarrow>
     sqlite_int (ws_cycle_count s) \<and> sqlite_int (ws_capacity_full s) \<and> sqlite_int (ws_capacity_design s)"

definition row_key :: "wear_snapshot \<Rightarrow> string \<times> string" where
  "row_key s = (ws_day s, ws_battery_name s)"

definition record_wear :: "wear_snapshot \<Rightarrow> ('x history_db_scheme, unit) io" where
  "record_wear s = (\<lambda>w.
     case db_fault w of
       Some msg \<Rightarrow> (Inl (sqlite_error msg), w)
     | None \<Rightarrow>
         if snapshot_binds s then (Inr (), w\<lparr>db_rows := dict_set (row_key s) s (db_rows w)\<rparr>)
         else (Inl overflow_error, w))"

definition HISTORY_LIMIT :: int where "HISTORY_LIMIT = 365"

text \<open>\<open>ORDER BY day DESC LIMIT n\<close>; a negative limit is none.\<close>

definition select_recent :: "string \<Rightarrow> int \<Rightarrow> ((string \<times> string) \<times> wear_snapshot) list \<Rightarrow> wear_snapshot list" where
  "select_recent b n rows =
     (let hits = rev (sort_key ws_day (filter (\<lambda>s. ws_battery_name s = b) (List.map snd rows))) in
      if n < 0 then hits else take (nat n) hits)"

definition wear_history :: "string \<Rightarrow> int \<Rightarrow> ('x history_db_scheme, wear_snapshot list) io" where
  "wear_history b n = (\<lambda>w.
     case db_fault w of
       Some msg \<Rightarrow> (Inl (sqlite_error msg), w)
     | None \<Rightarrow>
         if sqlite_int (Some n) then (Inr (rev (select_recent b n (db_rows w))), w)
         else (Inl overflow_error, w))"

section \<open>The table\<close>

definition table_ok :: "((string \<times> string) \<times> wear_snapshot) list \<Rightarrow> bool" where
  "table_ok rows \<longleftrightarrow> distinct (List.map fst rows) \<and> list_all (\<lambda>(k, s). k = row_key s) rows"

lemma table_ok_empty [simp]: "table_ok []"
  by (simp add: table_ok_def)

lemma dict_set_all: "list_all (\<lambda>(k, s). P k s) d \<Longrightarrow> P k s \<Longrightarrow> list_all (\<lambda>(k, s). P k s) (dict_set k s d)"
  by (induction k s d rule: dict_set.induct) auto

lemma table_ok_set: "table_ok rows \<Longrightarrow> table_ok (dict_set (row_key s) s rows)"
  by (simp add: table_ok_def dict_set_distinct dict_set_all)

lemma record_wear_table:
  "table_ok (db_rows w) \<Longrightarrow> record_wear s w = (r, w') \<Longrightarrow> table_ok (db_rows w')"
  by (auto simp: record_wear_def table_ok_set split: option.splits if_splits)

lemma table_distinct_days:
  "table_ok rows \<Longrightarrow> distinct (List.map ws_day (filter (\<lambda>s. ws_battery_name s = b) (List.map snd rows)))"
proof (induction rows)
  case (Cons r rows)
  have "ws_day (snd r) \<noteq> ws_day s" if "s \<in> set (List.map snd rows)" "ws_battery_name (snd r) = b"
    "ws_battery_name s = b" for s
    using that Cons.prems by (force simp: table_ok_def row_key_def list_all_iff)
  with Cons show ?case by (auto simp: table_ok_def)
qed simp

lemma recent_rows_sorted:
  assumes "table_ok rows"
  shows "sorted_wrt (<) (List.map ws_day (sort_key ws_day (filter (\<lambda>s. ws_battery_name s = b) (List.map snd rows))))"
  using table_distinct_days [OF assms, of b] by (simp add: strict_sorted_iff distinct_map)

lemma select_recent_drop:
  "0 \<le> n \<Longrightarrow> rev (select_recent b n rows) =
   (let hits = sort_key ws_day (filter (\<lambda>s. ws_battery_name s = b) (List.map snd rows))
    in drop (length hits - nat n) hits)"
  by (simp add: select_recent_def Let_def rev_take)

lemma select_recent_sorted:
  assumes "table_ok rows"
  shows "sorted_wrt (<) (List.map ws_day (rev (select_recent b n rows)))"
proof (cases "n < 0")
  case True
  then show ?thesis using recent_rows_sorted [OF assms, of b] by (simp add: select_recent_def)
next
  case False
  then show ?thesis using recent_rows_sorted [OF assms, of b]
    by (simp add: select_recent_drop Let_def drop_map [symmetric] sorted_wrt_drop del: rev_map)
qed

lemma select_recent_name: "s \<in> set (select_recent b n rows) \<Longrightarrow> ws_battery_name s = b"
  by (auto simp: select_recent_def Let_def dest: in_set_takeD split: if_splits)

text \<open>The points of a battery's wear chart: the days whose wear is known.\<close>

definition history_points :: "wear_snapshot list \<Rightarrow> (string \<times> rat) list" where
  "history_points h = List.map_filter (\<lambda>s. map_option (Pair (ws_day s)) (ws_wear_percent s)) h"

section \<open>The contract of a store\<close>

text \<open>
  What the battery page relies on: reading changes nothing and gives snapshots of the asked
  battery in ascending order of the day; the invariant is the store's own.
\<close>

locale history_store =
  fixes inv :: "'w \<Rightarrow> bool"
    and store :: "wear_snapshot \<Rightarrow> ('w, unit) io"
    and history :: "string \<Rightarrow> int \<Rightarrow> ('w, wear_snapshot list) io"
  assumes store_inv: "inv w \<Longrightarrow> inv (snd (store s w))"
    and history_pure: "snd (history b n w) = w"
    and history_ascending: "inv w \<Longrightarrow> fst (history b n w) = Inr h \<Longrightarrow> sorted_wrt (<) (List.map ws_day h)"
    and history_own: "fst (history b n w) = Inr h \<Longrightarrow> s \<in> set h \<Longrightarrow> ws_battery_name s = b"
begin

lemma points_ascending:
  assumes "inv w" "fst (history b n w) = Inr h"
  shows "sorted_wrt (<) (List.map fst (history_points h))"
proof -
  have "sorted_wrt (<) (List.map fst (history_points xs))" if "sorted_wrt (<) (List.map ws_day xs)" for xs
    using that
    by (induction xs) (auto simp: history_points_def List.map_filter_simps set_map_filter split: option.split)
  then show ?thesis using history_ascending [OF assms] by blast
qed

end

interpretation sqlite: history_store "\<lambda>w :: 'x history_db_scheme. table_ok (db_rows w)" record_wear wear_history
proof (unfold_locales, goal_cases)
  case (1 w s)
  then show ?case using record_wear_table [of w s] by (cases "record_wear s w") auto
next
  case (2 b n w)
  then show ?case by (simp add: wear_history_def split: option.split)
next
  case (3 w b n h)
  then show ?case using select_recent_sorted [of "db_rows w" b n]
    by (auto simp: wear_history_def split: option.splits if_splits)
next
  case (4 b n w h s)
  then show ?case by (auto simp: wear_history_def dest: select_recent_name split: option.splits if_splits)
qed

section \<open>What a sequence of daily snapshots leaves in the table\<close>

definition record_all :: "wear_snapshot list \<Rightarrow> 'x history_db_scheme \<Rightarrow> 'x history_db_scheme" where
  "record_all ss w = fold (\<lambda>s w. snd (record_wear s w)) ss w"

definition latest :: "wear_snapshot list \<Rightarrow> string \<Rightarrow> string \<Rightarrow> wear_snapshot option" where
  "latest ss d b = find_last (\<lambda>s. ws_day s = d \<and> ws_battery_name s = b) ss"

lemma record_all_rows:
  "db_fault w = None \<Longrightarrow> list_all snapshot_binds ss \<Longrightarrow>
   db_rows (record_all ss w) = fold (\<lambda>s rows. dict_set (row_key s) s rows) ss (db_rows w) \<and>
   db_fault (record_all ss w) = None"
  by (induction ss arbitrary: w) (auto simp: record_all_def record_wear_def)

lemma find_last_snoc: "find_last P (xs @ [x]) = (if P x then Some x else find_last P xs)"
  by (simp add: find_last_def)

lemma fold_rows_get:
  "dict_get (d, b) (fold (\<lambda>s rows. dict_set (row_key s) s rows) ss []) = latest ss d b"
  by (induction ss rule: rev_induct)
     (auto simp: dict_get_set latest_def find_last_snoc row_key_def find_last_def)

lemma fold_rows_ok: "table_ok (fold (\<lambda>s rows. dict_set (row_key s) s rows) ss [])"
  by (induction ss rule: rev_induct) (simp_all add: table_ok_set)

lemma rows_latest:
  "s \<in> snd ` set (fold (\<lambda>s rows. dict_set (row_key s) s rows) ss []) \<longleftrightarrow>
   latest ss (ws_day s) (ws_battery_name s) = Some s"
proof -
  let ?rows = "fold (\<lambda>s rows. dict_set (row_key s) s rows) ss []"
  have "s \<in> snd ` set ?rows \<longleftrightarrow> (row_key s, s) \<in> set ?rows"
    using fold_rows_ok [of ss] by (force simp: table_ok_def list_all_iff)
  also have "\<dots> \<longleftrightarrow> dict_get (row_key s) ?rows = Some s"
    using fold_rows_ok [of ss] by (intro dict_get_mem) (simp add: table_ok_def)
  also have "\<dots> \<longleftrightarrow> latest ss (ws_day s) (ws_battery_name s) = Some s"
    by (simp only: row_key_def [of s] fold_rows_get)
  finally show ?thesis .
qed

definition recorded_days :: "wear_snapshot list \<Rightarrow> string \<Rightarrow> string set" where
  "recorded_days ss b = ws_day ` set (filter (\<lambda>s. ws_battery_name s = b) ss)"

lemma latest_days: "d \<in> recorded_days ss b \<longleftrightarrow> latest ss d b \<noteq> None"
  by (auto simp: recorded_days_def latest_def)

lemma latest_Some: "latest ss d b = Some s \<Longrightarrow> ws_day s = d \<and> ws_battery_name s = b"
  by (auto simp: latest_def dest: find_last_SomeD)

section \<open>Properties\<close>

text \<open>C25: Recording is idempotent per day and battery, and the history of a battery is exactly what was
  recorded last: after any sequence of snapshots the query returns, in strictly ascending
  order of the day, the latest snapshot of each of the \<open>n\<close> most recent recorded days.\<close>

theorem wear_history_latest:
  assumes "db_fault w = None" "db_rows w = []" "list_all snapshot_binds ss" "0 \<le> n" "n < 2 ^ 63"
  shows "\<exists>h. wear_history b n (record_all ss w) = (Inr h, record_all ss w) \<and>
    sorted_wrt (<) (List.map ws_day h) \<and>
    int (length h) = min n (int (card (recorded_days ss b))) \<and>
    (\<forall>s\<in>set h. latest ss (ws_day s) b = Some s) \<and>
    (\<forall>d\<in>recorded_days ss b - ws_day ` set h. \<forall>s\<in>set h. d < ws_day s)"
proof -
  let ?rows = "fold (\<lambda>s rows. dict_set (row_key s) s rows) ss []"
  let ?L = "sort_key ws_day (filter (\<lambda>s. ws_battery_name s = b) (List.map snd ?rows))"
  define k where "k = length ?L - nat n"
  have sorted: "sorted_wrt (<) (List.map ws_day ?L)" by (rule recent_rows_sorted [OF fold_rows_ok])
  have mem: "s \<in> set ?L \<longleftrightarrow> latest ss (ws_day s) b = Some s" for s
    using rows_latest [of s ss] by (auto dest: latest_Some)
  have days: "ws_day ` set ?L = recorded_days ss b"
  proof (rule set_eqI, rule iffI)
    fix d
    assume "d \<in> ws_day ` set ?L"
    then show "d \<in> recorded_days ss b" using mem latest_days by auto
  next
    fix d
    assume "d \<in> recorded_days ss b"
    then obtain s where s: "latest ss d b = Some s" using latest_days by blast
    then have "ws_day s = d" using latest_Some by blast
    with s mem show "d \<in> ws_day ` set ?L" by blast
  qed
  have card: "card (recorded_days ss b) = length ?L"
    using sorted distinct_card [of "List.map ws_day ?L"] by (simp add: strict_sorted_iff days [symmetric] del: set_sort)
  have result: "wear_history b n (record_all ss w) = (Inr (drop k ?L), record_all ss w)"
    using assms record_all_rows [OF assms(1,3)]
    by (simp add: wear_history_def sqlite_int_def select_recent_drop k_def Let_def)
  have split: "List.map ws_day ?L = List.map ws_day (take k ?L) @ List.map ws_day (drop k ?L)"
    by (simp flip: map_append)
  have all: "ws_day ` set (take k ?L) \<union> ws_day ` set (drop k ?L) = recorded_days ss b"
    by (simp only: days [symmetric] image_Un [symmetric] set_append [symmetric] append_take_drop_id)
  have order: "sorted_wrt (<) (List.map ws_day (drop k ?L))"
    "\<forall>x\<in>ws_day ` set (take k ?L). \<forall>y\<in>ws_day ` set (drop k ?L). x < y"
    using sorted [unfolded split sorted_wrt_append set_map] by blast+
  have "int (length (drop k ?L)) = min n (int (card (recorded_days ss b)))"
    unfolding card k_def using assms(4) by auto
  moreover have "\<forall>s\<in>set (drop k ?L). latest ss (ws_day s) b = Some s"
    using set_drop_subset [of k ?L] mem by blast
  moreover have "\<forall>d\<in>recorded_days ss b - ws_day ` set (drop k ?L). \<forall>s\<in>set (drop k ?L). d < ws_day s"
    using order(2) all by blast
  ultimately show ?thesis
    using result order(1) by blast
qed

theorem wear_history_latest_witness:
  "let ss = [\<lparr>ws_day = ''2025-01-02'', ws_battery_name = ''BAT0'', ws_wear_percent = Some 3, ws_cycle_count = None,
              ws_capacity_full = None, ws_capacity_design = None\<rparr>];
       w = \<lparr>db_rows = [], db_fault = None\<rparr>
   in \<exists>h. wear_history ''BAT0'' 365 (record_all ss w) = (Inr h, record_all ss w) \<and> length h = 1"
proof -
  let ?s = "\<lparr>ws_day = ''2025-01-02'', ws_battery_name = ''BAT0'', ws_wear_percent = Some 3, ws_cycle_count = None,
              ws_capacity_full = None, ws_capacity_design = None\<rparr>"
  show ?thesis
    using wear_history_latest [of "\<lparr>db_rows = [], db_fault = None\<rparr>" "[?s]" 365 "''BAT0''"]
    by (auto simp: snapshot_binds_def sqlite_int_def recorded_days_def)
qed

end
