(* ===== verification/Scheduler.thy ===== *)
theory Scheduler
  imports Models
begin

text \<open>
  \<open>platform/scheduler.py\<close>: the two schedulers behind the port. What both share is a loop's
  view of its tasks: the coroutines in flight, the finished ones whose completion callback is
  queued (the loop's done callbacks on the native loop, GLib idle sources on the threaded one),
  and the calls made so far on the GTK main thread. \<open>finished\<close> is the trace of completions.
  The mechanisms differ in how they start, stop and submit. \<open>task_loop\<close> is the contract; both
  step relations are shown to keep it.
\<close>

datatype 'v outcome = Returned 'v | Raised exn | Cancelled

datatype 'v callback = OnSuccess 'v | OnError exn

record 'v tasks =
  next_task :: nat
  in_flight :: "nat list"
  queued :: "(nat \<times> 'v outcome) list"
  finished :: "(nat \<times> 'v outcome) list"
  calls :: "(nat \<times> 'v callback) list"

definition no_tasks :: "'v tasks" where
  "no_tasks = \<lparr>next_task = 0, in_flight = [], queued = [], finished = [], calls = []\<rparr>"

section \<open>Tasks and their completion callbacks\<close>

definition create_task :: "'v tasks \<Rightarrow> 'v tasks" where
  "create_task s = s\<lparr>next_task := Suc (next_task s), in_flight := in_flight s @ [next_task s]\<rparr>"

definition finish_task :: "nat \<Rightarrow> 'v outcome \<Rightarrow> 'v tasks \<Rightarrow> 'v tasks" where
  "finish_task i r s = s\<lparr>in_flight := remove1 i (in_flight s),
     queued := queued s @ [(i, r)], finished := finished s @ [(i, r)]\<rparr>"

text \<open>
  \<open>exception()\<close> and \<open>result()\<close> of a cancelled task raise \<open>CancelledError\<close>, which leaves the
  callback before it calls either function of the submitter.
\<close>

fun done_callback :: "'v outcome \<Rightarrow> 'v callback option" where
  "done_callback (Returned v) = Some (OnSuccess v)"
| "done_callback (Raised e) = Some (OnError e)"
| "done_callback Cancelled = None"

definition called :: "nat \<times> 'v outcome \<Rightarrow> (nat \<times> 'v callback) option" where
  "called t = map_option (Pair (fst t)) (done_callback (snd t))"

definition deliver :: "'v tasks \<Rightarrow> 'v tasks" where
  "deliver s = (case queued s of
     [] \<Rightarrow> s
   | t # q \<Rightarrow> s\<lparr>queued := q, calls := calls s @ (case called t of None \<Rightarrow> [] | Some c \<Rightarrow> [c])\<rparr>)"

definition runtime_error :: exn where
  "runtime_error = PyException ''RuntimeError'' ''scheduler not started''"

section \<open>The native scheduler\<close>

datatype policy = DefaultPolicy | GLibPolicy

record 'v native =
  n_tasks :: "'v tasks"
  n_loop :: bool
  n_previous_policy :: "policy option"
  process_policy :: policy

definition native_start :: "'v native \<Rightarrow> 'v native" where
  "native_start s = s\<lparr>n_previous_policy := Some (process_policy s), process_policy := GLibPolicy, n_loop := True\<rparr>"

definition native_stop :: "'v native \<Rightarrow> 'v native" where
  "native_stop s = (let s' = (case n_previous_policy s of
      None \<Rightarrow> s
    | Some p \<Rightarrow> s\<lparr>process_policy := p, n_previous_policy := None\<rparr>)
   in s'\<lparr>n_loop := False\<rparr>)"

definition native_submit :: "'v native \<Rightarrow> (exn + unit) \<times> 'v native" where
  "native_submit s =
     (if \<not> n_loop s then (Inl runtime_error, s)
      else (Inr (), s\<lparr>n_tasks := create_task (n_tasks s)\<rparr>))"

section \<open>The threaded scheduler\<close>

text \<open>
  The loop belongs to the thread, which publishes it when it runs (\<open>thread_run\<close>);
  \<open>t_starting\<close> counts the threads that have not yet. \<open>t_lingering\<close>: a thread that was told to stop
  and has not, because a coroutine blocks its loop.
\<close>

record 'v threaded =
  t_tasks :: "'v tasks"
  t_thread :: bool
  t_loop :: bool
  t_starting :: nat
  t_lingering :: bool

text \<open>\<open>in_time\<close>: whether the new thread publishes its loop within the five seconds \<open>start\<close> waits.\<close>

definition thread_start :: "bool \<Rightarrow> 'v threaded \<Rightarrow> (exn + unit) \<times> 'v threaded" where
  "thread_start in_time s =
     (if t_thread s then (Inr (), s)
      else if in_time then (Inr (), s\<lparr>t_thread := True, t_loop := True\<rparr>)
      else (Inl (PyException ''RuntimeError'' ''async loop thread failed to start''),
            s\<lparr>t_thread := True, t_starting := Suc (t_starting s)\<rparr>))"

definition thread_run :: "'v threaded \<Rightarrow> 'v threaded" where
  "thread_run s = (if 0 < t_starting s then s\<lparr>t_loop := True, t_starting := t_starting s - 1\<rparr> else s)"

text \<open>
  \<open>stop\<close> waits at most five seconds for the thread; \<open>joined\<close>: it ends within them. A loop that has
  ended is closed: what was in flight never completes. A thread still blocked goes on, and may
  complete tasks, until it ends (\<open>thread_ends\<close>).
\<close>

definition drop_in_flight :: "'v tasks \<Rightarrow> 'v tasks" where
  "drop_in_flight s = s\<lparr>in_flight := []\<rparr>"

definition thread_stop :: "bool \<Rightarrow> 'v threaded \<Rightarrow> 'v threaded" where
  "thread_stop joined s =
     (let lingers = t_lingering s \<or> (t_loop s \<and> \<not> joined)
      in s\<lparr>t_thread := False, t_loop := False, t_lingering := lingers,
           t_tasks := (if lingers then t_tasks s else drop_in_flight (t_tasks s))\<rparr>)"

definition thread_ends :: "'v threaded \<Rightarrow> 'v threaded" where
  "thread_ends s = s\<lparr>t_lingering := False, t_tasks := (if t_loop s then t_tasks s else drop_in_flight (t_tasks s))\<rparr>"

definition thread_submit :: "'v threaded \<Rightarrow> (exn + unit) \<times> 'v threaded" where
  "thread_submit s =
     (if \<not> t_loop s then (Inl runtime_error, s)
      else (Inr (), s\<lparr>t_tasks := create_task (t_tasks s)\<rparr>))"

datatype mechanism = Native | Threaded

definition create_scheduler :: "bool \<Rightarrow> mechanism" where
  "create_scheduler has_native = (if has_native then Native else Threaded)"

section \<open>Steps\<close>

inductive native_step :: "'v native \<Rightarrow> 'v native \<Rightarrow> bool" where
  start: "native_step s (native_start s)"
| stop: "native_step s (native_stop s)"
| submit: "native_submit s = (r, s') \<Longrightarrow> native_step s s'"
| finish: "i \<in> set (in_flight (n_tasks s)) \<Longrightarrow> native_step s (s\<lparr>n_tasks := finish_task i r (n_tasks s)\<rparr>)"
| ready: "native_step s (s\<lparr>n_tasks := deliver (n_tasks s)\<rparr>)"

inductive thread_step :: "'v threaded \<Rightarrow> 'v threaded \<Rightarrow> bool" where
  start: "thread_start in_time s = (r, s') \<Longrightarrow> thread_step s s'"
| run: "thread_step s (thread_run s)"
| stop: "thread_step s (thread_stop joined s)"
| ends: "thread_step s (thread_ends s)"
| submit: "thread_submit s = (r, s') \<Longrightarrow> thread_step s s'"
| finish: "t_loop s \<or> t_lingering s \<Longrightarrow> i \<in> set (in_flight (t_tasks s)) \<Longrightarrow>
    thread_step s (s\<lparr>t_tasks := finish_task i r (t_tasks s)\<rparr>)"
| idle: "thread_step s (s\<lparr>t_tasks := deliver (t_tasks s)\<rparr>)"

inductive_cases native_stepE: "native_step s s'"
inductive_cases thread_stepE: "thread_step s s'"

section \<open>The contract\<close>

text \<open>What any step may do to the tasks, whatever the mechanism.\<close>

inductive task_step :: "'v tasks \<Rightarrow> 'v tasks \<Rightarrow> bool" where
  stutter: "task_step s s"
| create: "task_step s (create_task s)"
| finish: "i \<in> set (in_flight s) \<Longrightarrow> task_step s (finish_task i r s)"
| deliver: "task_step s (deliver s)"
| abandon: "task_step s (drop_in_flight s)"

definition tasks_ok :: "'v tasks \<Rightarrow> bool" where
  "tasks_ok s \<longleftrightarrow>
     distinct (in_flight s @ List.map fst (finished s)) \<and>
     (\<forall>i\<in>set (in_flight s @ List.map fst (finished s)). i < next_task s) \<and>
     (\<exists>k. queued s = drop k (finished s) \<and> calls s = List.map_filter called (take k (finished s)))"

lemma tasks_ok_init: "tasks_ok no_tasks"
  by (simp add: tasks_ok_def no_tasks_def List.map_filter_simps)

lemma map_filter_append: "List.map_filter f (xs @ ys) = List.map_filter f xs @ List.map_filter f ys"
  by (simp add: List.map_filter_def)

lemma tasks_ok_create: "tasks_ok s \<Longrightarrow> tasks_ok (create_task s)"
  by (auto simp: tasks_ok_def create_task_def dest: less_SucI)

lemma tasks_ok_finish:
  assumes "tasks_ok s" "i \<in> set (in_flight s)"
  shows "tasks_ok (finish_task i r s)"
proof -
  obtain k where k: "queued s = drop k (finished s)" "calls s = List.map_filter called (take k (finished s))"
    using assms(1) by (auto simp: tasks_ok_def)
  let ?m = "min k (length (finished s))"
  have "queued s @ [(i, r)] = drop ?m (finished s @ [(i, r)])"
    "calls s = List.map_filter called (take ?m (finished s @ [(i, r)]))"
    using k by (auto simp: min_def)
  then have "\<exists>k. queued (finish_task i r s) = drop k (finished (finish_task i r s)) \<and>
      calls (finish_task i r s) = List.map_filter called (take k (finished (finish_task i r s)))"
    by (intro exI [of _ ?m]) (simp add: finish_task_def)
  moreover have "distinct (in_flight (finish_task i r s) @ List.map fst (finished (finish_task i r s)))"
    "\<forall>j\<in>set (in_flight (finish_task i r s) @ List.map fst (finished (finish_task i r s))). j < next_task (finish_task i r s)"
    using assms by (auto simp: tasks_ok_def finish_task_def set_remove1_eq)
  ultimately show ?thesis unfolding tasks_ok_def by blast
qed

lemma tasks_ok_deliver:
  assumes "tasks_ok s"
  shows "tasks_ok (deliver s)"
proof (cases "queued s")
  case Nil
  with assms show ?thesis by (simp add: deliver_def)
next
  case (Cons t q)
  obtain k where k: "queued s = drop k (finished s)" "calls s = List.map_filter called (take k (finished s))"
    using assms by (auto simp: tasks_ok_def)
  have less: "k < length (finished s)" using k(1) Cons by (metis drop_all list.distinct(1) not_le)
  then have "drop k (finished s) = finished s ! k # drop (Suc k) (finished s)" by (simp add: Cons_nth_drop_Suc)
  with Cons k(1) have t: "t = finished s ! k" "q = drop (Suc k) (finished s)" by auto
  have "take (Suc k) (finished s) = take k (finished s) @ [t]" using less by (simp add: t take_Suc_conv_app_nth)
  then have "calls s @ (case called t of None \<Rightarrow> [] | Some c \<Rightarrow> [c]) =
      List.map_filter called (take (Suc k) (finished s))"
    by (simp add: k(2) map_filter_append List.map_filter_simps split: option.split)
  with assms Cons t show ?thesis by (auto simp: tasks_ok_def deliver_def)
qed

lemma tasks_ok_step: "task_step s s' \<Longrightarrow> tasks_ok s \<Longrightarrow> tasks_ok s'"
  by (induction rule: task_step.induct)
     (auto simp: tasks_ok_create tasks_ok_finish tasks_ok_deliver, auto simp: tasks_ok_def drop_in_flight_def)

lemma deliver_finished [simp]: "finished (deliver s) = finished s"
  by (simp add: deliver_def split: list.split)

lemma deliver_queued [simp]: "queued (deliver s) = tl (queued s)"
  by (simp add: deliver_def split: list.split)

lemma drain:
  "queued ((deliver ^^ n) s) = drop n (queued s)" "finished ((deliver ^^ n) s) = finished s"
  by (induction n) (simp_all add: drop_Suc tl_drop)

lemma drained_calls:
  assumes "tasks_ok s" "queued s = []"
  shows "calls s = List.map_filter called (finished s)"
proof -
  obtain k where "queued s = drop k (finished s)" "calls s = List.map_filter called (take k (finished s))"
    using assms(1) by (auto simp: tasks_ok_def)
  with assms(2) show ?thesis by simp
qed

lemma finished_grows: "task_step s s' \<Longrightarrow> set (finished s) \<subseteq> set (finished s')"
  by (induction rule: task_step.induct) (auto simp: create_task_def finish_task_def drop_in_flight_def)

lemma once_cancelled:
  assumes "distinct (List.map fst xs)" "(i, Cancelled) \<in> set xs"
  shows "i \<notin> fst ` set (List.map_filter called (take k xs))"
proof
  assume "i \<in> fst ` set (List.map_filter called (take k xs))"
  then obtain r where "(i, r) \<in> set xs" "done_callback r \<noteq> None"
    by (auto simp: set_map_filter called_def dest: in_set_takeD)
  with assms have "r = Cancelled" by (meson eq_key_imp_eq_value)
  with \<open>done_callback r \<noteq> None\<close> show False by simp
qed

locale task_loop =
  fixes step :: "'s \<Rightarrow> 's \<Rightarrow> bool"
    and tasks_of :: "'s \<Rightarrow> 'v tasks"
    and run_one :: "'s \<Rightarrow> 's"
  assumes step_tasks: "step s s' \<Longrightarrow> task_step (tasks_of s) (tasks_of s')"
    and run_one_step: "step s (run_one s)"
    and run_one_tasks: "tasks_of (run_one s) = deliver (tasks_of s)"
begin

lemma reachable_ok: "step\<^sup>*\<^sup>* s s' \<Longrightarrow> tasks_ok (tasks_of s) \<Longrightarrow> tasks_ok (tasks_of s')"
  by (induction rule: rtranclp_induct) (auto dest: step_tasks intro: tasks_ok_step)

lemma run_tasks: "tasks_of ((run_one ^^ n) s) = (deliver ^^ n) (tasks_of s)"
  by (induction n) (simp_all add: run_one_tasks)

lemma run_steps: "step\<^sup>*\<^sup>* s ((run_one ^^ n) s)"
  by (induction n) (auto intro: rtranclp.rtrancl_into_rtrancl run_one_step)

lemma at_most_once:
  assumes "step\<^sup>*\<^sup>* s s'" "tasks_of s = no_tasks"
  shows "distinct (List.map fst (finished (tasks_of s')))"
    "\<exists>k. calls (tasks_of s') = List.map_filter called (take k (finished (tasks_of s')))"
proof -
  have "tasks_ok (tasks_of s')" using reachable_ok [OF assms(1)] assms(2) tasks_ok_init by metis
  then show "distinct (List.map fst (finished (tasks_of s')))"
    "\<exists>k. calls (tasks_of s') = List.map_filter called (take k (finished (tasks_of s')))"
    by (auto simp: tasks_ok_def)
qed

lemma drains:
  assumes "step\<^sup>*\<^sup>* s s'" "tasks_of s = no_tasks"
  shows "\<exists>s''. step\<^sup>*\<^sup>* s' s'' \<and> finished (tasks_of s'') = finished (tasks_of s') \<and>
    queued (tasks_of s'') = [] \<and> calls (tasks_of s'') = List.map_filter called (finished (tasks_of s'))"
proof -
  let ?s = "(run_one ^^ length (queued (tasks_of s'))) s'"
  have steps: "step\<^sup>*\<^sup>* s' ?s" by (rule run_steps)
  have "step\<^sup>*\<^sup>* s ?s" using assms(1) steps by (rule rtranclp_trans)
  then have ok: "tasks_ok (tasks_of ?s)" using reachable_ok assms(2) tasks_ok_init by metis
  have q: "queued (tasks_of ?s) = []" "finished (tasks_of ?s) = finished (tasks_of s')"
    by (simp_all add: run_tasks drain)
  with drained_calls [OF ok] steps show ?thesis by metis
qed

end

lemma native_tasks: "native_step s s' \<Longrightarrow> task_step (n_tasks s) (n_tasks s')"
  by (erule native_stepE)
     (auto simp: native_start_def native_stop_def native_submit_def Let_def
       intro: task_step.intros split: option.splits if_splits)

lemma thread_tasks: "thread_step s s' \<Longrightarrow> task_step (t_tasks s) (t_tasks s')"
  by (erule thread_stepE)
     (auto simp: thread_start_def thread_run_def thread_stop_def thread_ends_def thread_submit_def Let_def
       intro: task_step.intros split: if_splits)

interpretation native_loop: task_loop native_step n_tasks "\<lambda>s. s\<lparr>n_tasks := deliver (n_tasks s)\<rparr>"
  by unfold_locales (auto intro: native_tasks native_step.ready)

interpretation thread_loop: task_loop thread_step t_tasks "\<lambda>s. s\<lparr>t_tasks := deliver (t_tasks s)\<rparr>"
  by unfold_locales (auto intro: thread_tasks thread_step.idle)

section \<open>Properties\<close>

definition native_init :: "'v native" where
  "native_init = \<lparr>n_tasks = no_tasks, n_loop = False, n_previous_policy = None, process_policy = DefaultPolicy\<rparr>"

definition thread_init :: "'v threaded" where
  "thread_init = \<lparr>t_tasks = no_tasks, t_thread = False, t_loop = False, t_starting = 0, t_lingering = False\<rparr>"

lemma init_tasks [simp]: "n_tasks native_init = no_tasks" "t_tasks thread_init = no_tasks"
  by (simp_all add: native_init_def thread_init_def)

lemma calls_spelled:
  "List.map_filter called xs = concat (List.map (\<lambda>(i, r).
     case r of Returned v \<Rightarrow> [(i, OnSuccess v)] | Raised e \<Rightarrow> [(i, OnError e)] | Cancelled \<Rightarrow> []) xs)"
  by (induction xs) (auto simp: List.map_filter_simps called_def split: outcome.split)

text \<open>C16: Under either mechanism and every interleaving of submissions, completions, deliveries, starts and
  stops: no task completes twice, and when the main loop has run what is queued, the calls made
  are, in the order of completion, exactly one for each completed task: the success callback
  with the value for a task that returned, the error callback with the exception for one that
  raised, and none for a cancelled one.\<close>

theorem callbacks_in_order:
  assumes "native_step\<^sup>*\<^sup>* native_init s" "thread_step\<^sup>*\<^sup>* thread_init t"
  shows "distinct (List.map fst (finished (n_tasks s))) \<and>
    (\<exists>s'. native_step\<^sup>*\<^sup>* s s' \<and> finished (n_tasks s') = finished (n_tasks s) \<and> queued (n_tasks s') = [] \<and>
       calls (n_tasks s') = concat (List.map (\<lambda>(i, r).
         case r of Returned v \<Rightarrow> [(i, OnSuccess v)] | Raised e \<Rightarrow> [(i, OnError e)] | Cancelled \<Rightarrow> []) (finished (n_tasks s)))) \<and>
    distinct (List.map fst (finished (t_tasks t))) \<and>
    (\<exists>t'. thread_step\<^sup>*\<^sup>* t t' \<and> finished (t_tasks t') = finished (t_tasks t) \<and> queued (t_tasks t') = [] \<and>
       calls (t_tasks t') = concat (List.map (\<lambda>(i, r).
         case r of Returned v \<Rightarrow> [(i, OnSuccess v)] | Raised e \<Rightarrow> [(i, OnError e)] | Cancelled \<Rightarrow> []) (finished (t_tasks t))))"
  using native_loop.at_most_once(1) [OF assms(1)] native_loop.drains [OF assms(1)]
    thread_loop.at_most_once(1) [OF assms(2)] thread_loop.drains [OF assms(2)]
  by (simp add: calls_spelled)

theorem callbacks_in_order_witness:
  "\<exists>s :: int native. native_step\<^sup>*\<^sup>* native_init s \<and>
     finished (n_tasks s) = [(1, Raised (ProviderTimeout ''upower'' ''10s'')), (0, Returned 7)] \<and>
     (\<exists>s'. native_step\<^sup>*\<^sup>* s s' \<and> queued (n_tasks s') = [] \<and>
        calls (n_tasks s') = [(1, OnError (ProviderTimeout ''upower'' ''10s'')), (0, OnSuccess 7)])"
proof -
  let ?a = "native_start native_init :: int native"
  let ?b = "?a\<lparr>n_tasks := create_task (n_tasks ?a)\<rparr>"
  let ?b2 = "?b\<lparr>n_tasks := create_task (n_tasks ?b)\<rparr>"
  let ?c = "?b2\<lparr>n_tasks := finish_task 1 (Raised (ProviderTimeout ''upower'' ''10s'')) (n_tasks ?b2)\<rparr>"
  let ?d = "?c\<lparr>n_tasks := finish_task 0 (Returned 7) (n_tasks ?c)\<rparr>"
  note defs = native_start_def native_init_def create_task_def finish_task_def no_tasks_def native_submit_def
  have steps: "native_step native_init ?a" "native_step ?a ?b" "native_step ?b ?b2" "native_step ?b2 ?c" "native_step ?c ?d"
    by (rule native_step.start, rule native_step.submit, simp add: defs, rule native_step.submit, simp add: defs,
        rule native_step.finish, simp add: defs, rule native_step.finish, simp add: defs)
  then have r: "native_step\<^sup>*\<^sup>* native_init ?d"
    by (meson rtranclp.rtrancl_into_rtrancl rtranclp.rtrancl_refl)
  have "finished (n_tasks ?d) = [(1, Raised (ProviderTimeout ''upower'' ''10s'')), (0, Returned 7)]" by (simp add: defs)
  with r obtain d where d: "native_step\<^sup>*\<^sup>* native_init d"
    and f: "finished (n_tasks d) = [(1, Raised (ProviderTimeout ''upower'' ''10s'')), (0, Returned (7::int))]" by blast
  obtain s' where s': "native_step\<^sup>*\<^sup>* d s'" "queued (n_tasks s') = []"
      "calls (n_tasks s') = [(1, OnError (ProviderTimeout ''upower'' ''10s'')), (0, OnSuccess 7)]"
    using callbacks_in_order [OF d rtranclp.rtrancl_refl] unfolding f by auto
  show ?thesis
    by (rule exI [of _ d]) (use d s' in \<open>auto simp: f\<close>)
qed

text \<open>The port promises exactly one callback, and a submission can go without: once a task is cancelled
  and its completion has run, no later step of the scheduler calls its submitter.\<close>

theorem cancelled_never_called:
  assumes "native_step\<^sup>*\<^sup>* native_init s" "(i, Cancelled) \<in> set (finished (n_tasks s))"
    and "native_step\<^sup>*\<^sup>* s s'"
  shows "i \<notin> fst ` set (calls (n_tasks s'))"
proof -
  have reach: "native_step\<^sup>*\<^sup>* native_init s'" using assms(1,3) by (rule rtranclp_trans)
  have "(i, Cancelled) \<in> set (finished (n_tasks s'))"
    using assms(3,2) by (induction rule: rtranclp_induct) (auto dest!: native_tasks finished_grows)
  moreover obtain k where "calls (n_tasks s') = List.map_filter called (take k (finished (n_tasks s')))"
    using native_loop.at_most_once(2) [OF reach init_tasks(1)] by blast
  ultimately show ?thesis
    using once_cancelled [OF native_loop.at_most_once(1) [OF reach init_tasks(1)]] by simp
qed

theorem cancelled_never_called_witness:
  "\<exists>s :: int native. (0, Cancelled) \<in> set (finished (n_tasks s)) \<and> native_step\<^sup>*\<^sup>* native_init s \<and>
     0 \<notin> fst ` set (calls (n_tasks s))"
proof -
  let ?a = "native_start native_init :: int native"
  let ?b = "?a\<lparr>n_tasks := create_task (n_tasks ?a)\<rparr>"
  let ?c = "?b\<lparr>n_tasks := finish_task 0 Cancelled (n_tasks ?b)\<rparr>"
  note defs = native_start_def native_init_def create_task_def finish_task_def no_tasks_def native_submit_def
  have "native_step native_init ?a" "native_step ?a ?b" "native_step ?b ?c"
    by (rule native_step.start, rule native_step.submit, simp add: defs, rule native_step.finish, simp add: defs)
  then have "native_step\<^sup>*\<^sup>* native_init ?c"
    by (blast intro: rtranclp.rtrancl_into_rtrancl rtranclp.rtrancl_refl)
  moreover have "(0, Cancelled) \<in> set (finished (n_tasks ?c))" by (simp add: defs)
  ultimately obtain c where "native_step\<^sup>*\<^sup>* native_init c" "(0, Cancelled) \<in> set (finished (n_tasks (c :: int native)))"
    by blast
  then show ?thesis using cancelled_never_called [OF _ _ rtranclp.rtrancl_refl] by blast
qed

end
