(* ===== verification/Dbus.thy ===== *)
theory Dbus
  imports Ports
begin

text \<open>
  What the D-Bus providers share: the values an unpacked reply holds, with the Python
  operations the providers apply to them (truth, \<open>int()\<close>, \<open>float()\<close>, \<open>str()\<close>), GLib's errors, the
  cached connection and the availability probe. The bus itself (\<open>platform/dbus.py\<close> hands out
  GLib's) is the parameter \<open>system_bus\<close>: what opening it and calling a method answer, in a
  world of its own.
\<close>

section \<open>Unpacked values\<close>

text \<open>\<open>GSeq\<close> is any container: the name of its class, its truth value and its text.\<close>

datatype gvalue = GBool bool | GInt int | GDouble pyfloat | GStr string | GSeq string bool string

type_synonym props = "(string \<times> gvalue) list"

fun truthy :: "gvalue \<Rightarrow> bool" where
  "truthy (GBool b) = b"
| "truthy (GInt n) = (n \<noteq> 0)"
| "truthy (GDouble x) = (x \<noteq> Finite 0)"
| "truthy (GStr s) = (s \<noteq> [])"
| "truthy (GSeq _ b _) = b"

fun equals_int :: "gvalue \<Rightarrow> int \<Rightarrow> bool" where
  "equals_int (GBool b) n = ((if b then 1 else 0) = n)"
| "equals_int (GInt m) n = (m = n)"
| "equals_int (GDouble x) n = (x = Finite (of_int n))"
| "equals_int _ n = False"

fun value_str :: "gvalue \<Rightarrow> string" where
  "value_str (GBool b) = (if b then ''True'' else ''False'')"
| "value_str (GInt n) = show_int n"
| "value_str (GDouble x) = pyfloat_str x"
| "value_str (GStr s) = s"
| "value_str (GSeq _ _ t) = t"

text \<open>\<open>repr\<close> of a string, whose code points above ASCII are taken to be printable.\<close>

definition hex_char :: "nat \<Rightarrow> char" where
  "hex_char d = char_of (if d < 10 then 48 + d else 87 + d)"

definition repr_char :: "char \<Rightarrow> char \<Rightarrow> string" where
  "repr_char q c =
     (let n = (of_char c :: nat) in
      if c = q \<or> n = 92 then [CHR 0x5C, c]
      else if n = 10 then [CHR 0x5C, CHR ''n''] else if n = 13 then [CHR 0x5C, CHR ''r'']
      else if n = 9 then [CHR 0x5C, CHR ''t'']
      else if n < 32 \<or> n = 127 then [CHR 0x5C, CHR ''x'', hex_char (n div 16), hex_char (n mod 16)]
      else [c])"

definition py_repr :: "string \<Rightarrow> string" where
  "py_repr s =
     (let q = (if CHR 0x27 \<in> set s \<and> CHR 0x22 \<notin> set s then CHR 0x22 else CHR 0x27)
      in q # concat (List.map (repr_char q) s) @ [q])"

definition quoted_name :: "string \<Rightarrow> string" where
  "quoted_name s = CHR 0x27 # s @ [CHR 0x27]"

definition truncate :: "rat \<Rightarrow> int" where
  "truncate x = (if 0 \<le> x then \<lfloor>x\<rfloor> else \<lceil>x\<rceil>)"

text \<open>\<open>int(value)\<close> and \<open>float(value)\<close>\<close>

fun to_int :: "gvalue \<Rightarrow> exn + int" where
  "to_int (GBool b) = Inr (if b then 1 else 0)"
| "to_int (GInt n) = Inr n"
| "to_int (GDouble (Finite x)) = Inr (truncate x)"
| "to_int (GDouble NotANumber) = Inl (PyException ''ValueError'' ''cannot convert float NaN to integer'')"
| "to_int (GDouble _) = Inl (PyException ''OverflowError'' ''cannot convert float infinity to integer'')"
| "to_int (GStr s) = (case py_int s of
     Some n \<Rightarrow> Inr n
   | None \<Rightarrow> Inl (PyException ''ValueError'' (''invalid literal for int() with base 10: '' @ py_repr s)))"
| "to_int (GSeq t _ _) = Inl (PyException ''TypeError''
     (''int() argument must be a string, a bytes-like object or a real number, not '' @ quoted_name t))"

fun to_float :: "gvalue \<Rightarrow> exn + pyfloat" where
  "to_float (GBool b) = Inr (Finite (if b then 1 else 0))"
| "to_float (GInt n) = Inr (Finite (fl (of_int n)))"
| "to_float (GDouble x) = Inr x"
| "to_float (GStr s) = (case py_float s of
     Some x \<Rightarrow> Inr x
   | None \<Rightarrow> Inl (PyException ''ValueError'' (''could not convert string to float: '' @ py_repr s)))"
| "to_float (GSeq t _ _) = Inl (PyException ''TypeError''
     (''float() argument must be a string or a real number, not '' @ quoted_name t))"

definition prop_default :: "props \<Rightarrow> string \<Rightarrow> gvalue \<Rightarrow> gvalue" where
  "prop_default props k d = (case dict_get k props of None \<Rightarrow> d | Some v \<Rightarrow> v)"

text \<open>A property the interface declares an unsigned integer (type \<open>u\<close>).\<close>

definition get_uint :: "props \<Rightarrow> string \<Rightarrow> int option" where
  "get_uint props k = (case dict_get k props of Some (GInt n) \<Rightarrow> Some n | _ \<Rightarrow> None)"

section \<open>The bus\<close>

datatype error_domain = FwupdDomain | OtherDomain

record gerror =
  ge_domain :: error_domain
  ge_code :: string
  ge_message :: string

datatype signal_handler = ChangeHandler | ProgressHandler

record subscription =
  sub_sender :: string
  sub_iface :: string
  sub_member :: string
  sub_path :: "string option"
  sub_handler :: signal_handler

type_synonym ('w, 'a) gcall = "'w \<Rightarrow> (gerror + 'a) \<times> 'w"

record 'w system_bus =
  bus_open :: "('w, unit) gcall"
  name_has_owner :: "string \<Rightarrow> ('w, bool) gcall"
  enumerate_devices :: "('w, string list) gcall"
  get_all :: "string \<Rightarrow> string \<Rightarrow> string \<Rightarrow> ('w, props) gcall"
  signal_subscribe :: "subscription \<Rightarrow> 'w \<Rightarrow> 'w"

text \<open>The provider's state: whether it holds the connection, and the world outside.\<close>

record 'w bus_client =
  has_bus :: bool
  outside :: 'w

definition on_bus :: "('w, 'a) gcall \<Rightarrow> ('w bus_client, 'a) gcall" where
  "on_bus call = (\<lambda>c. case call (outside c) of (r, w) \<Rightarrow> (r, c\<lparr>outside := w\<rparr>))"

definition tool_missing :: "string \<Rightarrow> string \<Rightarrow> exn" where
  "tool_missing source tool = ProviderUnavailable source ToolMissing (Some tool)"

definition bus_connection :: "string \<Rightarrow> string \<Rightarrow> 'w system_bus \<Rightarrow> ('w bus_client, unit) io" where
  "bus_connection source tool bus = (\<lambda>c.
     if has_bus c then (Inr (), c)
     else case on_bus (bus_open bus) c of
            (Inl e, c') \<Rightarrow> (Inl (tool_missing source tool), c')
          | (Inr _, c') \<Rightarrow> (Inr (), c'\<lparr>has_bus := True\<rparr>))"

definition bus_availability ::
    "string \<Rightarrow> string \<Rightarrow> string \<Rightarrow> 'w system_bus \<Rightarrow> 'w bus_client \<Rightarrow> availability \<times> 'w bus_client" where
  "bus_availability source tool name bus c =
     (case bus_connection source tool bus c of
        (Inl _, c') \<Rightarrow> (ToolMissing, c')
      | (Inr _, c') \<Rightarrow>
          (case on_bus (name_has_owner bus name) c' of
             (Inr True, c'') \<Rightarrow> (AvailOK, c'')
           | (_, c'') \<Rightarrow> (ToolMissing, c'')))"

definition subscribe_all :: "'w system_bus \<Rightarrow> subscription list \<Rightarrow> ('w bus_client, unit) io" where
  "subscribe_all bus subs = (\<lambda>c. (Inr (), c\<lparr>outside := fold (signal_subscribe bus) subs (outside c)\<rparr>))"

text \<open>\<open>try: call except GLib.Error as exc: raise f(exc)\<close>\<close>

definition translating :: "(gerror \<Rightarrow> exn) \<Rightarrow> ('w, 'a) gcall \<Rightarrow> ('w, 'a) io" where
  "translating f call = (\<lambda>w. case call w of (Inl e, w') \<Rightarrow> (Inl (f e), w') | (Inr x, w') \<Rightarrow> (Inr x, w'))"

lemma lapcare_only_translating [io_intros]: "(\<And>e. is_lapcare_error (f e)) \<Longrightarrow> lapcare_only (translating f call)"
  by (auto simp: lapcare_only_def translating_def split: prod.splits sum.splits)

lemma lapcare_tool_missing [simp]: "is_lapcare_error (tool_missing source tool)"
  by (simp add: tool_missing_def)

lemma lapcare_only_connection [io_intros]: "lapcare_only (bus_connection source tool bus)"
  by (auto simp: lapcare_only_def bus_connection_def split: if_splits prod.splits sum.splits)

lemma lapcare_only_raise [io_intros]: "is_lapcare_error e \<Longrightarrow> lapcare_only (io_raise e)"
  by (simp add: lapcare_only_def)

lemma never_raises_subscribe [io_intros]: "lapcare_only (subscribe_all bus subs)"
  by (simp add: lapcare_only_def subscribe_all_def)

text \<open>The connection is opened once: the next use finds it and asks the bus nothing.\<close>

lemma connection_cached:
  "bus_connection source tool bus c = (Inr (), c') \<Longrightarrow> bus_connection source tool bus c' = (Inr (), c')"
  by (auto simp: bus_connection_def split: if_splits prod.splits sum.splits)

lemma io_bind_InrE:
  assumes "io_bind m f w = (Inr y, w')"
  obtains x v where "m w = (Inr x, v)" "f x v = (Inr y, w')"
  using assms by (cases "m w"; cases "fst (m w)") (auto simp: io_bind_def)

lemma io_mapM_results:
  "io_mapM f xs w = (Inr ys, w') \<Longrightarrow> list_all2 (\<lambda>x y. \<exists>w w'. f x w = (Inr y, w')) xs ys"
proof (induction xs arbitrary: w ys)
  case (Cons x xs)
  then show ?case by (fastforce elim!: io_bind_InrE)
qed simp

lemma list_all2_right: "list_all2 P xs ys \<Longrightarrow> y \<in> set ys \<Longrightarrow> \<exists>x\<in>set xs. P x y"
  by (induction rule: list_all2_induct) auto

end
