(* ===== verification/UPower.thy ===== *)
theory UPower
  imports Dbus
begin

text \<open>
  \<open>providers/upower.py\<close>: the live battery status over D-Bus. The bus is the parameter of
  theory \<open>Dbus\<close>.
\<close>

definition SOURCE_UPOWER :: string where "SOURCE_UPOWER = ''upower''"
definition UPOWER_NAME :: string where "UPOWER_NAME = ''org.freedesktop.UPower''"
definition MANAGER_PATH :: string where "MANAGER_PATH = ''/org/freedesktop/UPower''"
definition DEVICE_IFACE :: string where "DEVICE_IFACE = ''org.freedesktop.UPower.Device''"

definition STATE_MAP :: "(int \<times> battery_state) list" where
  "STATE_MAP = [(1, Charging), (2, Discharging), (3, Empty), (4, Full), (5, NotCharging), (6, NotCharging)]"

definition upower_state :: "int \<Rightarrow> battery_state" where
  "upower_state n = (case dict_get n STATE_MAP of None \<Rightarrow> StUnknown | Some s \<Rightarrow> s)"

definition upower_connection :: "'w system_bus \<Rightarrow> ('w bus_client, unit) io" where
  "upower_connection = bus_connection SOURCE_UPOWER ''upower''"

definition upower_availability :: "'w system_bus \<Rightarrow> 'w bus_client \<Rightarrow> availability \<times> 'w bus_client" where
  "upower_availability = bus_availability SOURCE_UPOWER ''upower'' UPOWER_NAME"

definition call_error :: "gerror \<Rightarrow> exn" where
  "call_error e =
     (if contains (ge_message e) ''Timeout'' then ProviderTimeout SOURCE_UPOWER (ge_message e)
      else tool_missing SOURCE_UPOWER ''upower'')"

definition upower_call :: "'w system_bus \<Rightarrow> ('w, 'a) gcall \<Rightarrow> ('w bus_client, 'a) io" where
  "upower_call bus call = io_bind (upower_connection bus) (\<lambda>_. translating call_error (on_bus call))"

definition seconds :: "props \<Rightarrow> string \<Rightarrow> exn + int option" where
  "seconds props k = (case to_int (prop_default props k (GInt 0)) of
     Inl e \<Rightarrow> Inl e | Inr n \<Rightarrow> Inr (if n = 0 then None else Some n))"

definition opt_float :: "props \<Rightarrow> string \<Rightarrow> exn + pyfloat option" where
  "opt_float props k = (case dict_get k props of
     None \<Rightarrow> Inr None
   | Some v \<Rightarrow> (case to_float v of Inl e \<Rightarrow> Inl e | Inr x \<Rightarrow> Inr (Some x)))"

definition path_tail :: "string \<Rightarrow> string" where
  "path_tail p = rev (takeWhile (\<lambda>c. c \<noteq> CHR ''/'') (rev p))"

definition native_name :: "props \<Rightarrow> string \<Rightarrow> string" where
  "native_name props p = (case dict_get ''NativePath'' props of
     Some v \<Rightarrow> if truthy v then value_str v else path_tail p
   | None \<Rightarrow> path_tail p)"

definition battery_props :: "props \<Rightarrow> bool" where
  "battery_props props \<longleftrightarrow>
     (case dict_get ''Type'' props of Some v \<Rightarrow> equals_int v 2 | None \<Rightarrow> False) \<and>
     truthy (prop_default props ''PowerSupply'' (GBool False))"

text \<open>The body of the \<open>try\<close>, in the order Python evaluates it.\<close>

definition build_status :: "props \<Rightarrow> string \<Rightarrow> exn + battery_status" where
  "build_status props p =
     (case seconds props ''TimeToEmpty'' of Inl e \<Rightarrow> Inl e | Inr tte \<Rightarrow>
     (case seconds props ''TimeToFull'' of Inl e \<Rightarrow> Inl e | Inr ttf \<Rightarrow>
     (case to_int (prop_default props ''State'' (GInt 0)) of Inl e \<Rightarrow> Inl e | Inr st \<Rightarrow>
     (case opt_float props ''Percentage'' of Inl e \<Rightarrow> Inl e | Inr pct \<Rightarrow>
     (case opt_float props ''EnergyRate'' of Inl e \<Rightarrow> Inl e | Inr rate \<Rightarrow>
        Inr \<lparr>bs_name = native_name props p, bs_state = upower_state st, bs_percentage = pct,
             bs_time_to_empty_s = tte, bs_time_to_full_s = ttf, bs_energy_rate_w = rate\<rparr>)))))"

fun status_error :: "string \<Rightarrow> exn \<Rightarrow> exn" where
  "status_error p (PyException cls msg) =
     (if cls \<in> {''TypeError'', ''ValueError'', ''KeyError''}
      then ProviderParseError SOURCE_UPOWER (''device '' @ p @ '': '' @ msg) else PyException cls msg)"
| "status_error p e = e"

definition device_status :: "string \<Rightarrow> props \<Rightarrow> exn + battery_status option" where
  "device_status p props =
     (if \<not> battery_props props then Inr None
      else case build_status props p of
             Inl e \<Rightarrow> Inl (status_error p e)
           | Inr s \<Rightarrow> Inr (Some s))"

definition read_device :: "'w system_bus \<Rightarrow> string \<Rightarrow> ('w bus_client, battery_status option) io" where
  "read_device bus p =
     io_bind (upower_call bus (get_all bus UPOWER_NAME p DEVICE_IFACE))
       (\<lambda>props c. (device_status p props, c))"

definition read_status :: "'w system_bus \<Rightarrow> ('w bus_client, battery_status list) io" where
  "read_status bus =
     io_bind (upower_call bus (enumerate_devices bus)) (\<lambda>paths.
     io_bind (io_mapM (read_device bus) paths) (\<lambda>rows.
     io_return (sort_key bs_name (List.map_filter id rows))))"

definition upower_subscriptions :: "subscription list" where
  "upower_subscriptions =
     \<lparr>sub_sender = UPOWER_NAME, sub_iface = ''org.freedesktop.DBus.Properties'',
      sub_member = ''PropertiesChanged'', sub_path = None, sub_handler = ChangeHandler\<rparr> #
     List.map (\<lambda>member. \<lparr>sub_sender = UPOWER_NAME, sub_iface = UPOWER_NAME, sub_member = member,
       sub_path = Some MANAGER_PATH, sub_handler = ChangeHandler\<rparr>) [''DeviceAdded'', ''DeviceRemoved'']"

definition upower_subscribe :: "'w system_bus \<Rightarrow> ('w bus_client, unit) io" where
  "upower_subscribe bus = io_bind (upower_connection bus) (\<lambda>_. subscribe_all bus upower_subscriptions)"

section \<open>Errors\<close>

text \<open>No infinite double stands where the provider calls \<open>int()\<close>.\<close>

definition finite_ints :: "props \<Rightarrow> bool" where
  "finite_ints props \<longleftrightarrow>
     list_all (\<lambda>k. \<forall>x. dict_get k props = Some (GDouble x) \<longrightarrow> x \<noteq> PosInf \<and> x \<noteq> NegInf)
       [''TimeToEmpty'', ''TimeToFull'', ''State'']"

lemma to_int_error:
  "to_int v = Inl e \<Longrightarrow> v \<noteq> GDouble PosInf \<Longrightarrow> v \<noteq> GDouble NegInf \<Longrightarrow>
   \<exists>c m. e = PyException c m \<and> c \<in> {''TypeError'', ''ValueError''}"
  by (induction v rule: to_int.induct) (auto split: option.splits)

lemma to_float_error: "to_float v = Inl e \<Longrightarrow> \<exists>c m. e = PyException c m \<and> c \<in> {''TypeError'', ''ValueError''}"
  by (induction v rule: to_float.induct) (auto split: option.splits)

lemma prop_error:
  "finite_ints props \<Longrightarrow> k \<in> {''TimeToEmpty'', ''TimeToFull'', ''State''} \<Longrightarrow>
   to_int (prop_default props k (GInt 0)) = Inl e \<Longrightarrow> is_lapcare_error (status_error p e)"
  by (auto simp: finite_ints_def prop_default_def dest!: to_int_error split: option.splits)

lemma float_prop_error: "opt_float props k = Inl e \<Longrightarrow> is_lapcare_error (status_error p e)"
  by (auto simp: opt_float_def dest!: to_float_error split: option.splits sum.splits)

lemma device_status_error:
  assumes "finite_ints props" "device_status p props = Inl e"
  shows "is_lapcare_error e"
proof -
  obtain e' where "build_status props p = Inl e'" "e = status_error p e'"
    using assms(2) by (auto simp: device_status_def split: if_splits sum.splits)
  then show ?thesis
    using prop_error [OF assms(1)] float_prop_error
    by (auto simp: build_status_def seconds_def split: sum.splits)
qed

lemma build_status_fields:
  "build_status props p = Inr s \<Longrightarrow>
   bs_name s = native_name props p \<and> bs_time_to_empty_s s \<noteq> Some 0 \<and> bs_time_to_full_s s \<noteq> Some 0"
  by (auto simp: build_status_def seconds_def split: sum.splits if_splits)

lemma lapcare_only_call: "lapcare_only (upower_call bus call)"
  unfolding upower_call_def upower_connection_def by (auto intro!: io_intros simp: call_error_def)

definition typed_bus :: "'w system_bus \<Rightarrow> bool" where
  "typed_bus bus \<longleftrightarrow> (\<forall>p w props w'.
     get_all bus UPOWER_NAME p DEVICE_IFACE w = (Inr props, w') \<longrightarrow> finite_ints props)"

lemma upower_call_Inr:
  "upower_call bus call c = (Inr x, c') \<Longrightarrow> \<exists>w w'. call w = (Inr x, w')"
  unfolding upower_call_def
  by (erule io_bind_InrE) (force simp: translating_def on_bus_def split: prod.splits sum.splits)

lemma read_device_Inr:
  assumes "read_device bus p c = (Inr r, c')"
  shows "\<exists>props w w'. get_all bus UPOWER_NAME p DEVICE_IFACE w = (Inr props, w') \<and> device_status p props = Inr r"
  using assms unfolding read_device_def
  by (elim io_bind_InrE) (auto dest!: upower_call_Inr)

lemma lapcare_only_read_device:
  assumes "typed_bus bus"
  shows "lapcare_only (read_device bus p)"
  unfolding lapcare_only_def
proof (intro allI impI)
  fix c e c'
  assume err: "read_device bus p c = (Inl e, c')"
  show "is_lapcare_error e"
  proof (cases "upower_call bus (get_all bus UPOWER_NAME p DEVICE_IFACE) c")
    case (Pair r v)
    show ?thesis
    proof (cases r)
      case (Inl e')
      with Pair err lapcare_only_call [of bus "get_all bus UPOWER_NAME p DEVICE_IFACE"] show ?thesis
        by (auto simp: read_device_def io_bind_def lapcare_only_def)
    next
      case (Inr props)
      then have "finite_ints props" using Pair upower_call_Inr assms by (fastforce simp: typed_bus_def)
      with Inr Pair err show ?thesis by (auto simp: read_device_def io_bind_def dest: device_status_error)
    qed
  qed
qed

section \<open>Properties\<close>

text \<open>Whatever the daemon answers (with numbers where its interface has integers), reading the live
  status raises only Lapcare errors, and a status list is sorted by name, comes only from
  system batteries, in the sense of UPower's type and power-supply flags, and never reports
  a remaining time of zero, which UPower uses for an unknown one.\<close>

theorem read_status_result:
  assumes "typed_bus bus"
  shows "case fst (read_status bus c) of
      Inl e \<Rightarrow> is_lapcare_error e
    | Inr bs \<Rightarrow> sorted (List.map bs_name bs) \<and>
        (\<forall>b\<in>set bs. (\<exists>p props. battery_props props \<and> bs_name b = native_name props p) \<and>
           bs_time_to_empty_s b \<noteq> Some 0 \<and> bs_time_to_full_s b \<noteq> Some 0)"
proof (cases "read_status bus c")
  case (Pair r c')
  show ?thesis
  proof (cases r)
    case (Inl e)
    have "lapcare_only (read_status bus)"
      unfolding read_status_def by (intro io_intros lapcare_only_call lapcare_only_read_device assms)
    with Pair Inl show ?thesis by (auto simp: lapcare_only_def)
  next
    case (Inr bs)
    obtain paths v rows v' where rows: "io_mapM (read_device bus) paths v = (Inr rows, v')"
      and bs: "bs = sort_key bs_name (List.map_filter id rows)"
      using Pair Inr by (auto simp: read_status_def elim!: io_bind_InrE)
    have "\<exists>p props. battery_props props \<and> device_status p props = Inr (Some b)" if "b \<in> set bs" for b
    proof -
      have "Some b \<in> set rows" using that by (auto simp: bs set_map_filter)
      then obtain p where "\<exists>w w'. read_device bus p w = (Inr (Some b), w')"
        using list_all2_right [OF io_mapM_results [OF rows]] by blast
      then obtain props where "device_status p props = Inr (Some b)" by (auto dest: read_device_Inr)
      then show ?thesis by (auto simp: device_status_def split: if_splits)
    qed
    then have "(\<exists>p props. battery_props props \<and> bs_name b = native_name props p) \<and>
        bs_time_to_empty_s b \<noteq> Some 0 \<and> bs_time_to_full_s b \<noteq> Some 0" if "b \<in> set bs" for b
      using that by (fastforce simp: device_status_def dest: build_status_fields split: if_splits sum.splits)
    with Pair Inr show ?thesis by (simp add: bs)
  qed
qed

definition example_bus :: "unit system_bus" where
  "example_bus = \<lparr>bus_open = (\<lambda>w. (Inr (), w)), name_has_owner = (\<lambda>n w. (Inr True, w)),
     enumerate_devices = (\<lambda>w. (Inr [''/dev/mouse'', ''/dev/BAT0''], w)),
     get_all = (\<lambda>n p i w. (Inr (if p = ''/dev/BAT0''
        then [(''Type'', GInt 2), (''PowerSupply'', GBool True), (''State'', GInt 5), (''TimeToEmpty'', GInt 0)]
        else [(''Type'', GInt 5)]), w)),
     signal_subscribe = (\<lambda>s w. w)\<rparr>"

theorem read_status_result_witness:
  "fst (read_status example_bus \<lparr>has_bus = False, outside = ()\<rparr>) =
     Inr [\<lparr>bs_name = ''BAT0'', bs_state = NotCharging, bs_percentage = None, bs_time_to_empty_s = None,
           bs_time_to_full_s = None, bs_energy_rate_w = None\<rparr>] \<and>
   (case fst (read_status example_bus \<lparr>has_bus = False, outside = ()\<rparr>) of
      Inl e \<Rightarrow> is_lapcare_error e | Inr bs \<Rightarrow> sorted (List.map bs_name bs))"
proof -
  have "typed_bus example_bus"
    by (simp add: typed_bus_def example_bus_def finite_ints_def)
  note r = read_status_result [OF this, of "\<lparr>has_bus = False, outside = ()\<rparr>"]
  have v: "fst (read_status example_bus \<lparr>has_bus = False, outside = ()\<rparr>) =
     Inr [\<lparr>bs_name = ''BAT0'', bs_state = NotCharging, bs_percentage = None, bs_time_to_empty_s = None,
           bs_time_to_full_s = None, bs_energy_rate_w = None\<rparr>]"
    by code_simp
  with r show ?thesis by simp
qed

end
