(* ===== verification/Fwupd.thy ===== *)
theory Fwupd
  imports Dbus
begin

text \<open>
  \<open>providers/fwupd.py\<close>: firmware devices, upgrades, metadata refresh and installs through
  libfwupd. The library's client is the parameter \<open>fwupd_client\<close> (what each blocking call answers
  and does to the world), its GObjects are records of what their getters return.
\<close>

definition SOURCE_FWUPD :: string where "SOURCE_FWUPD = ''fwupd''"
definition FWUPD_NAME :: string where "FWUPD_NAME = ''org.freedesktop.fwupd''"
definition UNKNOWN_BATTERY :: int where "UNKNOWN_BATTERY = 101"

section \<open>libfwupd's objects\<close>

datatype raw_state =
  RawUnknown | RawPending | RawSuccess | RawFailed | RawFailedTransient | RawNeedsReboot | RawState int

datatype raw_urgency = UrgencyUnknown | UrgencyLow | UrgencyMedium | UrgencyHigh | UrgencyCritical

datatype remote_kind = KindDownload | KindOther

record raw_device =
  rd_id :: "string option"
  rd_name :: "string option"
  rd_summary :: "string option"
  rd_vendor :: "string option"
  rd_version :: "string option"
  rd_version_lowest :: "string option"
  rd_updatable :: bool
  rd_needs_reboot :: bool
  rd_plugin :: "string option"
  rd_update_state :: raw_state
  rd_update_error :: "string option"

record raw_release =
  rr_version :: "string option"
  rr_name :: "string option"
  rr_summary :: "string option"
  rr_description :: "string option"
  rr_size :: int
  rr_urgency :: raw_urgency

record raw_remote =
  rm_id :: "string option"
  rm_kind :: remote_kind
  rm_enabled :: bool

record 'w fwupd_client =
  get_devices :: "('w, raw_device list) gcall"
  get_device_by_id :: "string \<Rightarrow> ('w, raw_device) gcall"
  get_upgrades :: "string \<Rightarrow> ('w, raw_release list) gcall"
  get_remotes :: "('w, raw_remote list) gcall"
  refresh_remote :: "raw_remote \<Rightarrow> ('w, unit) gcall"
  install_release :: "raw_device \<Rightarrow> raw_release \<Rightarrow> ('w, unit) gcall"

text \<open>The provider's own state: the callback that listens to an install, and the bus client.\<close>

record ('cb, 'w) fwupd_state = "'w bus_client" +
  on_progress :: "'cb option"

section \<open>Translation to the models\<close>

fun UPDATE_STATE_MAP :: "raw_state \<Rightarrow> update_state" where
  "UPDATE_STATE_MAP RawUnknown = UpdUnknown"
| "UPDATE_STATE_MAP RawPending = UpdPending"
| "UPDATE_STATE_MAP RawSuccess = UpdSuccess"
| "UPDATE_STATE_MAP RawFailed = UpdFailed"
| "UPDATE_STATE_MAP RawFailedTransient = UpdFailedTransient"
| "UPDATE_STATE_MAP RawNeedsReboot = UpdNeedsReboot"
| "UPDATE_STATE_MAP (RawState _) = UpdUnknown"

fun URGENCY_MAP :: "raw_urgency \<Rightarrow> string option" where
  "URGENCY_MAP UrgencyCritical = Some ''critical''"
| "URGENCY_MAP UrgencyHigh = Some ''high''"
| "URGENCY_MAP UrgencyMedium = Some ''medium''"
| "URGENCY_MAP UrgencyLow = Some ''low''"
| "URGENCY_MAP UrgencyUnknown = None"

definition device_to_model :: "raw_device \<Rightarrow> exn + firmware_device" where
  "device_to_model d =
     (if or_str (rd_id d) [] = [] then Inl (ProviderParseError SOURCE_FWUPD ''device with no id'')
      else Inr \<lparr>fd_id = or_str (rd_id d) [], fd_name = rd_name d, fd_summary = rd_summary d,
                fd_vendor = rd_vendor d, fd_version = rd_version d,
                fd_version_lowest = rd_version_lowest d, fd_updatable = rd_updatable d,
                fd_needs_reboot = rd_needs_reboot d, fd_plugin = rd_plugin d,
                fd_update_state = UPDATE_STATE_MAP (rd_update_state d),
                fd_update_error = rd_update_error d\<rparr>)"

definition release_to_model :: "raw_release \<Rightarrow> exn + firmware_release" where
  "release_to_model r =
     (if or_str (rr_version r) [] = [] then Inl (ProviderParseError SOURCE_FWUPD ''release with no version'')
      else Inr \<lparr>fr_version = or_str (rr_version r) [], fr_name = rr_name r, fr_summary = rr_summary r,
                fr_description = rr_description r,
                fr_size = (if rr_size r = 0 then None else Some (rr_size r)),
                fr_urgency = URGENCY_MAP (rr_urgency r)\<rparr>)"

definition is_auth_error :: "gerror \<Rightarrow> bool" where
  "is_auth_error e \<longleftrightarrow> ge_domain e = FwupdDomain \<and> ge_code e \<in> {''AUTH_FAILED'', ''PERMISSION_DENIED''}"

definition translate_install_error :: "string \<Rightarrow> gerror \<Rightarrow> exn" where
  "translate_install_error device_id e =
     (if is_auth_error e then PrivilegedActionDenied (FWUPD_NAME @ ''.install'')
      else FirmwareInstallFailed device_id (ge_message e))"

fun collect :: "('a \<Rightarrow> exn + 'b) \<Rightarrow> 'a list \<Rightarrow> exn + 'b list" where
  "collect f [] = Inr []"
| "collect f (x # xs) = (case f x of Inl e \<Rightarrow> Inl e | Inr y \<Rightarrow>
     (case collect f xs of Inl e \<Rightarrow> Inl e | Inr ys \<Rightarrow> Inr (y # ys)))"

definition device_key :: "firmware_device \<Rightarrow> string" where
  "device_key d = or_str (fd_name d) (fd_id d)"

definition fwupd_missing :: exn where
  "fwupd_missing = tool_missing SOURCE_FWUPD ''fwupd''"

section \<open>Reads\<close>

definition on_client :: "('w, 'a) gcall \<Rightarrow> (('cb, 'w) fwupd_state, 'a) gcall" where
  "on_client call = (\<lambda>s. case call (outside s) of (r, w) \<Rightarrow> (r, s\<lparr>outside := w\<rparr>))"

definition fwupd_list_devices :: "'w fwupd_client \<Rightarrow> (('cb, 'w) fwupd_state, firmware_device list) io" where
  "fwupd_list_devices client =
     io_bind (translating (\<lambda>e. fwupd_missing) (on_client (get_devices client))) (\<lambda>ds s.
       (case collect device_to_model ds of Inl e \<Rightarrow> Inl e | Inr ms \<Rightarrow> Inr (sort_key device_key ms), s))"

definition nothing_newer :: "gerror \<Rightarrow> bool" where
  "nothing_newer e \<longleftrightarrow> ge_domain e = FwupdDomain \<and> ge_code e \<in> {''NOTHING_TO_DO'', ''NOT_FOUND''}"

definition fwupd_list_upgrades :: "'w fwupd_client \<Rightarrow> string \<Rightarrow> (('cb, 'w) fwupd_state, firmware_release list) io" where
  "fwupd_list_upgrades client device_id = (\<lambda>s.
     case on_client (get_upgrades client device_id) s of
       (Inl e, s') \<Rightarrow> (if nothing_newer e then Inr [] else Inl fwupd_missing, s')
     | (Inr rs, s') \<Rightarrow> (collect release_to_model rs, s'))"

fun refresh_all :: "'w fwupd_client \<Rightarrow> raw_remote list \<Rightarrow> ('cb, 'w) fwupd_state \<Rightarrow> string list \<times> ('cb, 'w) fwupd_state" where
  "refresh_all client [] s = ([], s)"
| "refresh_all client (r # rs) s =
     (case on_client (refresh_remote client r) s of (res, s1) \<Rightarrow>
      (case refresh_all client rs s1 of (failures, s2) \<Rightarrow>
        (case res of Inl e \<Rightarrow> or_str (rm_id r) ''?'' # failures | Inr _ \<Rightarrow> failures, s2)))"

definition refresh_targets :: "raw_remote list \<Rightarrow> raw_remote list" where
  "refresh_targets rs = filter (\<lambda>r. rm_kind r = KindDownload \<and> rm_enabled r) rs"

definition refresh_metadata :: "'w fwupd_client \<Rightarrow> (('cb, 'w) fwupd_state, unit) io" where
  "refresh_metadata client =
     io_bind (translating (\<lambda>e. fwupd_missing) (on_client (get_remotes client))) (\<lambda>remotes s.
       let targets = refresh_targets remotes in
       case refresh_all client targets s of (failures, s') \<Rightarrow>
         (if targets \<noteq> [] \<and> length failures = length targets
          then Inl (ProviderTimeout SOURCE_FWUPD (''all remotes unreachable: '' @ joinwith '', '' failures))
          else Inr (), s'))"

section \<open>The bus: availability, battery, signals\<close>

definition fwupd_connection :: "'w system_bus \<Rightarrow> ('w bus_client, unit) io" where
  "fwupd_connection = bus_connection SOURCE_FWUPD ''fwupd''"

definition fwupd_availability :: "'w system_bus \<Rightarrow> 'w bus_client \<Rightarrow> availability \<times> 'w bus_client" where
  "fwupd_availability = bus_availability SOURCE_FWUPD ''fwupd'' FWUPD_NAME"

definition known_level :: "int option \<Rightarrow> int option" where
  "known_level v = (case v of None \<Rightarrow> None | Some n \<Rightarrow> if n < UNKNOWN_BATTERY then Some n else None)"

definition battery_precondition ::
    "'w system_bus \<Rightarrow> 'w bus_client \<Rightarrow> (int option \<times> int option) \<times> 'w bus_client" where
  "battery_precondition bus c =
     (case fwupd_connection bus c of
        (Inl _, c') \<Rightarrow> ((None, None), c')
      | (Inr _, c') \<Rightarrow>
          (case on_bus (get_all bus FWUPD_NAME ''/'' FWUPD_NAME) c' of
             (Inl _, c'') \<Rightarrow> ((None, None), c'')
           | (Inr props, c'') \<Rightarrow>
               ((known_level (get_uint props ''BatteryLevel''), known_level (get_uint props ''BatteryThreshold'')), c'')))"

definition fwupd_subscriptions :: "subscription list" where
  "fwupd_subscriptions =
     List.map (\<lambda>member. \<lparr>sub_sender = FWUPD_NAME, sub_iface = FWUPD_NAME, sub_member = member,
       sub_path = Some ''/'', sub_handler = ChangeHandler\<rparr>)
       [''Changed'', ''DeviceAdded'', ''DeviceRemoved'', ''DeviceChanged''] @
     [\<lparr>sub_sender = FWUPD_NAME, sub_iface = ''org.freedesktop.DBus.Properties'',
       sub_member = ''PropertiesChanged'', sub_path = Some ''/'', sub_handler = ProgressHandler\<rparr>]"

definition fwupd_subscribe :: "'w system_bus \<Rightarrow> ('w bus_client, unit) io" where
  "fwupd_subscribe bus = io_bind (fwupd_connection bus) (\<lambda>_. subscribe_all bus fwupd_subscriptions)"

text \<open>
  What a \<open>PropertiesChanged\<close> signal makes of the changed properties: the call of the listening
  callback, if any. The nicks of \<open>Fwupd.Status\<close> are libfwupd's.
\<close>

definition properties_changed :: "(int \<Rightarrow> string) \<Rightarrow> 'cb option \<Rightarrow> props \<Rightarrow> ('cb \<times> int option \<times> string) option" where
  "properties_changed status_nick cb changed =
     (case cb of None \<Rightarrow> None | Some f \<Rightarrow>
        if dict_get ''Percentage'' changed = None \<and> dict_get ''Status'' changed = None then None
        else Some (f,
          (case get_uint changed ''Percentage'' of Some n \<Rightarrow> if n = 0 then None else Some n | None \<Rightarrow> None),
          (case get_uint changed ''Status'' of Some n \<Rightarrow> status_nick n | None \<Rightarrow> [])))"

section \<open>Install\<close>

definition resolve_release ::
    "'w fwupd_client \<Rightarrow> string \<Rightarrow> string \<Rightarrow> (('cb, 'w) fwupd_state, raw_device \<times> raw_release option) gcall" where
  "resolve_release client device_id version = (\<lambda>s.
     case on_client (get_device_by_id client device_id) s of
       (Inl e, s1) \<Rightarrow> (Inl e, s1)
     | (Inr d, s1) \<Rightarrow>
         (case on_client (get_upgrades client device_id) s1 of
            (Inl e, s2) \<Rightarrow> (Inl e, s2)
          | (Inr rs, s2) \<Rightarrow> (Inr (d, find (\<lambda>r. rr_version r = Some version) rs), s2)))"

text \<open>The flash itself, on a client of its own; the listener is cleared whatever happens.\<close>

definition flash ::
    "'w fwupd_client \<Rightarrow> string \<Rightarrow> 'cb \<Rightarrow> raw_device \<Rightarrow> raw_release \<Rightarrow> (('cb, 'w) fwupd_state, unit) io" where
  "flash client device_id cb d r = (\<lambda>s.
     case translating (translate_install_error device_id) (on_client (install_release client d r))
            (s\<lparr>on_progress := Some cb\<rparr>) of
       (res, s') \<Rightarrow> (res, s'\<lparr>on_progress := None\<rparr>))"

definition install ::
    "'w fwupd_client \<Rightarrow> 'w fwupd_client \<Rightarrow> string \<Rightarrow> string \<Rightarrow> 'cb \<Rightarrow> (('cb, 'w) fwupd_state, unit) io" where
  "install client install_client device_id version cb =
     io_bind (translating (\<lambda>e. fwupd_missing) (resolve_release client device_id version)) (\<lambda>(d, release).
       case release of
         None \<Rightarrow> io_raise (FirmwareInstallFailed device_id (''release '' @ version @ '' no longer offered''))
       | Some r \<Rightarrow> flash install_client device_id cb d r)"

section \<open>Errors\<close>

lemma fwupd_missing_lapcare [simp]: "is_lapcare_error fwupd_missing"
  by (simp add: fwupd_missing_def)

lemma collect_error: "collect f xs = Inl e \<Longrightarrow> (\<And>x e. f x = Inl e \<Longrightarrow> is_lapcare_error e) \<Longrightarrow> is_lapcare_error e"
  by (induction xs) (auto split: sum.splits)

lemma device_to_model_error: "device_to_model d = Inl e \<Longrightarrow> is_lapcare_error e"
  by (auto simp: device_to_model_def split: if_splits)

lemma release_to_model_error: "release_to_model r = Inl e \<Longrightarrow> is_lapcare_error e"
  by (auto simp: release_to_model_def split: if_splits)

lemma lapcare_only_pure: "(\<And>e. x = Inl e \<Longrightarrow> is_lapcare_error e) \<Longrightarrow> lapcare_only (\<lambda>s. (x, s))"
  by (simp add: lapcare_only_def)

lemma lapcare_only_list_devices: "lapcare_only (fwupd_list_devices client)"
  unfolding fwupd_list_devices_def
  by (intro io_intros lapcare_only_pure) (auto split: sum.splits dest: collect_error [OF _ device_to_model_error])

lemma lapcare_only_list_upgrades: "lapcare_only (fwupd_list_upgrades client i)"
  by (auto simp: lapcare_only_def fwupd_list_upgrades_def on_client_def
      dest: collect_error [OF _ release_to_model_error] split: prod.splits sum.splits if_splits)

lemma lapcare_only_refresh: "lapcare_only (refresh_metadata client)"
  unfolding refresh_metadata_def
  by (intro io_intros) (auto simp: lapcare_only_def Let_def split: prod.splits if_splits)

lemma lapcare_only_flash: "lapcare_only (flash client i cb d r)"
  by (auto simp: lapcare_only_def flash_def translating_def translate_install_error_def
      split: prod.splits sum.splits if_splits)

lemma lapcare_only_install: "lapcare_only (install client install_client i v cb)"
  unfolding install_def
  by (intro io_intros) (auto intro!: io_intros lapcare_only_flash split: prod.splits option.splits)

interpretation devices: port_read "fwupd_list_devices client"
  using lapcare_only_list_devices [of client] by unfold_locales (auto simp: lapcare_only_def)

interpretation upgrades: port_read "fwupd_list_upgrades client i"
  using lapcare_only_list_upgrades [of client i] by unfold_locales (auto simp: lapcare_only_def)

section \<open>Refresh and install, case by case\<close>

lemma refresh_all_failures:
  "\<forall>r w. fst (refresh_remote client r w) = answer r \<Longrightarrow>
   fst (refresh_all client rs s) = List.map (\<lambda>r. or_str (rm_id r) ''?'') (filter (\<lambda>r. isl (answer r)) rs)"
proof (induction rs arbitrary: s)
  case (Cons r rs)
  obtain s1 where s1: "on_client (refresh_remote client r) s = (answer r, s1)"
  proof
    show "on_client (refresh_remote client r) s =
        (answer r, s\<lparr>outside := snd (refresh_remote client r (outside s))\<rparr>)"
      using Cons.prems by (simp add: on_client_def case_prod_unfold)
  qed
  show ?case
    using Cons.IH [OF Cons.prems, of s1]
    by (cases "answer r"; cases "refresh_all client rs s1") (simp_all add: s1)
qed simp








section \<open>Properties\<close>





text \<open>A metadata refresh is reported as failed exactly when there is something to refresh and nothing
  could be: if the remotes answer for themselves, the result is a timeout naming every target
  when all enabled download remotes fail, and success otherwise, whatever the others do.\<close>

theorem refresh_fails_iff_all_fail:
  assumes "get_remotes client (outside s) = (Inr remotes, w)"
    and "\<forall>r w. fst (refresh_remote client r w) = answer r"
  shows "fst (refresh_metadata client s) =
    (if refresh_targets remotes \<noteq> [] \<and> (\<forall>r\<in>set (refresh_targets remotes). isl (answer r))
     then Inl (ProviderTimeout SOURCE_FWUPD (''all remotes unreachable: '' @
            joinwith '', '' (List.map (\<lambda>r. or_str (rm_id r) ''?'') (refresh_targets remotes))))
     else Inr ())"
proof -
  let ?ts = "refresh_targets remotes"
  obtain fs s' where fs: "refresh_all client ?ts (s\<lparr>outside := w\<rparr>) = (fs, s')" by (metis surj_pair)
  have f: "fs = List.map (\<lambda>r. or_str (rm_id r) ''?'') (filter (\<lambda>r. isl (answer r)) ?ts)"
    using refresh_all_failures [OF assms(2), of ?ts "s\<lparr>outside := w\<rparr>"] fs by simp
  have all: "length (filter P xs) = length xs \<longleftrightarrow> (\<forall>x\<in>set xs. P x)" for P and xs :: "raw_remote list"
    by (metis filter_id_conv length_filter_less less_irrefl)
  show ?thesis
    using assms(1) fs f all [of "\<lambda>r. isl (answer r)" ?ts]
    by (auto simp: refresh_metadata_def io_bind_def translating_def on_client_def Let_def filter_id_conv)
qed

definition offline_client :: "raw_remote list \<Rightarrow> unit fwupd_client" where
  "offline_client remotes = \<lparr>get_devices = (\<lambda>w. (Inr [], w)),
     get_device_by_id = (\<lambda>i w. (Inl \<lparr>ge_domain = FwupdDomain, ge_code = ''NOT_FOUND'', ge_message = []\<rparr>, w)),
     get_upgrades = (\<lambda>i w. (Inr [], w)), get_remotes = (\<lambda>w. (Inr remotes, w)),
     refresh_remote = (\<lambda>m w. (Inl \<lparr>ge_domain = OtherDomain, ge_code = [], ge_message = ''offline''\<rparr>, w)),
     install_release = (\<lambda>d r w. (Inr (), w))\<rparr>"

theorem refresh_fails_iff_all_fail_witness:
  "\<exists>remotes. fst (refresh_metadata (offline_client remotes) \<lparr>has_bus = True, outside = (), on_progress = None :: unit option\<rparr>) =
     Inl (ProviderTimeout ''fwupd'' ''all remotes unreachable: lvfs, ?'')"
proof -
  let ?rs = "[\<lparr>rm_id = Some ''lvfs'', rm_kind = KindDownload, rm_enabled = True\<rparr>,
     \<lparr>rm_id = Some ''off'', rm_kind = KindDownload, rm_enabled = False\<rparr>,
     \<lparr>rm_id = None, rm_kind = KindDownload, rm_enabled = True\<rparr>]"
  let ?s = "\<lparr>has_bus = True, outside = (), on_progress = None :: unit option\<rparr>"
  have "fst (refresh_metadata (offline_client ?rs) ?s) =
      Inl (ProviderTimeout SOURCE_FWUPD (''all remotes unreachable: '' @ joinwith '', '' [''lvfs'', ''?'']))"
    using refresh_fails_iff_all_fail [where client = "offline_client ?rs" and s = ?s and remotes = ?rs and w = "()"
        and answer = "\<lambda>r. Inl \<lparr>ge_domain = OtherDomain, ge_code = [], ge_message = ''offline''\<rparr>"]
    by (simp add: offline_client_def refresh_targets_def)
  then show ?thesis by (intro exI [of _ ?rs]) (simp add: SOURCE_FWUPD_def)
qed

end
