(* ===== verification/PageVM.thy ===== *)
theory PageVM
  imports Ports
begin

text \<open>
  \<open>ui/pages/base_view_model.py\<close>: the state every page view-model extends, its four-state
  contract and the one place where an error becomes text; with the helpers the pages share.
  User-visible text is the untranslated message (gettext without a catalogue). A page's
  operations are functions of its record; what it submits to the scheduler is a job of a
  datatype of its own, recorded in the page's list of pending jobs until it completes.
\<close>

datatype page_state = Loading | Ready | Unavailable | PageError

definition STATES :: "page_state list" where
  "STATES = [Loading, Ready, Unavailable, PageError]"

record page_vm =
  pg_state :: page_state
  unavailable_reason :: string
  unavailable_remedy :: string
  error_detail :: string

definition new_page :: page_vm where
  "new_page = \<lparr>pg_state = Loading, unavailable_reason = [], unavailable_remedy = [], error_detail = []\<rparr>"

definition show_loading :: "'x page_vm_scheme \<Rightarrow> 'x page_vm_scheme" where
  "show_loading v = v\<lparr>pg_state := Loading\<rparr>"

definition show_ready :: "'x page_vm_scheme \<Rightarrow> 'x page_vm_scheme" where
  "show_ready v = v\<lparr>pg_state := Ready\<rparr>"

definition show_unavailable :: "string \<Rightarrow> string \<Rightarrow> 'x page_vm_scheme \<Rightarrow> 'x page_vm_scheme" where
  "show_unavailable reason remedy v =
     v\<lparr>unavailable_reason := reason, unavailable_remedy := remedy, pg_state := Unavailable\<rparr>"

definition show_error :: "string \<Rightarrow> 'x page_vm_scheme \<Rightarrow> 'x page_vm_scheme" where
  "show_error detail v = v\<lparr>error_detail := detail, pg_state := PageError\<rparr>"

text \<open>The UTF-8 bytes of the punctuation in user-visible text.\<close>

definition EM_DASH :: string where "EM_DASH = [CHR 0xE2, CHR 0x80, CHR 0x94]"
definition MIDDLE_DOT :: string where "MIDDLE_DOT = [CHR 0xC2, CHR 0xB7]"
definition ELLIPSIS :: string where "ELLIPSIS = [CHR 0xE2, CHR 0x80, CHR 0xA6]"
definition DEGREE :: string where "DEGREE = [CHR 0xC2, CHR 0xB0]"

definition PLACEHOLDER :: string where "PLACEHOLDER = EM_DASH"

definition in_quotes :: "string \<Rightarrow> string" where
  "in_quotes s = CHR 0x27 # s @ [CHR 0x27]"

fun handle_error :: "exn \<Rightarrow> 'x page_vm_scheme \<Rightarrow> 'x page_vm_scheme" where
  "handle_error (ProviderUnavailable src reason tool) v =
     (if reason = ToolMissing
      then show_unavailable ''This panel needs a tool that is not installed.''
             (if or_str tool [] \<noteq> [] then ''Install the '' @ in_quotes (or_str tool []) @ '' package to enable it.''
              else ''Install the missing tool to enable it.'') v
      else if reason = PermissionDenied
      then show_unavailable ''Lapcare does not have permission to read this data.''
             ''This data needs administrator access.'' v
      else show_unavailable ''This hardware does not expose this data.''
             (''Nothing to do '' @ EM_DASH @ '' the panel is not applicable to this machine.'') v)"
| "handle_error (ProviderTimeout src d) v = show_error (exn_str (ProviderTimeout src d)) v"
| "handle_error (ProviderParseError src d) v = show_error (exn_str (ProviderParseError src d)) v"
| "handle_error e v = show_error (''Unexpected error: '' @ exn_str e) v"

lemmas page_defs = show_loading_def show_ready_def show_unavailable_def show_error_def

text \<open>A page that shows no data says why: an unavailable one names the remedy.\<close>

definition page_explains :: "'x page_vm_scheme \<Rightarrow> bool" where
  "page_explains v \<longleftrightarrow>
     (case pg_state v of
        Unavailable \<Rightarrow> unavailable_reason v \<noteq> [] \<and> unavailable_remedy v \<noteq> []
      | PageError \<Rightarrow> error_detail v \<noteq> []
      | _ \<Rightarrow> True)"

lemma page_explains_simps [simp]:
  "page_explains (show_loading v)" "page_explains (show_ready v)"
  "page_explains (show_unavailable r m v) \<longleftrightarrow> r \<noteq> [] \<and> m \<noteq> []"
  "page_explains (show_error d v) \<longleftrightarrow> d \<noteq> []"
  by (simp_all add: page_explains_def page_defs)

lemma handle_error_explains [simp]: "page_explains (handle_error e v)"
  by (cases e) simp_all

lemma handle_error_state: "pg_state (handle_error e v) \<in> {Unavailable, PageError}"
  by (cases e) (simp_all add: page_defs)

section \<open>Text\<close>

text \<open>\<open>sep.join(x for x in xs if x)\<close>\<close>

definition join_present :: "string \<Rightarrow> string option list \<Rightarrow> string" where
  "join_present sep xs = joinwith sep (filter (\<lambda>s. s \<noteq> []) (List.map (\<lambda>x. or_str x []) xs))"

definition dotted :: "string option list \<Rightarrow> string" where
  "dotted = join_present ('' '' @ MIDDLE_DOT @ '' '')"

section \<open>Live updates\<close>

text \<open>\<open>start_live_updates\<close>: a subscription that fails with a Lapcare error is done without.\<close>

definition start_live_updates :: "('w, unit) io \<Rightarrow> ('w, unit) io" where
  "start_live_updates subscribe =
     io_catch subscribe (\<lambda>e. if is_lapcare_error e then Some (io_return ()) else None)"

lemma start_live_updates_total: "lapcare_only subscribe \<Longrightarrow> never_raises (start_live_updates subscribe)"
  unfolding start_live_updates_def by (intro io_intros) (auto intro: io_intros)

section \<open>The reference page\<close>

definition demo_unavailable :: "page_vm \<Rightarrow> page_vm" where
  "demo_unavailable = show_unavailable ''This panel needs a tool that is not installed.''
     (''Install the '' @ in_quotes ''example-tool'' @ '' package to enable it.'')"

definition demo_error :: "page_vm \<Rightarrow> page_vm" where
  "demo_error = show_error (''Example failure detail '' @ EM_DASH @ '' copy this text into a bug report.'')"

fun index_of :: "'a \<Rightarrow> 'a list \<Rightarrow> nat" where
  "index_of x [] = 0"
| "index_of x (y # ys) = (if x = y then 0 else Suc (index_of x ys))"

definition advance :: "page_vm \<Rightarrow> page_state \<times> page_vm" where
  "advance v =
     (let nxt = STATES ! (Suc (index_of (pg_state v) STATES) mod length STATES)
      in (nxt, if nxt = Unavailable then demo_unavailable v
               else if nxt = PageError then demo_error v
               else v\<lparr>pg_state := nxt\<rparr>))"

lemma advance_state: "pg_state (snd (advance v)) = fst (advance v)"
  by (cases "pg_state v") (simp_all add: advance_def STATES_def demo_unavailable_def demo_error_def page_defs)

lemma advance_order:
  "fst (advance v) = (case pg_state v of Loading \<Rightarrow> Ready | Ready \<Rightarrow> Unavailable
     | Unavailable \<Rightarrow> PageError | PageError \<Rightarrow> Loading)"
  by (cases "pg_state v") (simp_all add: advance_def STATES_def)

end
