(* ===== verification/FirmwarePage.thy ===== *)
theory FirmwarePage
  imports PageVM FirmwarePolicy
begin

text \<open>
  \<open>ui/pages/firmware/view_model.py\<close>: the firmware page as a state machine. Its events are the
  user's actions, the daemon's change and progress signals, the debounce timer and the
  completions of submitted jobs; \<open>firmware_step\<close> lets them interleave in any order.
\<close>

record device_card =
  dc_id :: string
  dc_title :: string
  dc_subtitle :: string
  dc_version_text :: string
  dc_updatable :: bool
  dc_releases :: "firmware_release list"
  dc_upgrade_note :: string
  dc_update_error :: string

datatype firmware_job = GatherJob | RefreshJob | InstallJob string firmware_release

record firmware_vm = page_vm +
  fv_busy_text :: string
  fv_flow_banner :: string
  fv_reboot_banner :: string
  fv_result_text :: string
  fv_toast_text :: string
  fv_reload_pending :: bool
  fv_installing :: bool
  fv_cards :: "device_card list"
  fv_jobs :: "firmware_job list"
  fv_timers :: nat

type_synonym gathered = "(firmware_device \<times> firmware_release list \<times> string) list"

definition new_firmware_page :: firmware_vm where
  "new_firmware_page = \<lparr>pg_state = Loading, unavailable_reason = [], unavailable_remedy = [], error_detail = [],
     fv_busy_text = [], fv_flow_banner = [], fv_reboot_banner = [], fv_result_text = [], fv_toast_text = [],
     fv_reload_pending = False, fv_installing = False, fv_cards = [], fv_jobs = [], fv_timers = 0\<rparr>"

definition URGENCY_TEXT :: "(string \<times> string) list" where
  "URGENCY_TEXT = [(''critical'', ''Critical''), (''high'', ''High priority''),
     (''medium'', ''Medium priority''), (''low'', ''Low priority'')]"

definition REBOOT_PENDING_STATES :: "update_state list" where
  "REBOOT_PENDING_STATES = [UpdNeedsReboot, UpdPending]"

section \<open>Loading\<close>

definition submit_job :: "firmware_job \<Rightarrow> firmware_vm \<Rightarrow> firmware_vm" where
  "submit_job j v = v\<lparr>fv_jobs := fv_jobs v @ [j]\<rparr>"

definition complete_job :: "firmware_job \<Rightarrow> firmware_vm \<Rightarrow> firmware_vm" where
  "complete_job j v = v\<lparr>fv_jobs := remove1 j (fv_jobs v)\<rparr>"

definition load_firmware :: "firmware_vm \<Rightarrow> firmware_vm" where
  "load_firmware v = submit_job GatherJob (show_loading v)"

definition load_failed :: "exn \<Rightarrow> firmware_vm \<Rightarrow> firmware_vm" where
  "load_failed e v = handle_error e v"

definition on_changed :: "firmware_vm \<Rightarrow> firmware_vm" where
  "on_changed v =
     (if fv_reload_pending v \<or> fv_installing v then v
      else v\<lparr>fv_reload_pending := True, fv_timers := Suc (fv_timers v)\<rparr>)"

text \<open>The timer's callback, which does not renew itself.\<close>

definition reload_timer :: "firmware_vm \<Rightarrow> firmware_vm" where
  "reload_timer v =
     (let v' = v\<lparr>fv_timers := fv_timers v - 1, fv_reload_pending := False\<rparr>
      in if fv_installing v' then v' else submit_job GatherJob v')"

definition DEGRADED_NOTE :: string where
  "DEGRADED_NOTE = ''Could not check for updates for this device.''"

definition gather_device ::
    "'w firmware_provider \<Rightarrow> firmware_device \<Rightarrow> ('w, firmware_device \<times> firmware_release list \<times> string) io" where
  "gather_device fw d =
     (if fd_updatable d
      then io_catch (io_bind (list_upgrades fw (fd_id d)) (\<lambda>rs. io_return (d, rs, [])))
             (\<lambda>e. if is_lapcare_error e then Some (io_return (d, [], DEGRADED_NOTE)) else None)
      else io_return (d, [], []))"

definition gather_firmware :: "'w firmware_provider \<Rightarrow> ('w, gathered) io" where
  "gather_firmware fw = io_bind (fw_list_devices fw) (io_mapM (gather_device fw))"

fun device_card_of :: "firmware_device \<times> firmware_release list \<times> string \<Rightarrow> device_card" where
  "device_card_of (d, releases, note) =
     \<lparr>dc_id = fd_id d, dc_title = or_str (fd_name d) (fd_id d), dc_subtitle = dotted [fd_vendor d, fd_plugin d],
      dc_version_text = or_str (fd_version d) PLACEHOLDER, dc_updatable = fd_updatable d,
      dc_releases = releases, dc_upgrade_note = note, dc_update_error = or_str (fd_update_error d) []\<rparr>"

definition reboot_pending :: "gathered \<Rightarrow> string list" where
  "reboot_pending data =
     List.map (\<lambda>(d, _). or_str (fd_name d) (fd_id d))
       (filter (\<lambda>(d, _). fd_update_state d \<in> set REBOOT_PENDING_STATES) data)"

definition apply_firmware :: "gathered \<Rightarrow> firmware_vm \<Rightarrow> firmware_vm" where
  "apply_firmware data v =
     (if data = []
      then show_unavailable ''fwupd reports no firmware devices on this system.''
             (''Nothing to do '' @ EM_DASH @ '' no device exposes updatable firmware.'') v
      else show_ready (v\<lparr>fv_cards := List.map device_card_of data,
             fv_reboot_banner :=
               (if reboot_pending data \<noteq> []
                then ''Restart the system to finish updating: '' @ joinwith '', '' (reboot_pending data)
                else [])\<rparr>))"

section \<open>Metadata refresh\<close>

definition start_refresh :: "firmware_vm \<Rightarrow> firmware_vm" where
  "start_refresh v =
     (if fv_busy_text v \<noteq> [] then v
      else submit_job RefreshJob (v\<lparr>fv_busy_text := ''Refreshing update metadata'' @ ELLIPSIS\<rparr>))"

definition refresh_done :: "firmware_vm \<Rightarrow> firmware_vm" where
  "refresh_done v =
     submit_job GatherJob (v\<lparr>fv_busy_text := [], fv_toast_text := ''Update metadata refreshed.''\<rparr>)"

definition refresh_failed :: "exn \<Rightarrow> firmware_vm \<Rightarrow> firmware_vm" where
  "refresh_failed e v = v\<lparr>fv_busy_text := [],
     fv_toast_text := ''Could not refresh update metadata '' @ EM_DASH @ '' check your connection.''\<rparr>"

section \<open>The install flow\<close>

definition INSTALLING :: string where
  "INSTALLING = ''Installing firmware update'' @ ELLIPSIS"

definition low_battery_text :: "int option \<Rightarrow> int option \<Rightarrow> string" where
  "low_battery_text level threshold =
     ''Battery too low for a firmware update ('' @ show_int (case level of None \<Rightarrow> 0 | Some n \<Rightarrow> n) @
     ''%, needs '' @ show_int (case threshold of None \<Rightarrow> 0 | Some n \<Rightarrow> n) @ ''%). Connect AC power and charge first.''"

text \<open>The battery values are the provider's answer to \<open>battery_precondition\<close>, asked only when idle.\<close>

definition request_install ::
    "string \<Rightarrow> firmware_release \<Rightarrow> int option \<times> int option \<Rightarrow> firmware_vm \<Rightarrow> firmware_vm" where
  "request_install device_id release battery v =
     (if fv_busy_text v \<noteq> [] then v
      else if \<not> battery_ok_for_update (fst battery) (snd battery)
      then v\<lparr>fv_flow_banner := low_battery_text (fst battery) (snd battery)\<rparr>
      else submit_job (InstallJob device_id release)
             (v\<lparr>fv_flow_banner := [], fv_result_text := [], fv_installing := True, fv_busy_text := INSTALLING\<rparr>))"

definition on_install_progress :: "int option \<Rightarrow> string \<Rightarrow> firmware_vm \<Rightarrow> firmware_vm" where
  "on_install_progress percentage status v =
     (if \<not> fv_installing v then v
      else let text = (if status = [] then INSTALLING else capitalize status)
           in v\<lparr>fv_busy_text := (case percentage of None \<Rightarrow> text
                | Some p \<Rightarrow> text @ '' '' @ MIDDLE_DOT @ '' '' @ show_int p @ ''%'')\<rparr>)"

definition install_done :: "firmware_release \<Rightarrow> firmware_vm \<Rightarrow> firmware_vm" where
  "install_done r v =
     submit_job GatherJob (v\<lparr>fv_installing := False, fv_busy_text := [],
       fv_result_text := strip (''Updated to '' @ or_str (fr_name r) ''firmware update'' @ '' '' @ fr_version r @
         ''. '' @ or_str (fr_summary r) [])\<rparr>)"

definition install_failed :: "exn \<Rightarrow> firmware_vm \<Rightarrow> firmware_vm" where
  "install_failed e v =
     (let v' = v\<lparr>fv_installing := False, fv_busy_text := []\<rparr> in
      case e of
        PrivilegedActionDenied _ \<Rightarrow> v'\<lparr>fv_toast_text := ''Firmware update cancelled.''\<rparr>
      | FirmwareInstallFailed _ detail \<Rightarrow>
          submit_job GatherJob (v'\<lparr>fv_flow_banner := ''The firmware update failed: '' @ detail @ '' '' @ EM_DASH @
            '' you can retry.''\<rparr>)
      | _ \<Rightarrow> handle_error e v')"

lemmas [step_defs] = load_firmware_def load_failed_def on_changed_def reload_timer_def apply_firmware_def
  start_refresh_def refresh_done_def refresh_failed_def request_install_def on_install_progress_def
  install_done_def install_failed_def submit_job_def complete_job_def page_defs

section \<open>The machine\<close>

datatype firmware_event =
    Load
  | Changed
  | Timer
  | Refresh
  | Install string firmware_release "int option \<times> int option"
  | Progress "int option" string
  | Gathered "exn + gathered"
  | Refreshed "exn + unit"
  | Installed string firmware_release "exn + unit"

text \<open>The events that can happen: a timer must be set, and a job must be pending to complete.\<close>

fun enabled :: "firmware_event \<Rightarrow> firmware_vm \<Rightarrow> bool" where
  "enabled Timer v = (0 < fv_timers v)"
| "enabled (Gathered _) v = (GatherJob \<in> set (fv_jobs v))"
| "enabled (Refreshed _) v = (RefreshJob \<in> set (fv_jobs v))"
| "enabled (Installed d r _) v = (InstallJob d r \<in> set (fv_jobs v))"
| "enabled _ v = True"

fun handle :: "firmware_event \<Rightarrow> firmware_vm \<Rightarrow> firmware_vm" where
  "handle Load v = load_firmware v"
| "handle Changed v = on_changed v"
| "handle Timer v = reload_timer v"
| "handle Refresh v = start_refresh v"
| "handle (Install d r b) v = request_install d r b v"
| "handle (Progress p s) v = on_install_progress p s v"
| "handle (Gathered (Inr data)) v = apply_firmware data (complete_job GatherJob v)"
| "handle (Gathered (Inl e)) v = load_failed e (complete_job GatherJob v)"
| "handle (Refreshed (Inr _)) v = refresh_done (complete_job RefreshJob v)"
| "handle (Refreshed (Inl e)) v = refresh_failed e (complete_job RefreshJob v)"
| "handle (Installed d r (Inr _)) v = install_done r (complete_job (InstallJob d r) v)"
| "handle (Installed d r (Inl e)) v = install_failed e (complete_job (InstallJob d r) v)"

inductive firmware_step :: "firmware_vm \<Rightarrow> firmware_event \<Rightarrow> firmware_vm \<Rightarrow> bool" where
  step: "enabled ev v \<Longrightarrow> firmware_step v ev (handle ev v)"

inductive firmware_run :: "firmware_vm \<Rightarrow> firmware_event list \<Rightarrow> firmware_vm \<Rightarrow> bool" where
  nil: "firmware_run v [] v"
| snoc: "firmware_run v evs v' \<Longrightarrow> firmware_step v' ev v'' \<Longrightarrow> firmware_run v (evs @ [ev]) v''"

inductive_simps firmware_step_iff: "firmware_step v ev v'"

section \<open>The invariant\<close>

fun is_install :: "firmware_job \<Rightarrow> bool" where
  "is_install (InstallJob _ _) = True"
| "is_install _ = False"

definition exclusive :: "firmware_vm \<Rightarrow> firmware_job list" where
  "exclusive v = filter (\<lambda>j. j \<noteq> GatherJob) (fv_jobs v)"

definition firmware_inv :: "firmware_vm \<Rightarrow> bool" where
  "firmware_inv v \<longleftrightarrow>
     length (exclusive v) = (if fv_busy_text v = [] then 0 else 1) \<and>
     fv_installing v = (\<exists>j\<in>set (exclusive v). is_install j) \<and>
     fv_timers v = (if fv_reload_pending v then 1 else 0)"

lemma handle_error_firmware [simp]:
  "fv_jobs (handle_error e v) = fv_jobs v" "fv_busy_text (handle_error e v) = fv_busy_text v"
  "fv_installing (handle_error e v) = fv_installing v" "fv_timers (handle_error e v) = fv_timers v"
  "fv_reload_pending (handle_error e v) = fv_reload_pending v"
  by (cases e; simp add: page_defs)+

lemma exclusive_jobs: "fv_jobs v' = fv_jobs v \<Longrightarrow> exclusive v' = exclusive v"
  by (simp add: exclusive_def)

lemma exclusive_submit: "exclusive (submit_job j v) = exclusive v @ (if j = GatherJob then [] else [j])"
  by (simp add: exclusive_def submit_job_def)

lemma filter_remove1: "filter P (remove1 x xs) = (if P x then remove1 x (filter P xs) else filter P xs)"
  by (induction xs) auto

lemma exclusive_complete: "exclusive (complete_job j v) = (if j = GatherJob then exclusive v else remove1 j (exclusive v))"
  by (simp add: exclusive_def complete_job_def filter_remove1)

lemma exclusive_single:
  assumes "firmware_inv v" "j \<in> set (fv_jobs v)" "j \<noteq> GatherJob"
  shows "exclusive v = [j]"
proof -
  have "j \<in> set (exclusive v)" using assms by (simp add: exclusive_def)
  with assms(1) show ?thesis
    by (cases "exclusive v" rule: remdups_adj.cases) (auto simp: firmware_inv_def split: if_splits)
qed

lemma firmware_inv_init: "firmware_inv new_firmware_page"
  by (simp add: firmware_inv_def new_firmware_page_def exclusive_def)

lemma INSTALLING_nonempty [simp]: "INSTALLING \<noteq> []"
  by (simp add: INSTALLING_def)

text \<open>The part of the state the invariant reads.\<close>

lemma firmware_inv_cong:
  "firmware_inv v \<Longrightarrow> exclusive v' = exclusive v \<Longrightarrow> (fv_busy_text v' = []) = (fv_busy_text v = []) \<Longrightarrow>
   fv_installing v' = fv_installing v \<Longrightarrow> fv_timers v' = fv_timers v \<Longrightarrow>
   fv_reload_pending v' = fv_reload_pending v \<Longrightarrow> firmware_inv v'"
  by (simp add: firmware_inv_def)

lemma inv_load [inv_intros]: "firmware_inv v \<Longrightarrow> firmware_inv (load_firmware v)"
  by (erule firmware_inv_cong) (simp_all add: load_firmware_def exclusive_submit, simp_all add: step_defs exclusive_def)

lemma inv_gathered [inv_intros]:
  "firmware_inv v \<Longrightarrow> firmware_inv (load_failed e (complete_job GatherJob v))"
  "firmware_inv v \<Longrightarrow> firmware_inv (apply_firmware data (complete_job GatherJob v))"
  by (erule firmware_inv_cong; simp add: step_defs exclusive_def filter_remove1)+

lemma inv_changed [inv_intros]: "firmware_inv v \<Longrightarrow> firmware_inv (on_changed v)"
  by (auto simp: firmware_inv_def on_changed_def exclusive_def)

lemma inv_timer [inv_intros]: "firmware_inv v \<Longrightarrow> 0 < fv_timers v \<Longrightarrow> firmware_inv (reload_timer v)"
  by (auto simp: firmware_inv_def reload_timer_def Let_def submit_job_def exclusive_def split: if_splits)

lemma inv_refresh [inv_intros]: "firmware_inv v \<Longrightarrow> firmware_inv (start_refresh v)"
  by (auto simp: firmware_inv_def start_refresh_def submit_job_def exclusive_def)

lemma inv_request [inv_intros]: "firmware_inv v \<Longrightarrow> firmware_inv (request_install d r b v)"
  by (auto simp: firmware_inv_def request_install_def submit_job_def exclusive_def)

lemma busy_installing: "firmware_inv v \<Longrightarrow> fv_installing v \<Longrightarrow> fv_busy_text v \<noteq> []"
  by (auto simp: firmware_inv_def split: if_splits)

lemma inv_progress [inv_intros]:
  assumes "firmware_inv v"
  shows "firmware_inv (on_install_progress p s v)"
  by (rule firmware_inv_cong [OF assms])
     (use busy_installing [OF assms] in \<open>auto simp: on_install_progress_def Let_def exclusive_def split: option.split\<close>)

lemma inv_idle:
  assumes "firmware_inv v" "j \<in> set (fv_jobs v)" "j \<noteq> GatherJob"
    and "exclusive v' = []" "fv_busy_text v' = []" "\<not> fv_installing v'"
    and "fv_timers v' = fv_timers v" "fv_reload_pending v' = fv_reload_pending v"
  shows "firmware_inv v'"
  using assms by (simp add: firmware_inv_def)

lemma exclusive_completed:
  "firmware_inv v \<Longrightarrow> j \<in> set (fv_jobs v) \<Longrightarrow> j \<noteq> GatherJob \<Longrightarrow> filter (\<lambda>j. j \<noteq> GatherJob) (remove1 j (fv_jobs v)) = []"
  using exclusive_single [of v j] by (simp add: filter_remove1 exclusive_def)

lemma not_installing:
  assumes "firmware_inv v" "RefreshJob \<in> set (fv_jobs v)"
  shows "\<not> fv_installing v"
proof -
  have "exclusive v = [RefreshJob]" using assms by (rule exclusive_single) simp
  with assms(1) show ?thesis by (simp add: firmware_inv_def)
qed

lemma inv_refreshed [inv_intros]:
  assumes "firmware_inv v" "RefreshJob \<in> set (fv_jobs v)"
  shows "firmware_inv (refresh_done (complete_job RefreshJob v))" "firmware_inv (refresh_failed e (complete_job RefreshJob v))"
proof -
  note idle = exclusive_completed [OF assms, simplified] not_installing [OF assms]
  show "firmware_inv (refresh_done (complete_job RefreshJob v))"
    by (rule inv_idle [OF assms]) (simp_all add: idle refresh_done_def submit_job_def complete_job_def exclusive_def)
  show "firmware_inv (refresh_failed e (complete_job RefreshJob v))"
    by (rule inv_idle [OF assms]) (simp_all add: idle refresh_failed_def complete_job_def exclusive_def)
qed

lemma install_failed_fields [simp]:
  "fv_busy_text (install_failed e v) = []" "fv_installing (install_failed e v) = False"
  "fv_timers (install_failed e v) = fv_timers v" "fv_reload_pending (install_failed e v) = fv_reload_pending v"
  "exclusive (install_failed e v) = exclusive v"
  by (simp_all add: install_failed_def Let_def exclusive_submit del: handle_error.simps split: exn.split)
     (simp_all add: submit_job_def exclusive_def del: handle_error.simps split: exn.split)

lemma inv_installed [inv_intros]:
  assumes "firmware_inv v" "InstallJob d r \<in> set (fv_jobs v)"
  shows "firmware_inv (install_done q (complete_job (InstallJob d r) v))"
    "firmware_inv (install_failed e (complete_job (InstallJob d r) v))"
proof -
  note idle = exclusive_completed [OF assms, simplified]
  show "firmware_inv (install_done q (complete_job (InstallJob d r) v))"
    by (rule inv_idle [OF assms]) (simp_all add: idle install_done_def submit_job_def complete_job_def exclusive_def)
  have "exclusive (complete_job (InstallJob d r) v) = []"
    using exclusive_single [OF assms] by (simp add: exclusive_complete)
  then show "firmware_inv (install_failed e (complete_job (InstallJob d r) v))"
    by (intro inv_idle [OF assms]) (simp_all add: complete_job_def)
qed

lemma firmware_inv_handle: "firmware_inv v \<Longrightarrow> enabled ev v \<Longrightarrow> firmware_inv (handle ev v)"
  by (induction ev v rule: handle.induct) (auto intro!: inv_intros)

lemma firmware_run_inv: "firmware_run v evs v' \<Longrightarrow> firmware_inv v \<Longrightarrow> firmware_inv v'"
  by (induction rule: firmware_run.induct) (auto simp: firmware_step_iff intro: firmware_inv_handle)

section \<open>Where an install comes from\<close>

lemma install_origin:
  assumes "InstallJob d r \<in> set (fv_jobs (handle ev v))"
  shows "InstallJob d r \<in> set (fv_jobs v) \<or>
    (\<exists>b. ev = Install d r b \<and> battery_ok_for_update (fst b) (snd b) \<and> fv_busy_text v = [])"
proof -
  have sub: "InstallJob d r \<in> set (fv_jobs (submit_job j w)) \<longleftrightarrow> j = InstallJob d r \<or> InstallJob d r \<in> set (fv_jobs w)" for j w
    by (auto simp: submit_job_def)
  have com: "InstallJob d r \<in> set (fv_jobs (complete_job j w)) \<Longrightarrow> InstallJob d r \<in> set (fv_jobs w)" for j w
    using set_remove1_subset [of j "fv_jobs w"] by (auto simp: complete_job_def)
  have fail: "InstallJob d r \<in> set (fv_jobs (install_failed e w)) \<Longrightarrow> InstallJob d r \<in> set (fv_jobs w)" for e w
    by (auto simp: install_failed_def Let_def sub simp del: handle_error.simps split: exn.splits)
  show ?thesis using assms
    by (induction ev v rule: handle.induct)
       (auto simp: load_firmware_def on_changed_def reload_timer_def start_refresh_def request_install_def
         on_install_progress_def apply_firmware_def load_failed_def refresh_done_def refresh_failed_def
         install_done_def Let_def page_defs sub simp del: handle_error.simps
         dest: com fail split: if_splits)
qed

section \<open>Properties\<close>

text \<open>C3: In every state the firmware page can reach, under any interleaving of user actions, daemon signals,
  timer ticks and completions: the busy text shows exactly while one refresh or install is
  pending, never two; the page thinks it is installing exactly while an install is pending;
  and at most one reload timer is set, exactly when a reload is marked pending.\<close>

theorem firmware_page_exclusive:
  assumes "firmware_run new_firmware_page evs v"
  shows "length (filter (\<lambda>j. j \<noteq> GatherJob) (fv_jobs v)) = (if fv_busy_text v = [] then 0 else 1) \<and>
    (fv_installing v \<longleftrightarrow> (\<exists>d r. InstallJob d r \<in> set (fv_jobs v))) \<and>
    fv_timers v = (if fv_reload_pending v then 1 else 0)"
proof -
  have "firmware_inv v" using firmware_run_inv [OF assms firmware_inv_init] .
  moreover have "(\<exists>j\<in>set (exclusive v). is_install j) \<longleftrightarrow> (\<exists>d r. InstallJob d r \<in> set (fv_jobs v))"
    by (auto simp: exclusive_def elim!: is_install.elims)
  ultimately show ?thesis by (simp add: firmware_inv_def exclusive_def)
qed

theorem firmware_page_exclusive_witness:
  "\<exists>v. firmware_run new_firmware_page [Load, Install ''dev'' (blank_release ''2'') (Some 80, Some 30), Refresh] v \<and>
     length (filter (\<lambda>j. j \<noteq> GatherJob) (fv_jobs v)) = 1 \<and> fv_installing v"
proof -
  let ?evs = "[Load, Install ''dev'' (blank_release ''2'') (Some 80, Some 30), Refresh]"
  let ?v = "handle Refresh (handle (Install ''dev'' (blank_release ''2'') (Some 80, Some 30)) (handle Load new_firmware_page))"
  have "firmware_run new_firmware_page ([] @ [Load]) (handle Load new_firmware_page)"
    by (rule firmware_run.snoc [OF firmware_run.nil]) (simp add: firmware_step_iff)
  then have "firmware_run new_firmware_page (([] @ [Load]) @ [Install ''dev'' (blank_release ''2'') (Some 80, Some 30)])
      (handle (Install ''dev'' (blank_release ''2'') (Some 80, Some 30)) (handle Load new_firmware_page))"
    by (rule firmware_run.snoc) (simp add: firmware_step_iff)
  then have "firmware_run new_firmware_page ((([] @ [Load]) @ [Install ''dev'' (blank_release ''2'') (Some 80, Some 30)]) @ [Refresh]) ?v"
    by (rule firmware_run.snoc) (simp add: firmware_step_iff)
  then have run: "firmware_run new_firmware_page ?evs ?v" by simp
  have "fv_installing ?v" "fv_busy_text ?v \<noteq> []" by code_simp+
  with firmware_page_exclusive [OF run] run show ?thesis by (intro exI [of _ ?v]) simp
qed

text \<open>C8: An install is never started behind the user's back: whenever one is pending, the user asked for
  exactly that release on that device at a moment when the page was idle and the battery
  precondition, as fwupd reported it then, allowed the update.\<close>

theorem install_only_on_request:
  assumes "firmware_run new_firmware_page evs v" "InstallJob d r \<in> set (fv_jobs v)"
  shows "\<exists>pre b post w. evs = pre @ Install d r b # post \<and> firmware_run new_firmware_page pre w \<and>
    fv_busy_text w = [] \<and> battery_ok_for_update (fst b) (snd b)"
proof -
  have "\<exists>pre b post w. evs = pre @ Install d r b # post \<and> firmware_run u pre w \<and>
      fv_busy_text w = [] \<and> battery_ok_for_update (fst b) (snd b)"
    if "firmware_run u evs v" "InstallJob d r \<in> set (fv_jobs v)" "InstallJob d r \<notin> set (fv_jobs u)" for u
    using that
  proof (induction rule: firmware_run.induct)
    case (snoc u evs v ev v')
    then have "InstallJob d r \<in> set (fv_jobs (handle ev v))" by (simp add: firmware_step_iff)
    from install_origin [OF this] show ?case
    proof
      assume "InstallJob d r \<in> set (fv_jobs v)"
      with snoc obtain pre b post w where "evs = pre @ Install d r b # post" "firmware_run u pre w"
        "fv_busy_text w = []" "battery_ok_for_update (fst b) (snd b)" by blast
      then show ?thesis by (intro exI [of _ pre] exI [of _ b] exI [of _ "post @ [ev]"] exI [of _ w]) simp
    next
      assume "\<exists>b. ev = Install d r b \<and> battery_ok_for_update (fst b) (snd b) \<and> fv_busy_text v = []"
      with snoc.hyps show ?thesis by blast
    qed
  qed simp
  with assms show ?thesis by (simp add: new_firmware_page_def)
qed

theorem install_only_on_request_witness:
  "\<exists>pre b post w. [Install ''dev'' (blank_release ''2'') (None, None)] = pre @ Install ''dev'' (blank_release ''2'') b # post \<and>
     firmware_run new_firmware_page pre w \<and> fv_busy_text w = [] \<and> battery_ok_for_update (fst b) (snd b)"
proof (rule install_only_on_request)
  let ?ev = "Install ''dev'' (blank_release ''2'') (None, None)"
  have "firmware_run new_firmware_page ([] @ [?ev]) (handle ?ev new_firmware_page)"
    by (rule firmware_run.snoc [OF firmware_run.nil]) (simp add: firmware_step_iff)
  then show "firmware_run new_firmware_page [?ev] (handle ?ev new_firmware_page)" by simp
  show "InstallJob ''dev'' (blank_release ''2'') \<in> set (fv_jobs (handle ?ev new_firmware_page))"
    by (simp add: request_install_def new_firmware_page_def battery_ok_for_update_def submit_job_def)
qed

text \<open>The comment in \<open>_on_changed\<close> says that the reload after an install covers the change signals skipped
  meanwhile. It does when the install succeeds or fails; after a declined authorization, and
  after any other error, no reload is pending and the skipped change stays unseen.\<close>

theorem skipped_change_reloaded_iff:
  assumes "fv_busy_text v = []" "fv_jobs v = []" "fv_timers v = 0" "\<not> fv_reload_pending v"
    and "battery_ok_for_update (fst b) (snd b)"
  shows "let v' = handle (Installed d r res) (handle Changed (handle (Install d r b) v)) in
    fv_timers v' = 0 \<and>
    fv_jobs v' = (case res of Inr _ \<Rightarrow> [GatherJob] | Inl (FirmwareInstallFailed _ _) \<Rightarrow> [GatherJob] | Inl _ \<Rightarrow> [])"
  using assms
  by (cases res; cases "projl res")
     (simp_all add: request_install_def on_changed_def submit_job_def complete_job_def install_done_def
        install_failed_def Let_def del: handle_error.simps)

theorem skipped_change_reloaded_iff_witness:
  "let v' = handle (Installed ''dev'' (blank_release ''2'') (Inl (PrivilegedActionDenied ''x'')))
        (handle Changed (handle (Install ''dev'' (blank_release ''2'') (None, None)) new_firmware_page)) in
    fv_timers v' = 0 \<and> fv_jobs v' = []"
  using skipped_change_reloaded_iff [of new_firmware_page "(None, None)" "''dev''" "blank_release ''2''"
      "Inl (PrivilegedActionDenied ''x'')"]
  by (simp add: new_firmware_page_def battery_ok_for_update_def Let_def)

end
