(* ===== verification/StoragePage.thy ===== *)
theory StoragePage
  imports PageVM StorageSmart Dbus
begin

text \<open>
  \<open>ui/pages/storage/view_model.py\<close>: the storage page. The inventory is its core, the health read
  an explicit privileged action over all drives. The provider is the injected record of
  theory \<open>Ports\<close>; the lemmas about whole runs are for the real one, on the real runner.
\<close>

section \<open>Text\<close>

definition size_text :: "int option \<Rightarrow> string" where
  "size_text size_bytes = (case size_bytes of
     None \<Rightarrow> []
   | Some n \<Rightarrow>
       if 1000 ^ 4 \<le> n then fmt_fixed 1 (int_truediv n (1000 ^ 4)) @ '' TB''
       else if 1000 ^ 3 \<le> n then fmt_fixed 1 (int_truediv n (1000 ^ 3)) @ '' GB''
       else fmt_fixed 0 (int_truediv n (1000 ^ 2)) @ '' MB'')"

definition kind_text :: "storage_device \<Rightarrow> string" where
  "kind_text d =
     (let kind = (if startswith (sd_name d) ''nvme'' then ''NVMe SSD''
                  else if sd_rotational d = Some False then ''SSD''
                  else if sd_rotational d = Some True then ''Hard disk''
                  else ''Disk'')
      in if sd_removable d = Some True then kind @ '' (removable)'' else kind)"

definition health_summary_of :: "smart_report \<Rightarrow> string \<times> bool" where
  "health_summary_of r =
     (if sr_passed r = Some False then (''FAILING '' @ EM_DASH @ '' back up your data now'', True)
      else if sr_passed r = Some True then (''Healthy'', False)
      else (''Health not reported'', False))"

definition opt_row :: "string \<Rightarrow> ('a \<Rightarrow> string) \<Rightarrow> 'a option \<Rightarrow> (string \<times> string) list" where
  "opt_row label f v = (case v of None \<Rightarrow> [] | Some x \<Rightarrow> [(label, f x)])"

definition percent :: "int \<Rightarrow> string" where
  "percent n = show_int n @ ''%''"

definition health_rows_of :: "smart_report \<Rightarrow> (string \<times> string) list" where
  "health_rows_of r =
     opt_row ''Temperature'' (\<lambda>n. show_int n @ '' '' @ DEGREE @ ''C'') (sr_temperature_c r) @
     opt_row ''Rated endurance used'' percent (sr_percentage_used r) @
     opt_row ''Spare capacity available'' percent (sr_available_spare_pct r) @
     opt_row ''Media errors'' show_int (sr_media_errors r) @
     opt_row ''Reallocated sectors'' show_int (sr_reallocated_sectors r) @
     opt_row ''Sectors pending reallocation'' show_int (sr_pending_sectors r) @
     opt_row ''Powered on'' (\<lambda>n. show_int n @ '' hours'') (sr_power_on_hours r) @
     opt_row ''Power cycles'' show_int (sr_power_cycles r) @
     opt_row ''Unsafe shutdowns'' show_int (sr_unsafe_shutdowns r) @
     opt_row ''Firmware'' id (sr_firmware_version r) @
     (if sr_messages r = [] then [] else [(''Notes'', joinwith ''; '' (sr_messages r))])"

section \<open>The page\<close>

record storage_card =
  sc_name :: string
  sc_title :: string
  sc_subtitle :: string
  sc_health_summary :: string
  sc_health_failed :: bool
  sc_health_rows :: "(string \<times> string) list"
  sc_health_note :: string

datatype storage_job = InventoryJob | HealthJob "string list"

record storage_vm = page_vm +
  sv_busy_text :: string
  sv_toast_text :: string
  sv_cards :: "storage_card list"
  sv_jobs :: "storage_job list"

type_synonym health_results = "(string \<times> smart_report option \<times> string) list"

definition new_storage_page :: storage_vm where
  "new_storage_page = \<lparr>pg_state = Loading, unavailable_reason = [], unavailable_remedy = [], error_detail = [],
     sv_busy_text = [], sv_toast_text = [], sv_cards = [], sv_jobs = []\<rparr>"

definition load_storage :: "storage_vm \<Rightarrow> storage_vm" where
  "load_storage v = (show_loading v)\<lparr>sv_jobs := sv_jobs v @ [InventoryJob]\<rparr>"

definition storage_load_failed :: "exn \<Rightarrow> storage_vm \<Rightarrow> storage_vm" where
  "storage_load_failed e v = handle_error e v"

definition storage_card_of :: "storage_device \<Rightarrow> storage_card" where
  "storage_card_of d = \<lparr>sc_name = sd_name d, sc_title = or_str (sd_model d) (sd_name d),
     sc_subtitle = dotted [Some (size_text (sd_size_bytes d)), Some (kind_text d), Some (sd_name d)],
     sc_health_summary = [], sc_health_failed = False, sc_health_rows = [], sc_health_note = []\<rparr>"

definition apply_storage :: "storage_device list \<Rightarrow> storage_vm \<Rightarrow> storage_vm" where
  "apply_storage devices v =
     (if devices = []
      then show_unavailable ''No storage devices found.''
             (''Nothing to do '' @ EM_DASH @ '' no physical disk is visible to this system.'') v
      else show_ready (v\<lparr>sv_cards := List.map storage_card_of devices\<rparr>))"

definition read_health :: "storage_vm \<Rightarrow> storage_vm" where
  "read_health v =
     (if sv_busy_text v \<noteq> [] \<or> sv_cards v = [] then v
      else v\<lparr>sv_busy_text := ''Reading storage health'' @ ELLIPSIS,
             sv_jobs := sv_jobs v @ [HealthJob (List.map sc_name (sv_cards v))]\<rparr>)"

definition HEALTH_NOTE :: string where
  "HEALTH_NOTE = ''Could not read health for this device.''"

fun degrade_health :: "string \<Rightarrow> exn \<Rightarrow> ('w, string \<times> smart_report option \<times> string) io option" where
  "degrade_health n (PrivilegedActionDenied _) = None"
| "degrade_health n (ProviderUnavailable _ _ _) = None"
| "degrade_health n (PyException _ _) = None"
| "degrade_health n e = Some (io_return (n, None, HEALTH_NOTE))"

definition read_one_health ::
    "(string \<Rightarrow> ('w, smart_report) io) \<Rightarrow> string \<Rightarrow> ('w, string \<times> smart_report option \<times> string) io" where
  "read_one_health read n =
     io_catch (io_bind (read n) (\<lambda>r. io_return (n, Some r, []))) (degrade_health n)"

definition gather_health :: "(string \<Rightarrow> ('w, smart_report) io) \<Rightarrow> string list \<Rightarrow> ('w, health_results) io" where
  "gather_health read names = io_mapM (read_one_health read) names"

definition update_card :: "(string \<times> smart_report option \<times> string) list \<Rightarrow> storage_card \<Rightarrow> storage_card" where
  "update_card by_name c =
     (case dict_get (sc_name c) by_name of
        None \<Rightarrow> c\<lparr>sc_health_note := []\<rparr>
      | Some (report, note) \<Rightarrow>
          (case report of
             None \<Rightarrow> c\<lparr>sc_health_note := note\<rparr>
           | Some r \<Rightarrow> c\<lparr>sc_health_note := note, sc_health_summary := fst (health_summary_of r),
                        sc_health_failed := snd (health_summary_of r), sc_health_rows := health_rows_of r\<rparr>))"

definition health_done :: "health_results \<Rightarrow> storage_vm \<Rightarrow> storage_vm" where
  "health_done results v =
     show_ready (v\<lparr>sv_busy_text := [], sv_cards := List.map (update_card (dict_of results)) (sv_cards v)\<rparr>)"

fun health_failure_text :: "exn \<Rightarrow> string" where
  "health_failure_text (PrivilegedActionDenied _) = ''Storage health check cancelled.''"
| "health_failure_text (ProviderUnavailable _ _ tool) =
     (if or_str tool [] \<noteq> [] then ''Storage health needs the '' @ in_quotes (or_str tool []) @ '' package.''
      else ''Storage health reading is not available on this system.'')"
| "health_failure_text _ = ''Could not read storage health.''"

definition health_failed :: "exn \<Rightarrow> storage_vm \<Rightarrow> storage_vm" where
  "health_failed e v = v\<lparr>sv_busy_text := [], sv_toast_text := health_failure_text e\<rparr>"

section \<open>The machine\<close>

definition complete_storage_job :: "storage_job \<Rightarrow> storage_vm \<Rightarrow> storage_vm" where
  "complete_storage_job j v = v\<lparr>sv_jobs := remove1 j (sv_jobs v)\<rparr>"

inductive storage_page_step :: "storage_vm \<Rightarrow> storage_vm \<Rightarrow> bool" where
  load: "storage_page_step v (load_storage v)"
| listed: "InventoryJob \<in> set (sv_jobs v) \<Longrightarrow>
    storage_page_step v (apply_storage devices (complete_storage_job InventoryJob v))"
| load_failed: "InventoryJob \<in> set (sv_jobs v) \<Longrightarrow>
    storage_page_step v (storage_load_failed e (complete_storage_job InventoryJob v))"
| read: "storage_page_step v (read_health v)"
| finished: "HealthJob names \<in> set (sv_jobs v) \<Longrightarrow>
    storage_page_step v (health_done results (complete_storage_job (HealthJob names) v))"
| failed: "HealthJob names \<in> set (sv_jobs v) \<Longrightarrow>
    storage_page_step v (health_failed e (complete_storage_job (HealthJob names) v))"

definition health_jobs :: "storage_vm \<Rightarrow> storage_job list" where
  "health_jobs v = filter (\<lambda>j. j \<noteq> InventoryJob) (sv_jobs v)"

definition storage_inv :: "storage_vm \<Rightarrow> bool" where
  "storage_inv v \<longleftrightarrow> length (health_jobs v) = (if sv_busy_text v = [] then 0 else 1)"

lemma storage_load_failed_fields [simp]:
  "sv_jobs (handle_error e v) = sv_jobs v" "sv_busy_text (handle_error e v) = sv_busy_text v"
  by (cases e; simp add: page_defs)+

lemma health_remove1:
  "HealthJob names \<in> set js \<Longrightarrow> length (filter (\<lambda>j. j \<noteq> InventoryJob) js) \<le> 1 \<Longrightarrow>
   filter (\<lambda>j. j \<noteq> InventoryJob) (remove1 (HealthJob names) js) = []"
  by (induction js) (auto split: if_splits simp: filter_empty_conv)

lemma inventory_remove1:
  "filter (\<lambda>j. j \<noteq> InventoryJob) (remove1 InventoryJob js) = filter (\<lambda>j. j \<noteq> InventoryJob) js"
  by (induction js) auto

lemma storage_inv_step: "storage_page_step v v' \<Longrightarrow> storage_inv v \<Longrightarrow> storage_inv v'"
proof (induction rule: storage_page_step.induct)
  case (finished names v results)
  then show ?case using health_remove1 [OF finished.hyps]
    by (auto simp: storage_inv_def health_jobs_def health_done_def complete_storage_job_def page_defs split: if_splits)
next
  case (failed names v e)
  then show ?case using health_remove1 [OF failed.hyps]
    by (auto simp: storage_inv_def health_jobs_def health_failed_def complete_storage_job_def split: if_splits)
qed (simp_all add: storage_inv_def health_jobs_def load_storage_def apply_storage_def storage_load_failed_def
      read_health_def complete_storage_job_def inventory_remove1 page_defs split: if_splits del: handle_error.simps)

lemma storage_reachable_inv: "storage_page_step\<^sup>*\<^sup>* new_storage_page v \<Longrightarrow> storage_inv v"
proof (induction rule: rtranclp_induct)
  case base
  show ?case by (simp add: storage_inv_def new_storage_page_def health_jobs_def)
qed (rule storage_inv_step)

section \<open>A whole health read\<close>

lemma degrade_returns: "degrade_health n e = Some k \<Longrightarrow> k v = (Inr (n, None, HEALTH_NOTE), v)"
  by (induction n e rule: degrade_health.induct) auto

fun aborts_health :: "exn \<Rightarrow> bool" where
  "aborts_health (PrivilegedActionDenied _) = True"
| "aborts_health (ProviderUnavailable _ _ _) = True"
| "aborts_health (PyException _ _) = True"
| "aborts_health _ = False"

lemma degrade_none: "degrade_health n e = None \<longleftrightarrow> aborts_health e"
  by (cases e) auto

lemma degrade_some: "degrade_health n e = Some k \<Longrightarrow> \<not> aborts_health e"
  by (cases e) auto

lemma read_one_cases:
  "read_one_health read n w =
     (case read n w of
        (Inr r, w') \<Rightarrow> (Inr (n, Some r, []), w')
      | (Inl e, w') \<Rightarrow> (if aborts_health e then Inl e else Inr (n, None, HEALTH_NOTE), w'))"
  by (auto simp: read_one_health_def io_catch_def io_bind_def degrade_returns
      split: prod.splits sum.splits option.splits dest: degrade_none [THEN iffD1] degrade_some)

section \<open>The run on the real runner\<close>

definition same_machine :: "'x procs_scheme \<Rightarrow> 'x procs_scheme \<Rightarrow> bool" where
  "same_machine w u \<longleftrightarrow> access_x u = access_x w \<and> outcome_of u = outcome_of w"

fun spawn_args :: "proc_event \<Rightarrow> string list option" where
  "spawn_args (Spawned p a env) = Some a"
| "spawn_args (Killed p) = None"

definition commands :: "'x procs_scheme \<Rightarrow> string list list" where
  "commands w = List.map_filter spawn_args (proc_trace w)"

lemma commands_trace [simp]:
  "commands (trace_event (Spawned p a env) w) = commands w @ [a]"
  "commands (trace_event (Killed p) w) = commands w"
  by (simp_all add: commands_def trace_event_def List.map_filter_def)

lemma run_tool_machine:
  assumes "run_tool tool args t w = (r, w')"
  shows "same_machine w w'" "commands w' = commands w \<or> commands w' = commands w @ [args]"
proof -
  have keep: "same_machine w (trace_event ev w) \<and> same_machine w (trace_event ev' (trace_event ev w))" for ev ev'
    by (simp add: same_machine_def trace_event_def)
  show "same_machine w w'"
    using assms by (auto simp: run_tool_def Let_def keep split: option.splits proc_outcome.splits if_splits)
      (simp_all add: same_machine_def)
  show "commands w' = commands w \<or> commands w' = commands w @ [args]"
    using assms by (auto simp: run_tool_def Let_def split: option.splits proc_outcome.splits if_splits)
qed

lemma run_tool_same:
  "same_machine w u \<Longrightarrow> fst (run_tool tool args t u) = fst (run_tool tool args t w)"
  by (simp add: same_machine_def run_tool_def Let_def split: option.splits proc_outcome.split)

definition health_command :: "string \<Rightarrow> string list" where
  "health_command n = [HELPER_PATH, ''smart-report'', n]"

lemma smart_read_machine:
  assumes "smart_read run_tool n w = (r, w')"
  shows "same_machine w w'" "commands w' = commands w \<or> commands w' = commands w @ [health_command n]"
  using assms run_tool_machine [of "''pkexec''" "[HELPER_PATH, ''smart-report'', n]" PKEXEC_TIMEOUT_S w]
  by (auto simp: smart_read_def health_command_def split: prod.splits sum.splits)

lemma smart_read_same: "same_machine w u \<Longrightarrow> fst (smart_read run_tool n u) = fst (smart_read run_tool n w)"
  using run_tool_same [of w u "''pkexec''" "[HELPER_PATH, ''smart-report'', n]" PKEXEC_TIMEOUT_S]
  by (auto simp: smart_read_def split: prod.splits sum.splits)

definition drive_result :: "'x procs_scheme \<Rightarrow> string \<Rightarrow> exn + string \<times> smart_report option \<times> string" where
  "drive_result w n = (case fst (smart_read run_tool n w) of
     Inr r \<Rightarrow> Inr (n, Some r, [])
   | Inl e \<Rightarrow> if aborts_health e then Inl e else Inr (n, None, HEALTH_NOTE))"

lemma read_one_result: "same_machine w u \<Longrightarrow> fst (read_one_health (smart_read run_tool) n u) = drive_result w n"
  using smart_read_same [of w u n]
  by (auto simp: read_one_cases drive_result_def split: prod.splits sum.splits)

lemma read_one_machine:
  assumes "read_one_health (smart_read run_tool) n u = (r, u')"
  shows "same_machine u u'" "commands u' = commands u \<or> commands u' = commands u @ [health_command n]"
  using assms smart_read_machine [of n u] by (auto simp: read_one_cases split: prod.splits sum.splits)

fun first_failure :: "('a \<Rightarrow> 'e + 'b) \<Rightarrow> 'a list \<Rightarrow> 'e + 'b list" where
  "first_failure f [] = Inr []"
| "first_failure f (x # xs) = (case f x of Inl e \<Rightarrow> Inl e | Inr y \<Rightarrow> map_sum id (Cons y) (first_failure f xs))"

text \<open>The drives asked: those up to the first whose read aborts the run.\<close>

definition asked :: "('a \<Rightarrow> 'e + 'b) \<Rightarrow> 'a list \<Rightarrow> 'a list" where
  "asked f xs = takeWhile (\<lambda>x. \<not> isl (f x)) xs @ take 1 (dropWhile (\<lambda>x. \<not> isl (f x)) xs)"

lemma same_machine_trans: "same_machine w u \<Longrightarrow> same_machine u v \<Longrightarrow> same_machine w v"
  by (simp add: same_machine_def)

lemma gather_health_run:
  assumes "same_machine w u" "gather_health (smart_read run_tool) names u = (r, u')"
  shows "r = first_failure (drive_result w) names \<and>
    (\<exists>cs. commands u' = commands u @ cs \<and> subseq cs (List.map health_command (asked (drive_result w) names)))"
  using assms
proof (induction names arbitrary: u r u')
  case Nil
  then show ?case by (auto simp: gather_health_def asked_def)
next
  case (Cons n names)
  obtain q v where q: "read_one_health (smart_read run_tool) n u = (q, v)" by (metis surj_pair)
  have fst: "q = drive_result w n" using read_one_result [OF Cons.prems(1), of n] q by simp
  have same: "same_machine w v" using Cons.prems(1) read_one_machine(1) [OF q] by (rule same_machine_trans)
  obtain cs where cs: "commands v = commands u @ cs" "subseq cs [health_command n]"
    using read_one_machine(2) [OF q] by (metis append.right_neutral subseq_order.refl list_emb_Nil)
  show ?case
  proof (cases q)
    case (Inl e)
    with Cons.prems(2) q have "r = Inl e" "u' = v" by (auto simp: gather_health_def io_bind_def)
    with Inl fst cs show ?thesis by (auto simp: asked_def)
  next
    case (Inr y)
    obtain r' v' where g: "gather_health (smart_read run_tool) names v = (r', v')" by (metis surj_pair)
    from Cons.IH [OF same g] obtain ds where ds: "r' = first_failure (drive_result w) names"
      "commands v' = commands v @ ds" "subseq ds (List.map health_command (asked (drive_result w) names))" by blast
    have "r = map_sum id (Cons y) r'" "u' = v'"
      using Cons.prems(2) q Inr g
      by (auto simp: gather_health_def io_bind_def io_return_def split: sum.splits)
    moreover have "asked (drive_result w) (n # names) = n # asked (drive_result w) names"
      using Inr fst by (simp add: asked_def)
    moreover have "subseq (cs @ ds) ([health_command n] @ List.map health_command (asked (drive_result w) names))"
      using cs(2) ds(3) by (rule list_emb_append_mono)
    ultimately show ?thesis using Inr fst cs(1) ds(1,2) by auto
  qed
qed

lemma same_machine_refl [simp]: "same_machine w w"
  by (simp add: same_machine_def)

lemma first_failure_Inr: "first_failure f xs = Inr ys \<Longrightarrow> list_all2 (\<lambda>x y. f x = Inr y) xs ys"
proof (induction xs arbitrary: ys)
  case (Cons x xs)
  then show ?case by (cases "f x"; cases "first_failure f xs") auto
qed simp

lemma drive_result_name: "drive_result w n = Inr y \<Longrightarrow> fst y = n"
  by (auto simp: drive_result_def split: sum.splits if_splits)

lemma results_names: "list_all2 (\<lambda>x y. drive_result w x = Inr y) names rs \<Longrightarrow> List.map fst rs = names"
  by (induction rule: list_all2_induct) (auto dest: drive_result_name)

section \<open>Properties\<close>

text \<open>C19: A health run on the real runner stops at the first refusal: its outcome is the per-drive results in
  order, or the first error that is a declined authorization, a missing tool or an
  unexpected exception; and the commands it starts are at most one helper call per drive, in
  order, and none for a drive after the one that ended the run.\<close>

theorem health_run_stops_at_first_refusal:
  "fst (gather_health (smart_read run_tool) names w) = first_failure (drive_result w) names \<and>
   (\<exists>cs. commands (snd (gather_health (smart_read run_tool) names w)) = commands w @ cs \<and>
      subseq cs (List.map health_command (asked (drive_result w) names)))"
  using gather_health_run [OF same_machine_refl, of names w] by (metis prod.collapse)

text \<open>In every state the storage page can reach, its busy text shows exactly while one health read is
  pending, and never two are.\<close>

theorem storage_page_busy:
  assumes "storage_page_step\<^sup>*\<^sup>* new_storage_page v"
  shows "length (filter (\<lambda>j. j \<noteq> InventoryJob) (sv_jobs v)) = (if sv_busy_text v = [] then 0 else 1)"
  using storage_reachable_inv [OF assms] by (simp add: storage_inv_def health_jobs_def)

theorem storage_page_busy_witness:
  "\<exists>v. storage_page_step\<^sup>*\<^sup>* new_storage_page v \<and> sv_busy_text v \<noteq> [] \<and>
     length (filter (\<lambda>j. j \<noteq> InventoryJob) (sv_jobs v)) = 1"
proof -
  let ?a = "load_storage new_storage_page"
  let ?d = "\<lparr>sd_name = ''nvme0n1'', sd_model = None, sd_size_bytes = None, sd_removable = None, sd_rotational = None\<rparr>"
  let ?b = "apply_storage [?d] (complete_storage_job InventoryJob ?a)"
  let ?c = "read_health ?b"
  have "InventoryJob \<in> set (sv_jobs ?a)" by (simp add: load_storage_def)
  then have "storage_page_step new_storage_page ?a" "storage_page_step ?a ?b" "storage_page_step ?b ?c"
    by (auto intro: storage_page_step.intros)
  then have r: "storage_page_step\<^sup>*\<^sup>* new_storage_page ?c"
    by (blast intro: rtranclp.rtrancl_into_rtrancl rtranclp.rtrancl_refl)
  have "sv_busy_text ?c \<noteq> []" by code_simp
  with r storage_page_busy [OF r] show ?thesis by (intro exI [of _ ?c]) simp
qed

text \<open>When a run over the page's drives completes, every drive whose report could be read shows it: the
  alarm is raised exactly when the drive reports itself as failing, with the report's rows
  and no note left from before.\<close>

theorem drive_health_shown:
  assumes "gather_health (smart_read run_tool) (List.map sc_name (sv_cards v)) w = (Inr rs, w')"
    and "distinct (List.map sc_name (sv_cards v))" "c \<in> set (sv_cards v)"
    and "fst (smart_read run_tool (sc_name c) w) = Inr r"
  shows "\<exists>c'\<in>set (sv_cards (health_done rs v)). sc_name c' = sc_name c \<and>
    (sc_health_failed c' \<longleftrightarrow> sr_passed r = Some False) \<and> sc_health_rows c' = health_rows_of r \<and> sc_health_note c' = []"
proof -
  let ?names = "List.map sc_name (sv_cards v)"
  have all: "list_all2 (\<lambda>x y. drive_result w x = Inr y) ?names rs"
    using gather_health_run [OF same_machine_refl assms(1)] by (auto intro: first_failure_Inr)
  have "drive_result w (sc_name c) = Inr (sc_name c, Some r, [])" by (simp add: drive_result_def assms(4))
  then have mem: "(sc_name c, Some r, []) \<in> set rs"
    using all assms(3) by (fastforce simp: list_all2_conv_all_nth in_set_conv_nth)
  have names: "List.map fst rs = ?names" by (rule results_names [OF all])
  then have "dict_get (sc_name c) (dict_of rs) = Some (Some r, [])"
    using mem assms(2) by (simp add: dict_of_distinct flip: dict_get_mem)
  then have "sc_name (update_card (dict_of rs) c) = sc_name c \<and>
      (sc_health_failed (update_card (dict_of rs) c) \<longleftrightarrow> sr_passed r = Some False) \<and>
      sc_health_rows (update_card (dict_of rs) c) = health_rows_of r \<and>
      sc_health_note (update_card (dict_of rs) c) = []"
    by (simp add: update_card_def health_summary_of_def)
  moreover have "update_card (dict_of rs) c \<in> set (sv_cards (health_done rs v))"
    using assms(3) by (simp add: health_done_def page_defs)
  ultimately show ?thesis by blast
qed

theorem drive_health_shown_witness:
  "\<exists>v rs. List.map sc_name (sv_cards v) = [''sda''] \<and> rs \<noteq> [] \<and>
     (\<exists>c\<in>set (sv_cards (health_done rs v)). sc_name c = ''sda'' \<and> sc_health_failed c)"
proof -
  let ?q = "[CHR 0x22]"
  define json where "json = ''{'' @ ?q @ ''smart_status'' @ ?q @ '': {'' @ ?q @ ''passed'' @ ?q @ '': false}}''"
  let ?w = "\<lparr>access_x = (\<lambda>p. True), outcome_of = (\<lambda>p a. Exited 0 json []), proc_trace = []\<rparr>"
  let ?c = "storage_card_of \<lparr>sd_name = ''sda'', sd_model = None, sd_size_bytes = None, sd_removable = None, sd_rotational = None\<rparr>"
  let ?v = "new_storage_page\<lparr>sv_cards := [?c]\<rparr>"
  let ?r = "(blank_smart ''sda'')\<lparr>sr_passed := Some False\<rparr>"
  have p: "run_tool ''pkexec'' [HELPER_PATH, ''smart-report'', ''sda''] PKEXEC_TIMEOUT_S ?w =
      (Inr json, trace_event (Spawned ''/usr/bin/pkexec'' [HELPER_PATH, ''smart-report'', ''sda''] SCRUBBED_ENV) ?w)"
  proof -
    have a: "dict_get ''pkexec'' ALLOWED_TOOLS = Some [''/usr/bin/pkexec'']" by (simp add: ALLOWED_TOOLS_def)
    have d: "decode_replace json = json" by (rule decode_replace_valid, rule ascii_valid) (simp add: json_def)
    have "int (length json) \<le> MAX_OUTPUT_BYTES" by (simp add: json_def MAX_OUTPUT_BYTES_def)
    then show ?thesis by (simp only: run_tool_def a) (simp add: Let_def d)
  qed
  have j: "parse_output ''sda'' json = Inr ?r" unfolding json_def by code_simp
  have r: "smart_read run_tool ''sda'' ?w =
      (Inr ?r, trace_event (Spawned ''/usr/bin/pkexec'' [HELPER_PATH, ''smart-report'', ''sda''] SCRUBBED_ENV) ?w)"
    by (simp only: smart_read_def p prod.case sum.case j)
  have n: "List.map sc_name (sv_cards ?v) = [''sda'']" by (simp add: storage_card_of_def)
  obtain w' where g: "gather_health (smart_read run_tool) [''sda''] ?w = (Inr [(''sda'', Some ?r, [])], w')"
    using r by (auto simp: gather_health_def read_one_cases io_bind_def)
  have "\<exists>c'\<in>set (sv_cards (health_done [(''sda'', Some ?r, [])] ?v)). sc_name c' = sc_name ?c \<and>
    (sc_health_failed c' \<longleftrightarrow> sr_passed ?r = Some False) \<and> sc_health_rows c' = health_rows_of ?r \<and> sc_health_note c' = []"
    by (rule drive_health_shown [where w = ?w and w' = w'])
       (use n g r in \<open>simp_all add: storage_card_of_def\<close>)
  then show ?thesis using n by (intro exI [of _ ?v] exI [of _ "[(''sda'', Some ?r, [])]"]) (auto simp: storage_card_of_def)
qed

end
