(* ===== verification/ReportRender.thy ===== *)
theory ReportRender
  imports PageVM
begin

text \<open>
  \<open>ui/pages/diagnostics/report_render.py\<close>: the Markdown and HTML renderings of a report, built
  from the cards the page shows. The lemmas show that text never becomes markup: the special
  characters of an HTML document are those of its skeleton, whatever the texts are.
\<close>

record check_card =
  cc_check_id :: string
  cc_title :: string
  cc_status_text :: string
  cc_status_css :: string
  cc_subtitle :: string
  cc_evidence :: "(string \<times> string) list"

type_synonym rows = "(string \<times> string) list"

definition NL :: string where "NL = [CHR 0x0A]"

definition dash :: string where
  "dash = '' '' @ EM_DASH @ '' ''"

definition bullet :: "string \<times> string \<Rightarrow> string" where
  "bullet r = ''- '' @ fst r @ '': '' @ snd r"

section \<open>Markdown\<close>

definition markdown_card :: "check_card \<Rightarrow> string list" where
  "markdown_card c =
     [''### '' @ cc_title c @ dash @ cc_status_text c, [], cc_subtitle c] @
     (if cc_evidence c \<noteq> [] then [] # List.map bullet (cc_evidence c) else []) @ [[]]"

definition render_markdown ::
    "string \<Rightarrow> string \<Rightarrow> rows \<Rightarrow> string \<Rightarrow> string \<Rightarrow> check_card list \<Rightarrow> string" where
  "render_markdown generated app_version system_rows score_text coverage_text cards =
     joinwith NL
       ([''# Lapcare Diagnostic Report'', [], ''- Generated: '' @ generated,
         ''- Lapcare version: '' @ app_version,
         ''- Identifiers (serial numbers etc.) are excluded from this report.'', []] @
        (if system_rows \<noteq> [] then [''## System'', []] @ List.map bullet system_rows @ [[]] else []) @
        [''## Health Score'', [], ''**'' @ score_text @ ''**'' @ dash @ coverage_text, []] @
        [''## Checks'', []] @ concat (List.map markdown_card cards))"

section \<open>HTML\<close>

definition escape_char :: "char \<Rightarrow> string" where
  "escape_char c =
     (if c = CHR ''&'' then ''&amp;''
      else if c = CHR ''<'' then ''&lt;''
      else if c = CHR ''>'' then ''&gt;''
      else if c = CHR 0x22 then ''&quot;''
      else if c = CHR 0x27 then ''&#x27;''
      else [c])"

text \<open>\<open>html.escape\<close>, whose five replacements act on characters one by one.\<close>

definition html_escape :: "string \<Rightarrow> string" where
  "html_escape s = concat (List.map escape_char s)"

definition table_row :: "string \<times> string \<Rightarrow> string" where
  "table_row r = ''<tr><th>'' @ html_escape (fst r) @ ''</th><td>'' @ html_escape (snd r) @ ''</td></tr>''"

definition rows_table :: "rows \<Rightarrow> string" where
  "rows_table rs = ''<table>'' @ concat (List.map table_row rs) @ ''</table>''"

definition css_color :: "string \<Rightarrow> string" where
  "css_color css =
     (case dict_get css [(''success'', ''#1a7f37''), (''warning'', ''#9a6700''), (''error'', ''#cf222e'')] of
        None \<Rightarrow> ''#57606a'' | Some color \<Rightarrow> color)"

definition html_card :: "check_card \<Rightarrow> string list" where
  "html_card c =
     [''<h3>'' @ html_escape (cc_title c) @ dash @ ''<span style='' @ [CHR 0x22] @ ''color:'' @
        css_color (cc_status_css c) @ [CHR 0x22] @ ''>'' @ html_escape (cc_status_text c) @ ''</span></h3>'',
      ''<p>'' @ html_escape (cc_subtitle c) @ ''</p>''] @
     (if cc_evidence c \<noteq> [] then [rows_table (cc_evidence c)] else [])"

definition html_style :: string where
  "html_style =
     ''<style>body{font-family:sans-serif;max-width:48rem;margin:2rem auto;'' @
     ''padding:0 1rem}table{border-collapse:collapse}th,td{text-align:left;'' @
     ''padding:.2rem .8rem .2rem 0}th{font-weight:600}</style>''"

definition html_parts :: "string \<Rightarrow> string \<Rightarrow> rows \<Rightarrow> string \<Rightarrow> string \<Rightarrow> check_card list \<Rightarrow> string list" where
  "html_parts generated app_version system_rows score_text coverage_text cards =
     [''<!DOCTYPE html>'',
      ''<html><head><meta charset='' @ [CHR 0x22] @ ''utf-8'' @ [CHR 0x22] @ ''>'',
      ''<title>'' @ html_escape ''Lapcare Diagnostic Report'' @ ''</title>'',
      html_style,
      ''</head><body>'',
      ''<h1>'' @ html_escape ''Lapcare Diagnostic Report'' @ ''</h1>'',
      ''<p>'' @ html_escape (''Generated: '' @ generated) @ ''<br>'' @
        html_escape (''Lapcare version: '' @ app_version) @ ''<br>'' @
        html_escape ''Identifiers (serial numbers etc.) are excluded from this report.'' @ ''</p>''] @
     (if system_rows \<noteq> []
      then [''<h2>'' @ html_escape ''System'' @ ''</h2>'', rows_table system_rows] else []) @
     [''<h2>'' @ html_escape ''Health Score'' @ ''</h2>'',
      ''<p><strong>'' @ html_escape score_text @ ''</strong>'' @ dash @ html_escape coverage_text @ ''</p>'',
      ''<h2>'' @ html_escape ''Checks'' @ ''</h2>''] @
     concat (List.map html_card cards) @ [''</body></html>'']"

definition render_html ::
    "string \<Rightarrow> string \<Rightarrow> rows \<Rightarrow> string \<Rightarrow> string \<Rightarrow> check_card list \<Rightarrow> string" where
  "render_html generated app_version system_rows score_text coverage_text cards =
     joinwith NL (html_parts generated app_version system_rows score_text coverage_text cards) @ NL"

section \<open>Markup\<close>

definition is_markup :: "char \<Rightarrow> bool" where
  "is_markup c \<longleftrightarrow> c \<in> {CHR ''<'', CHR ''>'', CHR 0x22, CHR 0x27}"

definition markup :: "string \<Rightarrow> string" where
  "markup s = filter is_markup s"

lemma markup_append [simp]: "markup (s @ t) = markup s @ markup t"
  by (simp add: markup_def)

lemma markup_simps [simp]: "markup [] = []" "markup (c # s) = (if is_markup c then c # markup s else markup s)"
  by (simp_all add: markup_def)

lemma markup_escape [simp]: "markup (html_escape s) = []"
  by (induction s) (auto simp: html_escape_def escape_char_def is_markup_def)

lemma markup_concat: "markup (concat ss) = concat (List.map markup ss)"
  by (induction ss) simp_all

lemma markup_join: "markup (joinwith NL ss) = concat (List.map markup ss)"
  by (induction "NL" ss rule: joinwith.induct) (simp_all add: NL_def is_markup_def)

definition blank_rows :: "rows \<Rightarrow> rows" where
  "blank_rows rs = List.map (\<lambda>r. ([], [])) rs"

text \<open>The skeleton of a card: its shape and colour, no text.\<close>

definition skeleton :: "check_card \<Rightarrow> check_card" where
  "skeleton c = c\<lparr>cc_title := [], cc_status_text := [], cc_subtitle := [], cc_evidence := blank_rows (cc_evidence c)\<rparr>"

lemma markup_table: "markup (rows_table (blank_rows rs)) = markup (rows_table rs)"
  by (simp add: rows_table_def markup_concat blank_rows_def table_row_def comp_def)

lemma blank_rows_Nil [simp]: "blank_rows rs = [] \<longleftrightarrow> rs = []"
  by (simp add: blank_rows_def)

lemma markup_card: "List.map markup (html_card (skeleton c)) = List.map markup (html_card c)"
  by (simp add: html_card_def skeleton_def markup_table)

lemma markup_cards:
  "concat (List.map markup (concat (List.map html_card (List.map skeleton cs)))) =
   concat (List.map markup (concat (List.map html_card cs)))"
  by (induction cs) (simp_all add: markup_card)

section \<open>Properties\<close>

text \<open>C26: Nothing a drive, a firmware or a file system is called can inject markup into an exported HTML
  report: the angle brackets and quotes of the document are, in number and order, those of
  the document with every text left out.\<close>

theorem html_no_injection:
  "markup (render_html generated app_version system_rows score_text coverage_text cards) =
   markup (render_html [] [] (blank_rows system_rows) [] [] (List.map skeleton cards))"
proof -
  have "concat (List.map markup (html_parts generated app_version system_rows score_text coverage_text cards)) =
      concat (List.map markup (html_parts [] [] (blank_rows system_rows) [] [] (List.map skeleton cards)))"
    by (simp only: html_parts_def map_append concat_append markup_cards list.map concat.simps markup_append
        markup_escape append_Nil markup_table blank_rows_Nil if_distrib [of "List.map markup"] if_distrib [of concat])
  then show ?thesis by (simp add: render_html_def markup_join)
qed

end
