(* ===== verification/DiagnosticsPage.thy ===== *)
theory DiagnosticsPage
  imports ReportRender ReportJson
begin

text \<open>
  \<open>ui/pages/diagnostics/view_model.py\<close>: the diagnostics page, its text tables, the run and the
  export of the last report in the format the chosen name asks for. The engine is \<open>run\<close> of
  theory \<open>Diagnostics\<close>, the JSON export \<open>to_json\<close> of \<open>ReportJson\<close>, the others \<open>ReportRender\<close>.
\<close>

section \<open>Tables\<close>

definition CHECK_TITLES :: "(string \<times> string) list" where
  "CHECK_TITLES = [(''battery-wear'', ''Battery wear''), (''storage-health'', ''Storage health''),
     (''firmware-currency'', ''Firmware currency''), (''thermal'', ''Thermal sanity''),
     (''disk-space'', ''Disk space'')]"

fun STATUS_TEXT :: "check_status \<Rightarrow> string" where
  "STATUS_TEXT StatusOK = ''OK''"
| "STATUS_TEXT Warning = ''Warning''"
| "STATUS_TEXT Critical = ''Critical''"
| "STATUS_TEXT Skipped = ''Not measured''"

fun STATUS_CSS :: "check_status \<Rightarrow> string" where
  "STATUS_CSS StatusOK = ''success''"
| "STATUS_CSS Warning = ''warning''"
| "STATUS_CSS Critical = ''error''"
| "STATUS_CSS Skipped = ''dim-label''"

definition SKIP_UNAVAILABLE :: string where
  "SKIP_UNAVAILABLE = ''The data source is not available on this system.''"

definition SKIP_TEXT :: "(string \<times> string) list" where
  "SKIP_TEXT =
     [(''declined'', ''Authorization was declined '' @ EM_DASH @ '' run again to include it.''),
      (''unavailable'', SKIP_UNAVAILABLE),
      (''no-data'', ''Nothing to measure on this machine.''),
      (''not-requested'', ''Not included in this run.'')]"

fun CONFIDENCE_TEXT :: "confidence \<Rightarrow> string" where
  "CONFIDENCE_TEXT ConfHigh = ''high confidence''"
| "CONFIDENCE_TEXT ConfMedium = ''medium confidence''"
| "CONFIDENCE_TEXT ConfLow = ''low confidence''"

definition METRIC_LABELS :: "(string \<times> string) list" where
  "METRIC_LABELS =
     [(''wear_pct'', ''Worst battery wear''), (''batteries'', ''Batteries''),
      (''failing_device'', ''Failing device''), (''pending_sectors'', ''Sectors pending reallocation''),
      (''endurance_used_pct'', ''Rated endurance used''), (''devices'', ''Devices checked''),
      (''pending_updates'', ''Pending firmware updates''), (''max_temp_c'', ''Hottest sensor''),
      (''max_temp_source'', ''Hottest sensor source''), (''sensors'', ''Sensors read''),
      (''min_free_pct'', ''Least free space''), (''min_free_mount'', ''Fullest filesystem''),
      (''critical_mount'', ''Critically full filesystem''), (''low_mount'', ''Low-space filesystem'')]"

definition table_text :: "string \<Rightarrow> (string \<times> string) list \<Rightarrow> string \<Rightarrow> string" where
  "table_text k t d = (case dict_get k t of None \<Rightarrow> d | Some s \<Rightarrow> s)"

section \<open>Cards\<close>

definition metric_value :: "string \<Rightarrow> string \<Rightarrow> string" where
  "metric_value key v =
     (if endswith key ''_pct'' then v @ ''%''
      else if endswith key ''_c'' then v @ '' '' @ DEGREE @ ''C''
      else v)"

definition result_card :: "diagnostic_result \<Rightarrow> check_card" where
  "result_card r =
     \<lparr>cc_check_id = dr_check_id r, cc_title = table_text (dr_check_id r) CHECK_TITLES (dr_check_id r),
      cc_status_text = STATUS_TEXT (dr_status r), cc_status_css = STATUS_CSS (dr_status r),
      cc_subtitle = (if dr_status r = Skipped then table_text (dr_skip_code r) SKIP_TEXT SKIP_UNAVAILABLE
                     else CONFIDENCE_TEXT (dr_confidence r)),
      cc_evidence = List.map (\<lambda>(key, v). (table_text key METRIC_LABELS key, metric_value key v)) (dr_metrics r)\<rparr>"

definition result_cards :: "diagnostics_report \<Rightarrow> check_card list" where
  "result_cards report = List.map result_card (rep_results report)"

definition present_rows :: "(string \<Rightarrow> string) \<Rightarrow> (string \<times> string option) list \<Rightarrow> rows" where
  "present_rows f rs =
     List.map (\<lambda>(label, v). (label, f (or_str v []))) (filter (\<lambda>(label, v). or_str v [] \<noteq> []) rs)"

definition system_rows :: "system_identity option \<Rightarrow> os_info option \<Rightarrow> rows" where
  "system_rows identity os =
     (case identity of None \<Rightarrow> [] | Some i \<Rightarrow>
        present_rows strip [(''Model'', si_product_family i), (''Machine type'', si_product_name i),
          (''Vendor'', si_vendor i), (''BIOS / UEFI'', si_bios_version i)]) @
     (case os of None \<Rightarrow> [] | Some s \<Rightarrow>
        present_rows id [(''Operating system'', os_distro_name s), (''Kernel'', os_kernel s)])"

definition score_texts :: "diagnostics_report \<Rightarrow> string \<times> string" where
  "score_texts r =
     ((case rep_score r of None \<Rightarrow> ''No score'' | Some n \<Rightarrow> show_int n @ '' / 100''),
      ''Experimental '' @ EM_DASH @ '' based on '' @ show_int (rep_measured r) @ '' of '' @ show_int (rep_total r) @
      '' signals'')"

section \<open>The page\<close>

datatype diagnostics_job = RunJob | ExportJob string

record diagnostics_vm = page_vm +
  dv_busy_text :: string
  dv_score_text :: string
  dv_coverage_text :: string
  dv_toast_text :: string
  dv_last_report :: "diagnostics_report option"
  dv_cards :: "check_card list"
  dv_has_writer :: bool
  dv_jobs :: "diagnostics_job list"

definition new_diagnostics_page :: "bool \<Rightarrow> diagnostics_vm" where
  "new_diagnostics_page has_writer =
     \<lparr>pg_state = Loading, unavailable_reason = [], unavailable_remedy = [], error_detail = [],
      dv_busy_text = [], dv_score_text = [], dv_coverage_text = [], dv_toast_text = [],
      dv_last_report = None, dv_cards = [], dv_has_writer = has_writer, dv_jobs = []\<rparr>"

definition can_export :: "diagnostics_vm \<Rightarrow> bool" where
  "can_export v \<longleftrightarrow> dv_has_writer v \<and> dv_last_report v \<noteq> None"

definition load_diagnostics :: "diagnostics_vm \<Rightarrow> diagnostics_vm" where
  "load_diagnostics v = show_ready v"

definition start_run :: "diagnostics_vm \<Rightarrow> diagnostics_vm" where
  "start_run v =
     (if dv_busy_text v \<noteq> [] then v
      else v\<lparr>dv_busy_text := ''Running diagnostics'' @ ELLIPSIS, dv_jobs := dv_jobs v @ [RunJob]\<rparr>)"

text \<open>The submitted coroutine; the elapsed time it also returns is only logged.\<close>

definition timed_run ::
  "'w battery_wear_provider \<Rightarrow> 'w storage_provider \<Rightarrow> 'w firmware_provider \<Rightarrow>
   'w thermal_provider \<Rightarrow> 'w disk_usage_provider \<Rightarrow> ('w, diagnostics_report) io" where
  "timed_run battery_wear storage firmware thermal disk =
     run (Some battery_wear) (Some storage) (Some firmware) (Some thermal) (Some disk) True"

definition run_done :: "diagnostics_report \<Rightarrow> diagnostics_vm \<Rightarrow> diagnostics_vm" where
  "run_done report v =
     show_ready (v\<lparr>dv_busy_text := [], dv_last_report := Some report, dv_cards := result_cards report,
       dv_score_text := fst (score_texts report), dv_coverage_text := snd (score_texts report)\<rparr>)"

definition run_failed :: "exn \<Rightarrow> diagnostics_vm \<Rightarrow> diagnostics_vm" where
  "run_failed e v = handle_error e (v\<lparr>dv_busy_text := []\<rparr>)"

section \<open>Export\<close>

definition start_export :: "string \<Rightarrow> diagnostics_vm \<Rightarrow> diagnostics_vm" where
  "start_export p v =
     (if \<not> can_export v \<or> dv_busy_text v \<noteq> [] then v
      else v\<lparr>dv_busy_text := ''Exporting report'' @ ELLIPSIS, dv_jobs := dv_jobs v @ [ExportJob p]\<rparr>)"

definition APP_VERSION :: string where "APP_VERSION = ''0.5.0''"

definition export_content ::
  "string \<Rightarrow> string \<Rightarrow> system_identity option \<Rightarrow> os_info option \<Rightarrow> diagnostics_vm \<Rightarrow> diagnostics_report \<Rightarrow> string" where
  "export_content p generated identity os v report =
     (if endswith p ''.json'' then to_json generated APP_VERSION identity os report
      else (if endswith p ''.html'' then render_html else render_markdown)
             generated APP_VERSION (system_rows identity os) (dv_score_text v) (dv_coverage_text v) (dv_cards v))"

definition suppressed :: "('w, 'a) io option \<Rightarrow> ('w, 'a option) io" where
  "suppressed provider = (case provider of None \<Rightarrow> io_return None | Some read \<Rightarrow> or_missing read)"

text \<open>The coroutine of an export; \<open>generated\<close> is the time stamp it takes.\<close>

definition render_and_write ::
  "('w, system_identity) io option \<Rightarrow> ('w, os_info) io option \<Rightarrow> (string \<Rightarrow> string \<Rightarrow> ('w, unit) io) option \<Rightarrow>
   string \<Rightarrow> string \<Rightarrow> diagnostics_vm \<Rightarrow> ('w, string) io" where
  "render_and_write identity_provider os_provider writer generated p v =
     (case (dv_last_report v, writer) of
        (Some report, Some write) \<Rightarrow>
          io_bind (suppressed identity_provider) (\<lambda>identity.
          io_bind (suppressed os_provider) (\<lambda>os.
          io_bind (write p (export_content p generated identity os v report)) (\<lambda>_.
          io_return p)))
      | _ \<Rightarrow> io_raise (PyException ''AssertionError'' []))"

definition export_done :: "string \<Rightarrow> diagnostics_vm \<Rightarrow> diagnostics_vm" where
  "export_done p v = v\<lparr>dv_busy_text := [], dv_toast_text := ''Report exported.''\<rparr>"

definition export_failed :: "exn \<Rightarrow> diagnostics_vm \<Rightarrow> diagnostics_vm" where
  "export_failed e v = v\<lparr>dv_busy_text := [], dv_toast_text := ''Could not export the report.''\<rparr>"

section \<open>The machine\<close>

definition complete_diagnostics_job :: "diagnostics_job \<Rightarrow> diagnostics_vm \<Rightarrow> diagnostics_vm" where
  "complete_diagnostics_job j v = v\<lparr>dv_jobs := remove1 j (dv_jobs v)\<rparr>"

inductive diagnostics_step :: "diagnostics_vm \<Rightarrow> diagnostics_vm \<Rightarrow> bool" where
  load: "diagnostics_step v (load_diagnostics v)"
| run: "diagnostics_step v (start_run v)"
| ran: "RunJob \<in> set (dv_jobs v) \<Longrightarrow> diagnostics_step v (run_done report (complete_diagnostics_job RunJob v))"
| run_failed: "RunJob \<in> set (dv_jobs v) \<Longrightarrow> diagnostics_step v (run_failed e (complete_diagnostics_job RunJob v))"
| export: "diagnostics_step v (start_export p v)"
| exported: "ExportJob p \<in> set (dv_jobs v) \<Longrightarrow>
    diagnostics_step v (export_done p (complete_diagnostics_job (ExportJob p) v))"
| export_failed: "ExportJob p \<in> set (dv_jobs v) \<Longrightarrow>
    diagnostics_step v (export_failed e (complete_diagnostics_job (ExportJob p) v))"

text \<open>
  What is shown and what would be exported are those of the same report, there is one job
  while the page is busy and none while it is idle, and a pending export has its report.
\<close>

definition diagnostics_inv :: "diagnostics_vm \<Rightarrow> bool" where
  "diagnostics_inv v \<longleftrightarrow>
     length (dv_jobs v) = (if dv_busy_text v = [] then 0 else 1) \<and>
     (case dv_last_report v of
        None \<Rightarrow> dv_cards v = []
      | Some r \<Rightarrow> dv_cards v = result_cards r \<and> (dv_score_text v, dv_coverage_text v) = score_texts r) \<and>
     (\<forall>p. ExportJob p \<in> set (dv_jobs v) \<longrightarrow> can_export v)"

lemma handle_error_diagnostics [simp]:
  "dv_jobs (handle_error e v) = dv_jobs v" "dv_busy_text (handle_error e v) = dv_busy_text v"
  "dv_last_report (handle_error e v) = dv_last_report v" "dv_cards (handle_error e v) = dv_cards v"
  "dv_score_text (handle_error e v) = dv_score_text v" "dv_coverage_text (handle_error e v) = dv_coverage_text v"
  "dv_has_writer (handle_error e v) = dv_has_writer v"
  by (cases e; simp add: page_defs)+

lemma one_job: "length js = (if b then 0 else 1) \<Longrightarrow> j \<in> set js \<Longrightarrow> js = [j]"
  by (cases js) (auto split: if_splits)

lemma diagnostics_inv_new: "diagnostics_inv (new_diagnostics_page b)"
  by (simp add: diagnostics_inv_def new_diagnostics_page_def)

lemma diagnostics_inv_complete:
  assumes "diagnostics_inv v" "j \<in> set (dv_jobs v)"
  shows "dv_jobs (complete_diagnostics_job j v) = []"
proof -
  have "dv_jobs v = [j]" using assms one_job by (auto simp: diagnostics_inv_def)
  then show ?thesis by (simp add: complete_diagnostics_job_def)
qed

lemma complete_fields [simp]:
  "dv_last_report (complete_diagnostics_job j v) = dv_last_report v" "dv_cards (complete_diagnostics_job j v) = dv_cards v"
  "dv_score_text (complete_diagnostics_job j v) = dv_score_text v"
  "dv_coverage_text (complete_diagnostics_job j v) = dv_coverage_text v"
  by (simp_all add: complete_diagnostics_job_def)

lemma diagnostics_inv_step: "diagnostics_step v v' \<Longrightarrow> diagnostics_inv v \<Longrightarrow> diagnostics_inv v'"
proof (induction rule: diagnostics_step.induct)
  case (ran v report)
  then show ?case using diagnostics_inv_complete [OF ran.prems ran.hyps]
    by (simp add: diagnostics_inv_def run_done_def page_defs)
next
  case (run_failed v e)
  then show ?case using diagnostics_inv_complete [OF run_failed.prems run_failed.hyps]
    by (simp add: diagnostics_inv_def run_failed_def del: handle_error.simps split: option.splits)
next
  case (exported p v)
  then show ?case using diagnostics_inv_complete [OF exported.prems exported.hyps]
    by (simp add: diagnostics_inv_def export_done_def split: option.splits)
next
  case (export_failed p v e)
  then show ?case using diagnostics_inv_complete [OF export_failed.prems export_failed.hyps]
    by (simp add: diagnostics_inv_def export_failed_def split: option.splits)
qed (auto simp: diagnostics_inv_def load_diagnostics_def start_run_def start_export_def can_export_def page_defs
      split: option.splits)

lemma diagnostics_reachable_inv:
  "diagnostics_step\<^sup>*\<^sup>* (new_diagnostics_page b) v \<Longrightarrow> diagnostics_inv v"
  by (induction rule: rtranclp_induct) (auto intro: diagnostics_inv_step diagnostics_inv_new)

section \<open>The export\<close>

lemma suppressed_snapshot:
  assumes "\<And>r. prov = Some r \<Longrightarrow> lapcare_only r \<and> reads_only r"
  shows "suppressed prov w =
    (Inr (case prov of None \<Rightarrow> None | Some r \<Rightarrow> (case fst (r w) of Inl _ \<Rightarrow> None | Inr x \<Rightarrow> Some x)), w)"
  using assms snapshot_read.or_missing_snapshot [OF snapshot_readI]
  by (auto simp: suppressed_def split: option.split)

section \<open>Properties\<close>

text \<open>C30: Identifiers cannot reach an exported report in any of its three formats: whatever file name is
  chosen, the document does not depend on the serial number, the board, the firmware date,
  the host name or the uptime.\<close>

theorem export_redacted:
  "export_content p generated
     (map_option (\<lambda>i. i\<lparr>si_serial := serial, si_board_name := board, si_bios_date := date, si_product_version := pv\<rparr>) identity)
     (map_option (\<lambda>s. s\<lparr>os_hostname := host, os_uptime_seconds := uptime\<rparr>) os) v report =
   export_content p generated identity os v report"
proof -
  have "system_rows (map_option (\<lambda>i. i\<lparr>si_serial := serial, si_board_name := board, si_bios_date := date, si_product_version := pv\<rparr>) identity)
      (map_option (\<lambda>s. s\<lparr>os_hostname := host, os_uptime_seconds := uptime\<rparr>) os) = system_rows identity os"
    by (simp add: system_rows_def split: option.split)
  moreover have "to_json generated APP_VERSION (map_option (\<lambda>i. i\<lparr>si_serial := serial, si_board_name := board, si_bios_date := date, si_product_version := pv\<rparr>) identity)
      (map_option (\<lambda>s. s\<lparr>os_hostname := host, os_uptime_seconds := uptime\<rparr>) os) report =
      to_json generated APP_VERSION identity os report"
    by (simp add: to_json_def report_doc_def system_doc_def split: option.split)
  ultimately show ?thesis by (simp add: export_content_def)
qed

text \<open>C32: A pending export writes one document, of the very report the page shows: on every reachable page,
  if the system providers keep their contract, the export fails only if the writer does, and
  what it writes is rendered from the last report, its cards and its score.\<close>

theorem export_document:
  assumes "diagnostics_step\<^sup>*\<^sup>* (new_diagnostics_page b) v" "ExportJob p \<in> set (dv_jobs v)"
    and "lapcare_only read_id" "reads_only read_id" "lapcare_only read_sys" "reads_only read_sys"
  shows "\<exists>report. dv_last_report v = Some report \<and> dv_cards v = result_cards report \<and>
    (dv_score_text v, dv_coverage_text v) = score_texts report \<and>
    render_and_write (Some read_id) (Some read_sys) (Some write) generated p v w =
      (case write p (export_content p generated (case fst (read_id w) of Inl _ \<Rightarrow> None | Inr x \<Rightarrow> Some x)
              (case fst (read_sys w) of Inl _ \<Rightarrow> None | Inr x \<Rightarrow> Some x) v report) w of
         (Inl e, w') \<Rightarrow> (Inl e, w') | (Inr _, w') \<Rightarrow> (Inr p, w'))"
proof -
  have inv: "diagnostics_inv v" using assms(1) by (rule diagnostics_reachable_inv)
  with assms(2) obtain report where r: "dv_last_report v = Some report"
    by (auto simp: diagnostics_inv_def can_export_def)
  have "suppressed (Some read_id) w = (Inr (case fst (read_id w) of Inl _ \<Rightarrow> None | Inr x \<Rightarrow> Some x), w)"
    "suppressed (Some read_sys) w = (Inr (case fst (read_sys w) of Inl _ \<Rightarrow> None | Inr x \<Rightarrow> Some x), w)"
    using suppressed_snapshot [of "Some read_id" w] suppressed_snapshot [of "Some read_sys" w] assms(3-6) by simp_all
  with inv r show ?thesis
    by (simp add: diagnostics_inv_def render_and_write_def io_bind_def split: prod.split sum.split)
qed

theorem export_document_witness:
  "\<exists>v report. ExportJob ''a.json'' \<in> set (dv_jobs v) \<and> dv_last_report v = Some report \<and>
     render_and_write (Some (io_raise (ProviderTimeout ''dmi'' ''slow''))) (Some (io_return blank_os)) (Some (\<lambda>p c w. (Inr (), [c])))
       ''today'' ''a.json'' v [] = (Inr ''a.json'', [to_json ''today'' APP_VERSION None (Some blank_os) report])"
proof -
  let ?rep = "\<lparr>rep_results = [], rep_score = None, rep_measured = 0, rep_total = 0\<rparr>"
  let ?a = "start_run (new_diagnostics_page True)"
  let ?b = "run_done ?rep (complete_diagnostics_job RunJob ?a)"
  let ?c = "start_export ''a.json'' ?b"
  have "RunJob \<in> set (dv_jobs ?a)" by (simp add: start_run_def new_diagnostics_page_def)
  then have "diagnostics_step (new_diagnostics_page True) ?a" "diagnostics_step ?a ?b" "diagnostics_step ?b ?c"
    by (auto intro: diagnostics_step.intros)
  then have r: "diagnostics_step\<^sup>*\<^sup>* (new_diagnostics_page True) ?c"
    by (blast intro: rtranclp.rtrancl_into_rtrancl rtranclp.rtrancl_refl)
  have e: "ExportJob ''a.json'' \<in> set (dv_jobs ?c)"
    by (simp add: start_export_def can_export_def run_done_def page_defs start_run_def new_diagnostics_page_def
        complete_diagnostics_job_def)
  have j: "endswith ''a.json'' ''.json''" by code_simp
  have "lapcare_only (io_raise (ProviderTimeout ''dmi'' ''slow'') :: (string list, system_identity) io)"
    "reads_only (io_raise (ProviderTimeout ''dmi'' ''slow'') :: (string list, system_identity) io)"
    "lapcare_only (io_return blank_os :: (string list, os_info) io)" "reads_only (io_return blank_os :: (string list, os_info) io)"
    by (simp_all add: lapcare_only_def reads_only_def)
  from export_document [OF r e this, of "\<lambda>p c w. (Inr (), [c])" "''today''" "[]"] e
  show ?thesis by (auto simp: export_content_def j)
qed

end
