(* ===== verification/DashboardPage.thy ===== *)
theory DashboardPage
  imports DiagnosticsPage
begin

text \<open>
  \<open>ui/pages/dashboard/view_model.py\<close>: the dashboard, with two independent jobs (the identity rows and
  the unprivileged health score), and the uptime text the battery page shares.
\<close>

section \<open>Uptime\<close>

definition minutes_text :: "int \<Rightarrow> string" where
  "minutes_text minutes =
     (let days = minutes div (24 * 60); rest = minutes mod (24 * 60);
          hours = rest div 60; mins = rest mod 60
      in if days \<noteq> 0 then show_int days @ ''d '' @ show_int hours @ ''h '' @ show_int mins @ ''m''
         else if hours \<noteq> 0 then show_int hours @ ''h '' @ show_int mins @ ''m''
         else show_int mins @ ''m'')"

text \<open>
  \<open>seconds // 60\<close> of a float is the float of the exact quotient; of an infinity or a NaN it is
  NaN, which \<open>int\<close> refuses.
\<close>

definition nan_error :: exn where
  "nan_error = PyException ''ValueError'' ''cannot convert float NaN to integer''"

definition format_uptime :: "pyfloat option \<Rightarrow> exn + string" where
  "format_uptime seconds = (case seconds of
     None \<Rightarrow> Inr PLACEHOLDER
   | Some NegInf \<Rightarrow> Inr PLACEHOLDER
   | Some (Finite x) \<Rightarrow> Inr (if x < 0 then PLACEHOLDER else minutes_text \<lfloor>fl (of_int \<lfloor>x / 60\<rfloor>)\<rfloor>)
   | Some _ \<Rightarrow> Inl nan_error)"

definition format_seconds :: "int \<Rightarrow> string" where
  "format_seconds n = (if n < 0 then PLACEHOLDER else minutes_text (n div 60))"

lemma format_uptime_seconds:
  assumes "0 \<le> n" "n < 2 ^ 53"
  shows "format_uptime (Some (Finite (of_int n))) = Inr (format_seconds n)"
proof -
  have "\<lfloor>(of_int n :: rat) / 60\<rfloor> = n div 60" using floor_divide_of_int_eq [of n 60, where 'a = rat] by simp
  moreover have "fl (of_int (n div 60)) = of_int (n div 60)"
    by (rule fl_int) (use assms in linarith)
  ultimately show ?thesis using assms(1) by (simp add: format_uptime_def format_seconds_def)
qed

section \<open>The page\<close>

datatype dashboard_job = IdentityJob | ScoreJob

record dashboard_vm = page_vm +
  da_model :: string
  da_machine_type :: string
  da_vendor :: string
  da_bios :: string
  da_distro :: string
  da_kernel :: string
  da_uptime :: string
  da_is_thinkpad :: bool
  da_health_score :: string
  da_health_coverage :: string
  da_jobs :: "dashboard_job list"

definition new_dashboard :: dashboard_vm where
  "new_dashboard = \<lparr>pg_state = Loading, unavailable_reason = [], unavailable_remedy = [], error_detail = [],
     da_model = PLACEHOLDER, da_machine_type = PLACEHOLDER, da_vendor = PLACEHOLDER, da_bios = PLACEHOLDER,
     da_distro = PLACEHOLDER, da_kernel = PLACEHOLDER, da_uptime = PLACEHOLDER, da_is_thinkpad = True,
     da_health_score = [], da_health_coverage = [], da_jobs = []\<rparr>"

definition load_dashboard :: "dashboard_vm \<Rightarrow> dashboard_vm" where
  "load_dashboard v = (show_loading v)\<lparr>da_jobs := da_jobs v @ [IdentityJob, ScoreJob]\<rparr>"

text \<open>The score's coroutine: storage is never asked from here.\<close>

definition dashboard_run ::
  "'w battery_wear_provider option \<Rightarrow> 'w firmware_provider option \<Rightarrow> 'w thermal_provider option \<Rightarrow>
   'w disk_usage_provider option \<Rightarrow> ('w, diagnostics_report) io" where
  "dashboard_run battery_wear firmware thermal disk = run battery_wear None firmware thermal disk False"

definition apply_health :: "diagnostics_report \<Rightarrow> dashboard_vm \<Rightarrow> dashboard_vm" where
  "apply_health report v =
     (if rep_score report = None then v
      else v\<lparr>da_health_coverage := snd (score_texts report), da_health_score := fst (score_texts report)\<rparr>)"

definition dashboard_health_failed :: "exn \<Rightarrow> dashboard_vm \<Rightarrow> dashboard_vm" where
  "dashboard_health_failed e v = v"

definition gather_dashboard ::
  "('w, system_identity) io \<Rightarrow> ('w, os_info) io \<Rightarrow> ('w, thinkpad_info) io \<Rightarrow>
   ('w, system_identity \<times> os_info \<times> thinkpad_info) io" where
  "gather_dashboard identity os thinkpad =
     io_bind identity (\<lambda>i. io_bind os (\<lambda>s. io_bind thinkpad (\<lambda>t. io_return (i, s, t))))"

text \<open>Fields set before an exception stay set: the callback returns its error and the page.\<close>

fun apply_dashboard :: "system_identity \<times> os_info \<times> thinkpad_info \<Rightarrow> dashboard_vm \<Rightarrow> (exn + unit) \<times> dashboard_vm" where
  "apply_dashboard (i, s, t) v =
     (let v1 = v\<lparr>da_model := or_str (ti_model t) (or_str (si_product_family i) PLACEHOLDER),
                 da_machine_type := or_str (si_product_name i) PLACEHOLDER,
                 da_vendor := or_str (si_vendor i) PLACEHOLDER,
                 da_bios := (if or_str (si_bios_version i) [] \<noteq> []
                   then strip (or_str (si_bios_version i) []) @
                     (if or_str (si_bios_date i) [] \<noteq> [] then '' ('' @ or_str (si_bios_date i) [] @ '')'' else [])
                   else da_bios v),
                 da_distro := or_str (os_distro_name s) PLACEHOLDER,
                 da_kernel := or_str (os_kernel s) PLACEHOLDER\<rparr>
      in case format_uptime (os_uptime_seconds s) of
           Inl e \<Rightarrow> (Inl e, v1)
         | Inr text \<Rightarrow> (Inr (), show_ready (v1\<lparr>da_uptime := text, da_is_thinkpad := ti_is_thinkpad t\<rparr>)))"

section \<open>Uptime text\<close>

text \<open>The text of a duration is its exact decomposition, without leading zero parts.\<close>

lemma minutes_text_parts:
  assumes "0 \<le> n"
  obtains d h m where "n = d * 1440 + h * 60 + m" "0 \<le> d" "0 \<le> h" "h < 24" "0 \<le> m" "m < 60"
    "minutes_text n = (if d \<noteq> 0 then show_int d @ ''d '' else []) @
       (if d \<noteq> 0 \<or> h \<noteq> 0 then show_int h @ ''h '' else []) @ show_int m @ ''m''"
proof (rule that [of "n div 1440" "n mod 1440 div 60" "n mod 1440 mod 60"])
  have "n = n div 1440 * 1440 + n mod 1440" "n mod 1440 = n mod 1440 div 60 * 60 + n mod 1440 mod 60"
    by (simp_all only: div_mult_mod_eq)
  then show "n = n div 1440 * 1440 + n mod 1440 div 60 * 60 + n mod 1440 mod 60" by linarith
  have "n mod 1440 < 1440" "0 \<le> n mod 1440" by simp_all
  then show "0 \<le> n mod 1440 div 60" "n mod 1440 div 60 < 24" by linarith+
  show "0 \<le> n div 1440" using assms by linarith
  show "0 \<le> n mod 1440 mod 60" "n mod 1440 mod 60 < 60" by simp_all
qed (simp add: minutes_text_def Let_def)

text \<open>An uptime that is not a number leaves the page loading: the callback fails before the page is ready.\<close>

lemma nan_uptime_never_ready:
  "os_uptime_seconds s \<in> {Some NotANumber, Some PosInf} \<Longrightarrow>
   fst (apply_dashboard (i, s, t) v) = Inl nan_error \<and> pg_state (snd (apply_dashboard (i, s, t) v)) = pg_state v"
  by (auto simp: format_uptime_def Let_def)

lemma apply_dashboard_ready:
  assumes "os_uptime_seconds s \<notin> {Some NotANumber, Some PosInf}"
  shows "fst (apply_dashboard (i, s, t) v) = Inr () \<and> pg_state (snd (apply_dashboard (i, s, t) v)) = Ready"
  using assms by (auto simp: format_uptime_def Let_def page_defs split: option.split pyfloat.split)

end
