(* ===== verification/BatteryPage.thy ===== *)
theory BatteryPage
  imports DashboardPage History Dbus
begin

text \<open>
  \<open>ui/pages/battery/view_model.py\<close>: wear, live status and the recorded history of each battery. The
  wear provider, the status read and the history store are injected; the store's contract is
  the locale \<open>history_store\<close>, and the facts about the real store come from its interpretation.
\<close>

section \<open>Text\<close>

fun STATE_TEXT :: "battery_state \<Rightarrow> string" where
  "STATE_TEXT Charging = ''Charging''"
| "STATE_TEXT Discharging = ''Discharging''"
| "STATE_TEXT NotCharging = ''Not charging''"
| "STATE_TEXT Full = ''Full''"
| "STATE_TEXT Empty = ''Empty''"
| "STATE_TEXT StUnknown = ''Unknown''"

fun HEALTH_TEXT :: "health_class \<Rightarrow> string" where
  "HEALTH_TEXT Good = ''Good''"
| "HEALTH_TEXT Fair = ''Fair''"
| "HEALTH_TEXT Poor = ''Poor''"
| "HEALTH_TEXT HealthUnknown = ''Unknown''"

definition format_capacity :: "int option \<Rightarrow> capacity_unit option \<Rightarrow> string" where
  "format_capacity v unit = (case (v, unit) of
     (Some n, Some MicroWattHours) \<Rightarrow> fmt_fixed 1 (int_truediv n 1000000) @ '' Wh''
   | (Some n, Some MicroAmpHours) \<Rightarrow> fmt_fixed 0 (int_truediv n 1000) @ '' mAh''
   | _ \<Rightarrow> PLACEHOLDER)"

section \<open>The page\<close>

type_synonym chart = "(string \<times> rat) list"

record battery_card =
  bc_name :: string
  bc_title :: string
  bc_charge_text :: string
  bc_time_text :: string
  bc_health_text :: string
  bc_health_class :: health_class
  bc_wear_text :: string
  bc_cycles_text :: string
  bc_capacity_text :: string
  bc_history :: chart

record battery_vm = page_vm +
  bv_status_note :: string
  bv_reload_pending :: bool
  bv_cards :: "battery_card list"
  bv_jobs :: nat
  bv_timers :: nat

type_synonym battery_data = "battery_wear list \<times> battery_status list option \<times> (string \<times> chart) list"

definition new_battery_page :: battery_vm where
  "new_battery_page = \<lparr>pg_state = Loading, unavailable_reason = [], unavailable_remedy = [], error_detail = [],
     bv_status_note = [], bv_reload_pending = False, bv_cards = [], bv_jobs = 0, bv_timers = 0\<rparr>"

definition load_battery :: "battery_vm \<Rightarrow> battery_vm" where
  "load_battery v = (show_loading v)\<lparr>bv_jobs := Suc (bv_jobs v)\<rparr>"

definition on_status_changed :: "battery_vm \<Rightarrow> battery_vm" where
  "on_status_changed v =
     (if bv_reload_pending v then v else v\<lparr>bv_reload_pending := True, bv_timers := Suc (bv_timers v)\<rparr>)"

definition battery_reload :: "battery_vm \<Rightarrow> battery_vm" where
  "battery_reload v = v\<lparr>bv_timers := bv_timers v - 1, bv_reload_pending := False, bv_jobs := Suc (bv_jobs v)\<rparr>"

text \<open>One battery of the loop: record today's snapshot, then read the history back.\<close>

definition record_and_read ::
  "(wear_snapshot \<Rightarrow> ('w, unit) io) \<Rightarrow> (string \<Rightarrow> int \<Rightarrow> ('w, wear_snapshot list) io) \<Rightarrow> string \<Rightarrow>
   battery_wear \<Rightarrow> ('w, string \<times> chart) io" where
  "record_and_read store history today b =
     io_bind (store (snapshot_from_wear b today)) (\<lambda>_.
     io_bind (history (bw_name b) HISTORY_LIMIT) (\<lambda>h.
     io_return (bw_name b, history_points h)))"

definition gather_battery ::
  "('w, battery_wear list) io \<Rightarrow> ('w, battery_status list) io \<Rightarrow> (wear_snapshot \<Rightarrow> ('w, unit) io) \<Rightarrow>
   (string \<Rightarrow> int \<Rightarrow> ('w, wear_snapshot list) io) \<Rightarrow> string \<Rightarrow> ('w, battery_data) io" where
  "gather_battery wear status store history today =
     io_bind wear (\<lambda>ws.
     io_bind (or_missing status) (\<lambda>st.
     io_bind (io_mapM (record_and_read store history today) ws) (\<lambda>hs.
     io_return (ws, st, dict_of hs))))"

definition charge_text :: "battery_status \<Rightarrow> string" where
  "charge_text s =
     (case bs_percentage s of None \<Rightarrow> PLACEHOLDER | Some p \<Rightarrow> pyfloat_fixed 0 p @ ''%'') @
     '' '' @ MIDDLE_DOT @ '' '' @ STATE_TEXT (bs_state s)"

definition nonzero :: "int option \<Rightarrow> int option" where
  "nonzero n = (case n of Some k \<Rightarrow> if k = 0 then None else Some k | None \<Rightarrow> None)"

definition time_text :: "battery_status \<Rightarrow> string" where
  "time_text s = (case nonzero (bs_time_to_empty_s s) of
     Some n \<Rightarrow> format_seconds n @ '' until empty''
   | None \<Rightarrow> (case nonzero (bs_time_to_full_s s) of
       Some n \<Rightarrow> format_seconds n @ '' until full'' | None \<Rightarrow> []))"

definition battery_card_of ::
  "(string \<times> battery_status) list \<Rightarrow> (string \<times> chart) list \<Rightarrow> battery_wear \<Rightarrow> battery_card" where
  "battery_card_of status_by_name history b =
     (let wear_pct = wear_percent (bw_capacity_full b) (bw_capacity_design b);
          hardware = join_present ('' '' @ EM_DASH @ '' '') [bw_manufacturer b, bw_model_name b];
          status = dict_get (bw_name b) status_by_name
      in \<lparr>bc_name = bw_name b,
          bc_title = (if hardware = [] then bw_name b else bw_name b @ '' '' @ MIDDLE_DOT @ '' '' @ hardware),
          bc_charge_text = (case status of None \<Rightarrow> PLACEHOLDER | Some s \<Rightarrow> charge_text s),
          bc_time_text = (case status of None \<Rightarrow> [] | Some s \<Rightarrow> time_text s),
          bc_health_text = HEALTH_TEXT (classify_wear wear_pct),
          bc_health_class = classify_wear wear_pct,
          bc_wear_text = (case wear_pct of None \<Rightarrow> PLACEHOLDER | Some p \<Rightarrow> fmt_fixed 1 p @ ''% worn''),
          bc_cycles_text = (case bw_cycle_count b of None \<Rightarrow> PLACEHOLDER | Some n \<Rightarrow> show_int n),
          bc_capacity_text = format_capacity (bw_capacity_full b) (bw_capacity_unit b) @ '' of '' @
            format_capacity (bw_capacity_design b) (bw_capacity_unit b) @ '' design'',
          bc_history = (case dict_get (bw_name b) history of None \<Rightarrow> [] | Some ps \<Rightarrow> ps)\<rparr>)"

fun apply_battery :: "battery_data \<Rightarrow> battery_vm \<Rightarrow> battery_vm" where
  "apply_battery (ws, st, history) v =
     (if ws = []
      then show_unavailable ''No batteries detected on this system.''
             (''Nothing to do '' @ EM_DASH @ '' battery features need a battery.'') v
      else show_ready (v\<lparr>
             bv_status_note := (if st \<noteq> None then []
               else ''Live charge status unavailable '' @ EM_DASH @ '' install/start the '' @ in_quotes ''upower'' @ '' service.''),
             bv_cards := List.map (battery_card_of
               (dict_of (List.map (\<lambda>s. (bs_name s, s)) (case st of None \<Rightarrow> [] | Some ss \<Rightarrow> ss))) history) ws\<rparr>))"

section \<open>What a load leaves in the store\<close>

text \<open>An operation that leaves an invariant of the world as it is.\<close>

definition keeps :: "('w \<Rightarrow> 'b) \<Rightarrow> ('w, 'a) io \<Rightarrow> bool" where
  "keeps f m \<longleftrightarrow> (\<forall>w. f (snd (m w)) = f w)"

lemma keeps_or_missing: "keeps f m \<Longrightarrow> keeps f (or_missing m)"
  by (auto simp: keeps_def or_missing_def io_catch_def io_bind_def split: prod.splits sum.splits) (metis snd_conv)+

lemma gather_batteryE:
  assumes "gather_battery wear status store history today w = (Inr (ws, st, hs), w')"
  obtains w1 w2 rows where "wear w = (Inr ws, w1)" "or_missing status w1 = (Inr st, w2)"
    "io_mapM (record_and_read store history today) ws w2 = (Inr rows, w')" "hs = dict_of rows"
  using assms unfolding gather_battery_def by (elim io_bind_InrE) auto

context history_store
begin

lemma record_and_read_points:
  assumes "inv w" "record_and_read store history today b w = (Inr r, w')"
  shows "inv w' \<and> sorted_wrt (<) (List.map fst (snd r))"
proof -
  obtain u h v where "store (snapshot_from_wear b today) w = (Inr u, v)" "history (bw_name b) HISTORY_LIMIT v = (Inr h, w')"
    "r = (bw_name b, history_points h)"
    using assms(2) unfolding record_and_read_def by (elim io_bind_InrE) auto
  moreover from this have "inv v" using store_inv [OF assms(1), of "snapshot_from_wear b today"] by simp
  moreover from calculation have "w' = v" using history_pure [of "bw_name b" HISTORY_LIMIT v] by simp
  ultimately show ?thesis using points_ascending [of v "bw_name b" HISTORY_LIMIT h] by simp
qed

lemma mapM_points:
  assumes "inv w" "io_mapM (record_and_read store history today) bs w = (Inr rs, w')"
  shows "inv w' \<and> (\<forall>r\<in>set rs. sorted_wrt (<) (List.map fst (snd r)))"
  using assms
proof (induction bs arbitrary: w rs)
  case (Cons b bs)
  from Cons.prems(2) obtain r v rs' where r: "record_and_read store history today b w = (Inr r, v)"
    and rs: "io_mapM (record_and_read store history today) bs v = (Inr rs', w')" "rs = r # rs'"
    by (auto elim!: io_bind_InrE)
  have "inv v" "sorted_wrt (<) (List.map fst (snd r))" using record_and_read_points [OF Cons.prems(1) r] by auto
  with Cons.IH [OF _ rs(1)] rs(2) show ?case by simp
qed simp

end

definition wear_rows :: "string \<Rightarrow> battery_wear list \<Rightarrow> ((string \<times> string) \<times> wear_snapshot) list \<Rightarrow>
    ((string \<times> string) \<times> wear_snapshot) list" where
  "wear_rows today bs rows = fold (\<lambda>b. dict_set (today, bw_name b) (snapshot_from_wear b today)) bs rows"

lemma dict_set_same: "dict_get k d = Some v \<Longrightarrow> dict_set k v d = d"
  by (induction k v d rule: dict_set.induct) (auto split: if_splits)

lemma snapshot_key: "row_key (snapshot_from_wear b today) = (today, bw_name b)"
  by (simp add: row_key_def snapshot_from_wear_def)

lemma record_and_read_rows:
  assumes "record_and_read record_wear wear_history today b w = (Inr r, w')"
  shows "db_rows w' = dict_set (today, bw_name b) (snapshot_from_wear b today) (db_rows w)"
proof -
  obtain u v h where store: "record_wear (snapshot_from_wear b today) w = (Inr u, v)"
    and read: "wear_history (bw_name b) HISTORY_LIMIT v = (Inr h, w')"
    using assms unfolding record_and_read_def by (elim io_bind_InrE) auto
  have "w' = v" using sqlite.history_pure [of "bw_name b" HISTORY_LIMIT v] read by simp
  with store show ?thesis by (auto simp: record_wear_def snapshot_key split: option.splits if_splits)
qed

lemma mapM_rows:
  "io_mapM (record_and_read record_wear wear_history today) bs w = (Inr rs, w') \<Longrightarrow> db_rows w' = wear_rows today bs (db_rows w)"
proof (induction bs arbitrary: w rs)
  case (Cons b bs)
  then show ?case by (auto simp: wear_rows_def dest!: record_and_read_rows elim!: io_bind_InrE)
qed (simp add: wear_rows_def)

lemma wear_rows_get:
  "distinct (List.map bw_name bs) \<Longrightarrow>
   dict_get (d, n) (wear_rows today bs rows) =
     (case find (\<lambda>b. bw_name b = n \<and> d = today) bs of Some b \<Rightarrow> Some (snapshot_from_wear b today) | None \<Rightarrow> dict_get (d, n) rows)"
proof (induction bs arbitrary: rows)
  case (Cons b bs)
  have "find (\<lambda>b. bw_name b = n \<and> d = today) bs = None" if "bw_name b = n"
  proof -
    have "n \<notin> bw_name ` set bs" using Cons.prems that by auto
    then show ?thesis by (auto simp: find_None_iff)
  qed
  with Cons show ?case by (auto simp: wear_rows_def dict_get_set split: option.split)
qed (simp add: wear_rows_def)

section \<open>Properties\<close>

text \<open>C33: A successful load of the battery page leaves exactly one snapshot of today for each battery in the
  history, that of the wear just read, and every other day as it was (so that loading again
  changes nothing), and every chart it shows runs through strictly ascending days.\<close>

theorem battery_load_records:
  assumes "table_ok (db_rows w)" "keeps db_rows wear" "keeps db_rows status"
    and "gather_battery wear status record_wear wear_history today w = (Inr (ws, st, hs), w')"
    and "distinct (List.map bw_name ws)"
  shows "(\<forall>b\<in>set ws. dict_get (today, bw_name b) (db_rows w') = Some (snapshot_from_wear b today)) \<and>
    (\<forall>d n. d \<noteq> today \<or> n \<notin> bw_name ` set ws \<longrightarrow> dict_get (d, n) (db_rows w') = dict_get (d, n) (db_rows w)) \<and>
    wear_rows today ws (db_rows w') = db_rows w' \<and>
    (\<forall>r\<in>set hs. sorted_wrt (<) (List.map fst (snd r)))"
proof -
  obtain w1 w2 rows where g: "wear w = (Inr ws, w1)" "or_missing status w1 = (Inr st, w2)"
    "io_mapM (record_and_read record_wear wear_history today) ws w2 = (Inr rows, w')" "hs = dict_of rows"
    using assms(4) by (rule gather_batteryE)
  have w2: "db_rows w2 = db_rows w"
    using assms(2) keeps_or_missing [OF assms(3)] g(1,2) unfolding keeps_def by (metis snd_conv)
  have rows: "db_rows w' = wear_rows today ws (db_rows w)" using mapM_rows [OF g(3)] w2 by simp
  note get = wear_rows_get [OF assms(5), of _ _ today "db_rows w", folded rows]
  have own: "dict_get (today, bw_name b) (db_rows w') = Some (snapshot_from_wear b today)" if mem: "b \<in> set ws" for b
  proof -
    obtain b' where "find (\<lambda>c. bw_name c = bw_name b \<and> today = today) ws = Some b'"
      using mem find_None_iff [of "\<lambda>c. bw_name c = bw_name b \<and> today = today" ws] by blast
    moreover from this have "b' = b"
      using mem assms(5) by (auto simp: find_Some_iff distinct_map inj_on_def)
    ultimately show ?thesis by (simp add: get)
  qed
  have "dict_get (d, n) (db_rows w') = dict_get (d, n) (db_rows w)" if "d \<noteq> today \<or> n \<notin> bw_name ` set ws" for d n
  proof -
    have "find (\<lambda>b. bw_name b = n \<and> d = today) ws = None" using that by (auto simp: find_None_iff)
    then show ?thesis by (simp add: get)
  qed
  moreover have "wear_rows today bs (db_rows w') = db_rows w'" if "set bs \<subseteq> set ws" for bs
    using that by (induction bs) (auto simp: wear_rows_def dict_set_same own)
  moreover have "\<forall>r\<in>set hs. sorted_wrt (<) (List.map fst (snd r))"
    using sqlite.mapM_points [of w2 today ws rows w'] assms(1) w2 g(3,4) dict_of_values [of rows] by fastforce
  ultimately show ?thesis using own by blast
qed

theorem battery_load_records_witness:
  "\<exists>hs w'. gather_battery (io_return [blank_battery ''BAT0'']) (io_return []) record_wear wear_history ''2025-01-02''
       \<lparr>db_rows = [], db_fault = None\<rparr> = (Inr ([blank_battery ''BAT0''], Some [], hs), w') \<and>
     dict_get (''2025-01-02'', ''BAT0'') (db_rows w') = Some (snapshot_from_wear (blank_battery ''BAT0'') ''2025-01-02'')"
proof -
  let ?b = "blank_battery ''BAT0''" and ?w = "\<lparr>db_rows = [], db_fault = None\<rparr>"
  have g: "gather_battery (io_return [?b]) (io_return []) record_wear wear_history ''2025-01-02'' ?w =
      (Inr ([?b], Some [], [(''BAT0'', [])]),
       \<lparr>db_rows = [((''2025-01-02'', ''BAT0''), snapshot_from_wear ?b ''2025-01-02'')], db_fault = None\<rparr>)"
    by code_simp
  have k: "keeps db_rows (io_return x)" for x :: 'a by (simp add: keeps_def)
  from battery_load_records [OF _ k k g] g show ?thesis by auto
qed

text \<open>The history can take the whole page down: when the database cannot be opened (or a capacity
  does not fit its integers), the load fails although the wear was read, and the page shows
  an unexpected error instead of the batteries.\<close>

theorem battery_database_fails_page:
  assumes "wear w = (Inr (b # bs), w1)" "or_missing status w1 = (Inr st, w2)" "db_fault w2 = Some msg"
  shows "fst (gather_battery wear status record_wear wear_history today w) = Inl (sqlite_error msg) \<and>
    pg_state (handle_error (sqlite_error msg) v) = PageError"
  using assms
  by (simp add: gather_battery_def io_bind_def record_and_read_def record_wear_def sqlite_error_def page_defs)

theorem battery_database_fails_page_witness:
  "fst (gather_battery (io_return [blank_battery ''BAT0'']) (io_return []) record_wear wear_history ''2025-01-01''
     \<lparr>db_rows = [], db_fault = Some ''database is locked''\<rparr>) = Inl (sqlite_error ''database is locked'')"
proof -
  let ?w = "\<lparr>db_rows = [], db_fault = Some ''database is locked''\<rparr>"
  have "io_return [blank_battery ''BAT0''] ?w = (Inr [blank_battery ''BAT0''], ?w)"
    "or_missing (io_return []) ?w = (Inr (Some []), ?w)" "db_fault ?w = Some ''database is locked''"
    by (simp_all add: or_missing_def io_catch_def)
  then show ?thesis by (rule battery_database_fails_page [THEN conjunct1])
qed

end
