(* ===== verification/HardwarePage.thy ===== *)
theory HardwarePage
  imports PageVM
begin

text \<open>
  \<open>ui/pages/hardware/view_model.py\<close>: identity, processor, memory and the device inventories. The
  identity is the page's core; a failed inventory degrades to a note on its panel.
\<close>

definition format_memory :: "int option \<Rightarrow> string" where
  "format_memory kib = (case kib of None \<Rightarrow> PLACEHOLDER
     | Some n \<Rightarrow> fmt_fixed 1 (int_truediv n (1024 * 1024)) @ '' GiB'')"

record hardware_vm = page_vm +
  hw_family :: string
  hw_machine_type :: string
  hw_board :: string
  hw_bios_version :: string
  hw_bios_date :: string
  hw_cpu_model :: string
  hw_cpu_count :: string
  hw_memory :: string
  hw_pci_devices :: "pci_device list"
  hw_usb_devices :: "usb_device list"
  hw_pci_note :: string
  hw_usb_note :: string
  hw_jobs :: nat

definition new_hardware_page :: hardware_vm where
  "new_hardware_page = \<lparr>pg_state = Loading, unavailable_reason = [], unavailable_remedy = [], error_detail = [],
     hw_family = PLACEHOLDER, hw_machine_type = PLACEHOLDER, hw_board = PLACEHOLDER,
     hw_bios_version = PLACEHOLDER, hw_bios_date = PLACEHOLDER, hw_cpu_model = PLACEHOLDER,
     hw_cpu_count = PLACEHOLDER, hw_memory = PLACEHOLDER, hw_pci_devices = [], hw_usb_devices = [],
     hw_pci_note = [], hw_usb_note = [], hw_jobs = 0\<rparr>"

definition load_hardware :: "hardware_vm \<Rightarrow> hardware_vm" where
  "load_hardware v = (show_loading v)\<lparr>hw_jobs := Suc (hw_jobs v)\<rparr>"

fun inventory_note :: "exn \<Rightarrow> string" where
  "inventory_note (ProviderUnavailable _ reason tool) =
     (if reason = ToolMissing \<and> or_str tool [] \<noteq> []
      then ''Not available '' @ EM_DASH @ '' install the '' @ in_quotes (or_str tool []) @ '' package.''
      else ''Not available on this system.'')"
| "inventory_note _ = ''Could not be read.''"

definition noted :: "('w, 'd list) io \<Rightarrow> ('w, 'd list \<times> string) io" where
  "noted read = io_catch (io_bind read (\<lambda>ds. io_return (ds, [])))
     (\<lambda>e. if is_lapcare_error e then Some (io_return ([], inventory_note e)) else None)"

type_synonym inventory = "system_identity \<times> cpu_mem_summary \<times> (pci_device list \<times> string) \<times> (usb_device list \<times> string)"

definition gather_hardware ::
  "('w, system_identity) io \<Rightarrow> ('w, cpu_mem_summary) io \<Rightarrow> ('w, pci_device list) io \<Rightarrow> ('w, usb_device list) io \<Rightarrow>
   ('w, inventory) io" where
  "gather_hardware identity cpu_mem pci usb =
     io_bind identity (\<lambda>i. io_bind cpu_mem (\<lambda>c. io_bind (noted pci) (\<lambda>p. io_bind (noted usb) (\<lambda>u.
     io_return (i, c, p, u)))))"

fun apply_hardware :: "inventory \<Rightarrow> hardware_vm \<Rightarrow> hardware_vm" where
  "apply_hardware (i, c, (pci, pci_note), (usb, usb_note)) v =
     show_ready (v\<lparr>hw_pci_note := pci_note, hw_usb_note := usb_note,
       hw_family := or_str (si_product_family i) PLACEHOLDER,
       hw_machine_type := or_str (si_product_name i) PLACEHOLDER,
       hw_board := or_str (si_board_name i) PLACEHOLDER,
       hw_bios_version := or_str (si_bios_version i) PLACEHOLDER,
       hw_bios_date := or_str (si_bios_date i) PLACEHOLDER,
       hw_cpu_model := or_str (cm_cpu_model c) PLACEHOLDER,
       hw_cpu_count := (case cm_cpu_count c of None \<Rightarrow> PLACEHOLDER
         | Some n \<Rightarrow> if n = 0 then PLACEHOLDER else show_int n),
       hw_memory := format_memory (cm_memory_total_kib c),
       hw_pci_devices := pci, hw_usb_devices := usb\<rparr>)"

lemma inventory_note_nonempty [simp]: "inventory_note e \<noteq> []"
  by (cases e) simp_all

text \<open>A panel shows devices or a reason, and what the page cannot read besides the core never fails it.\<close>

lemma noted_result:
  "noted read w = (Inr (ds, note), w') \<Longrightarrow>
   (note = [] \<and> read w = (Inr ds, w')) \<or>
   (ds = [] \<and> (\<exists>e. read w = (Inl e, w') \<and> is_lapcare_error e \<and> note = inventory_note e))"
  by (auto simp: noted_def io_catch_def io_bind_def split: prod.splits sum.splits if_splits)

lemma noted_total: "lapcare_only read \<Longrightarrow> never_raises (noted read)"
  unfolding noted_def by (intro io_intros) (auto intro: io_intros)

lemma noted_error: "noted read w = (Inl e, w') \<Longrightarrow> read w = (Inl e, w') \<and> \<not> is_lapcare_error e"
  by (auto simp: noted_def io_catch_def io_bind_def split: prod.splits sum.splits if_splits)

lemma gather_hardware_error:
  assumes "lapcare_only pci" "lapcare_only usb" "gather_hardware identity cpu_mem pci usb w = (Inl e, w')"
  shows "(\<exists>w1. identity w = (Inl e, w1)) \<or> (\<exists>i w1 w2. identity w = (Inr i, w1) \<and> cpu_mem w1 = (Inl e, w2))"
proof -
  have "noted pci u \<noteq> (Inl e, u')" "noted usb u \<noteq> (Inl e, u')" for u u'
    using noted_error [of pci u e u'] noted_error [of usb u e u'] assms(1,2) unfolding lapcare_only_def by blast+
  with assms(3) show ?thesis
    by (auto simp: gather_hardware_def io_bind_def io_return_def split: prod.splits sum.splits)
qed

end
