(* ===== verification/Capture.thy ===== *)
theory Capture
  imports Sysfs OsInfo ToolRunner Dbus
begin

text \<open>
  \<open>capture.py\<close>: \<open>lapcare --capture-fixtures\<close>. The machine is a snapshot of its file system, the
  capture an operation on the output tree (\<open>capture_world\<close>: the files written so far, and which
  writes the operating system would refuse) and on whatever else the injected runner acts on.
  Directories are implied by the paths of the files in them.
\<close>

record capture_world =
  cw_out :: "(path \<times> string) list"
  cw_fault :: "path \<Rightarrow> string option"

definition LF :: string where "LF = [CHR 0x0A]"

section \<open>Manifests\<close>

definition DMI_FILES :: "string list" where
  "DMI_FILES = [''sys_vendor'', ''product_name'', ''product_family'', ''product_version'',
     ''board_name'', ''bios_version'', ''bios_date'']"

definition DMI_IDENTIFIER_FILES :: "string list" where
  "DMI_IDENTIFIER_FILES = [''product_serial'', ''product_uuid'', ''board_serial'', ''chassis_serial'',
     ''board_asset_tag'', ''chassis_asset_tag'']"

definition OS_INFO_FILES :: "path list" where
  "OS_INFO_FILES = [[''etc'', ''os-release''], [''proc'', ''uptime''], [''proc'', ''sys'', ''kernel'', ''osrelease''],
     [''proc'', ''cpuinfo''], [''proc'', ''meminfo'']]"

definition HOSTNAME_FILE :: path where
  "HOSTNAME_FILE = [''proc'', ''sys'', ''kernel'', ''hostname'']"

definition TP_ACPI_DIR :: path where
  "TP_ACPI_DIR = [''sys'', ''devices'', ''platform'', ''thinkpad_acpi'']"

definition POWER_SUPPLY_FILES :: "string list" where
  "POWER_SUPPLY_FILES = [''type'', ''status'', ''online'', ''capacity'', ''cycle_count'', ''energy_full'',
     ''energy_full_design'', ''energy_now'', ''charge_full'', ''charge_full_design'', ''charge_now'',
     ''power_now'', ''model_name'', ''manufacturer'', ''technology'', ''present'', ''voltage_min_design'']"

section \<open>Slugs\<close>

definition slug_char :: "char \<Rightarrow> bool" where
  "slug_char c \<longleftrightarrow> (let n = (of_char c :: nat) in 97 \<le> n \<and> n \<le> 122 \<or> 48 \<le> n \<and> n \<le> 57)"

text \<open>\<open>re.sub("[^a-z0-9]+", "-", s)\<close>; the flag says that the last character was replaced.\<close>

fun sub_runs :: "bool \<Rightarrow> string \<Rightarrow> string" where
  "sub_runs gap [] = []"
| "sub_runs gap (c # s) =
     (if slug_char c then c # sub_runs False s
      else if gap then sub_runs True s else CHR ''-'' # sub_runs True s)"

definition slug :: "string \<Rightarrow> string" where
  "slug text = (let s = strip_chars [CHR ''-''] (sub_runs False (lower text))
                in if s = [] then ''unknown-machine'' else s)"

section \<open>Writing\<close>

definition write_text :: "path \<Rightarrow> string \<Rightarrow> ('x capture_world_scheme, unit) io" where
  "write_text p content = (\<lambda>w. case cw_fault w p of
     Some msg \<Rightarrow> (Inl (PyException ''OSError'' msg), w)
   | None \<Rightarrow> (Inr (), w\<lparr>cw_out := dict_set p content (cw_out w)\<rparr>))"

definition copy_file :: "fs \<Rightarrow> path \<Rightarrow> path \<Rightarrow> path \<Rightarrow> ('x capture_world_scheme, bool) io" where
  "copy_file m base rel dest =
     (case read_str DEFAULT_MAX_BYTES m (base @ rel) of
        None \<Rightarrow> io_return False
      | Some content \<Rightarrow> io_bind (write_text (dest @ rel) (content @ LF)) (\<lambda>_. io_return True))"

definition copy_files :: "fs \<Rightarrow> path \<Rightarrow> path list \<Rightarrow> path \<Rightarrow> ('x capture_world_scheme, unit) io" where
  "copy_files m base rels dest = io_bind (io_mapM (\<lambda>rel. copy_file m base rel dest) rels) (\<lambda>_. io_return ())"

section \<open>The sources\<close>

definition machine_slug :: "fs \<Rightarrow> path \<Rightarrow> string" where
  "machine_slug m base =
     slug (or_str (read_str DEFAULT_MAX_BYTES m (base @ dmi_dir @ [''product_family'']))
             (or_str (read_str DEFAULT_MAX_BYTES m (base @ dmi_dir @ [''product_name''])) []))"

definition dmi_paths :: "string list \<Rightarrow> path list" where
  "dmi_paths names = List.map (\<lambda>n. dmi_dir @ [n]) names"

definition capture_dmi :: "fs \<Rightarrow> path \<Rightarrow> bool \<Rightarrow> string \<Rightarrow> ('x capture_world_scheme, string list) io" where
  "capture_dmi m base include_identifiers machine =
     io_bind (copy_files m base (dmi_paths DMI_FILES) [''dmi'', machine]) (\<lambda>_.
       if include_identifiers
       then io_bind (copy_files m base (dmi_paths DMI_IDENTIFIER_FILES) [''dmi'', machine]) (\<lambda>_.
              io_return [''IDENTIFIERS INCLUDED '' @ [CHR 0xE2, CHR 0x80, CHR 0x94] @ '' local debugging only, never share''])
       else io_return [''identifiers redacted at capture time (default)''])"

definition capture_os :: "fs \<Rightarrow> path \<Rightarrow> bool \<Rightarrow> string \<Rightarrow> ('x capture_world_scheme, unit) io" where
  "capture_os m base include_identifiers machine =
     io_bind (copy_files m base OS_INFO_FILES [''os_info'', machine]) (\<lambda>_.
       if include_identifiers then copy_files m base [HOSTNAME_FILE] [''os_info'', machine]
       else write_text ([''os_info'', machine] @ HOSTNAME_FILE) (''redacted-host'' @ LF))"

definition listing_error :: exn where
  "listing_error = PyException ''OSError'' ''iterdir''"

definition capture_thinkpad :: "fs \<Rightarrow> path \<Rightarrow> string \<Rightarrow> ('x capture_world_scheme, string list) io" where
  "capture_thinkpad m base machine =
     (if fs_is_dir m (base @ TP_ACPI_DIR)
      then io_bind (copy_file m base (TP_ACPI_DIR @ [''uevent'']) [''thinkpad_acpi'', machine]) (\<lambda>_.
             case fs_list m (base @ TP_ACPI_DIR) of
               None \<Rightarrow> io_raise listing_error
             | Some names \<Rightarrow>
                 io_bind (write_text ([''thinkpad_acpi'', machine] @ TP_ACPI_DIR @ [''attribute-names.txt''])
                           (joinwith LF (sort names) @ LF)) (\<lambda>_. io_return []))
      else io_return [''thinkpad_acpi driver not present on this machine''])"

definition battery_paths :: "string list \<Rightarrow> path list" where
  "battery_paths entries =
     concat (List.map (\<lambda>e. List.map (\<lambda>n. ps_dir @ [e, n]) POWER_SUPPLY_FILES) (sort entries))"

definition capture_batteries :: "fs \<Rightarrow> path \<Rightarrow> string \<Rightarrow> ('x capture_world_scheme, unit) io" where
  "capture_batteries m base machine =
     (if fs_is_dir m (base @ ps_dir)
      then (case fs_list m (base @ ps_dir) of
              None \<Rightarrow> io_raise listing_error
            | Some entries \<Rightarrow> copy_files m base (battery_paths entries) [''battery_sysfs'', machine])
      else io_return ())"

text \<open>Every exception of the runner is noted and the capture goes on; 10 is the runner's default timeout.\<close>

definition capture_tool ::
  "'x capture_world_scheme runner \<Rightarrow> string \<Rightarrow> string \<times> string list \<Rightarrow> ('x capture_world_scheme, string list) io" where
  "capture_tool runner machine ta = (\<lambda>w.
     case runner (fst ta) (snd ta) 10 w of
       (Inl e, w') \<Rightarrow> (Inr [fst ta @ '': not captured ('' @ tool_error_str e @ '')''], w')
     | (Inr out, w') \<Rightarrow>
         io_bind (write_text [''pci_usb'', machine, fst ta @ ''.txt''] out) (\<lambda>_. io_return []) w')"

definition readme :: "string \<Rightarrow> string \<Rightarrow> string \<Rightarrow> string \<Rightarrow> string list \<Rightarrow> string" where
  "readme machine stamp version kernel_release notes =
     ''# Lapcare fixture capture'' @ LF @ LF @
     ''- machine: '' @ machine @ LF @
     ''- captured: '' @ stamp @ '' (lapcare '' @ version @ '')'' @ LF @
     ''- kernel: '' @ kernel_release @ LF @
     concat (List.map (\<lambda>n. ''- note: '' @ n @ LF) notes) @ LF @
     ''Layout: `<source>/<machine>/...` '' @ [CHR 0xE2, CHR 0x80, CHR 0x94] @ '' drop directories into'' @
     '' `tests/fixtures/` (see docs/testing.md for the review checklist).'' @ LF"

definition CAPTURE_VERSION :: string where "CAPTURE_VERSION = ''0.5.0''"

definition capture ::
  "fs \<Rightarrow> path \<Rightarrow> 'x capture_world_scheme runner \<Rightarrow> bool \<Rightarrow> string \<Rightarrow> ('x capture_world_scheme, string) io" where
  "capture m base runner include_identifiers stamp =
     (let machine = machine_slug m base in
      io_bind (capture_dmi m base include_identifiers machine) (\<lambda>n1.
      io_bind (capture_os m base include_identifiers machine) (\<lambda>_.
      io_bind (capture_thinkpad m base machine) (\<lambda>n2.
      io_bind (capture_batteries m base machine) (\<lambda>_.
      io_bind (io_mapM (capture_tool runner machine) [(''lspci'', [''-mm'']), (''lsusb'', [])]) (\<lambda>n3.
      io_bind (write_text [''README.md''] (readme machine stamp CAPTURE_VERSION
          (or_str (read_str DEFAULT_MAX_BYTES m (base @ [''proc'', ''sys'', ''kernel'', ''osrelease''])) ''unknown'')
          (n1 @ n2 @ concat n3))) (\<lambda>_.
      io_return machine)))))))"

text \<open>What \<open>run_capture\<close> prints, and its exit status.\<close>

definition run_capture ::
  "fs \<Rightarrow> 'x capture_world_scheme runner \<Rightarrow> string \<Rightarrow> bool \<Rightarrow> string \<Rightarrow> ('x capture_world_scheme, int \<times> string list) io" where
  "run_capture m runner out include_identifiers stamp =
     io_bind (capture m [] runner include_identifiers stamp) (\<lambda>machine.
     io_return (0, (''Captured fixtures for '' @ [CHR 0x27] @ machine @ [CHR 0x27] @ '' into '' @ out @ ''/'') #
       (if include_identifiers
        then [''WARNING: identifiers included '' @ [CHR 0xE2, CHR 0x80, CHR 0x94] @
              '' do NOT attach this capture to public issues.''] else [])))"

section \<open>Identifiers\<close>

text \<open>The files that identify the machine: DMI serials and tags, the host name, battery serials.\<close>

definition identifier_path :: "path \<Rightarrow> path \<Rightarrow> bool" where
  "identifier_path base p \<longleftrightarrow>
     p \<in> set (List.map (\<lambda>q. base @ q) (HOSTNAME_FILE # dmi_paths DMI_IDENTIFIER_FILES)) \<or>
     (\<exists>e. p = base @ ps_dir @ [e, ''serial_number''])"

definition same_but_identifiers :: "path \<Rightarrow> fs \<Rightarrow> fs \<Rightarrow> bool" where
  "same_but_identifiers base m m' \<longleftrightarrow>
     fs_is_dir m' = fs_is_dir m \<and> fs_list m' = fs_list m \<and>
     (\<forall>p. \<not> identifier_path base p \<longrightarrow> fs_read m' p = fs_read m p)"

lemma same_read:
  "same_but_identifiers base m m' \<Longrightarrow> \<not> identifier_path base p \<Longrightarrow> read_str k m' p = read_str k m p"
  by (simp add: same_but_identifiers_def read_str_def)

lemma same_copy:
  "same_but_identifiers base m m' \<Longrightarrow> \<not> identifier_path base (base @ rel) \<Longrightarrow>
   copy_file m' base rel dest = copy_file m base rel dest"
  by (simp add: copy_file_def same_read)

lemma io_mapM_cong: "(\<And>x. x \<in> set xs \<Longrightarrow> f x = g x) \<Longrightarrow> io_mapM f xs = io_mapM g xs"
  by (induction xs) simp_all

lemma same_copies:
  assumes "same_but_identifiers base m m'" "\<And>rel. rel \<in> set rels \<Longrightarrow> \<not> identifier_path base (base @ rel)"
  shows "copy_files m' base rels dest = copy_files m base rels dest"
  unfolding copy_files_def
  by (subst io_mapM_cong [of rels _ "\<lambda>rel. copy_file m base rel dest"]) (simp_all add: same_copy assms)

lemma public_paths:
  "rel \<in> set (dmi_paths DMI_FILES) \<Longrightarrow> \<not> identifier_path base (base @ rel)"
  "rel \<in> set OS_INFO_FILES \<Longrightarrow> \<not> identifier_path base (base @ rel)"
  "\<not> identifier_path base (base @ TP_ACPI_DIR @ [n])"
  by (auto simp: identifier_path_def dmi_paths_def DMI_FILES_def DMI_IDENTIFIER_FILES_def OS_INFO_FILES_def
      HOSTNAME_FILE_def TP_ACPI_DIR_def dmi_dir_def ps_dir_def)

lemma public_battery: "rel \<in> set (battery_paths es) \<Longrightarrow> \<not> identifier_path base (base @ rel)"
  by (auto simp: identifier_path_def battery_paths_def POWER_SUPPLY_FILES_def dmi_paths_def
      HOSTNAME_FILE_def dmi_dir_def ps_dir_def)

section \<open>Properties\<close>

text \<open>C36: A capture taken without opting in cannot contain an identifier: nothing it writes, returns or
  notes depends on the DMI serials, UUID and asset tags, the host name or the battery serial
  numbers of the machine.\<close>

theorem capture_redacted:
  fixes runner :: "'x capture_world_scheme runner"
  assumes "same_but_identifiers base m m'"
  shows "capture m' base runner False stamp = capture m base runner False stamp"
proof -
  have dmi: "read_str k m' (base @ dmi_dir @ [n]) = read_str k m (base @ dmi_dir @ [n])" if "n \<in> set DMI_FILES" for k n
    by (rule same_read [OF assms]) (rule public_paths(1), use that in \<open>auto simp: dmi_paths_def\<close>)
  have slug: "machine_slug m' base = machine_slug m base"
    by (simp add: machine_slug_def dmi DMI_FILES_def)
  have kernel: "read_str k m' (base @ [''proc'', ''sys'', ''kernel'', ''osrelease'']) =
      read_str k m (base @ [''proc'', ''sys'', ''kernel'', ''osrelease''])" for k
    by (rule same_read [OF assms]) (rule public_paths(2), simp add: OS_INFO_FILES_def)
  have "(capture_dmi m' base False machine :: ('x capture_world_scheme, _) io) = capture_dmi m base False machine" for machine
    unfolding capture_dmi_def by (subst same_copies [OF assms]) (simp_all add: public_paths)
  moreover have "(capture_os m' base False machine :: ('x capture_world_scheme, _) io) = capture_os m base False machine" for machine
    unfolding capture_os_def by (subst same_copies [OF assms]) (simp_all add: public_paths)
  moreover have "(capture_thinkpad m' base machine :: ('x capture_world_scheme, _) io) = capture_thinkpad m base machine" for machine
    unfolding capture_thinkpad_def using assms
    by (subst same_copy [OF assms]) (auto simp: public_paths same_but_identifiers_def)
  moreover have "(capture_batteries m' base machine :: ('x capture_world_scheme, _) io) = capture_batteries m base machine" for machine
    using assms same_copies [OF assms public_battery]
    by (auto simp: capture_batteries_def same_but_identifiers_def split: option.split)
  ultimately show ?thesis by (simp only: capture_def slug kernel Let_def)
qed

definition example_machine :: "string \<Rightarrow> fs" where
  "example_machine serial = \<lparr>fs_is_dir = (\<lambda>p. p = dmi_dir), fs_exists = (\<lambda>p. p = dmi_dir), fs_list = (\<lambda>p. None),
     fs_read = (\<lambda>p. if p = dmi_dir @ [''product_serial''] then Some serial
                  else if p = dmi_dir @ [''product_name''] then Some ''21HM'' else None)\<rparr>"

theorem capture_redacted_witness:
  "capture (example_machine ''PF2'') [] (\<lambda>tool args limit w. (Inl (ToolNotFound tool), w)) False ''2026-01-01'' =
     capture (example_machine ''PF1'') [] (\<lambda>tool args limit (w :: capture_world). (Inl (ToolNotFound tool), w)) False ''2026-01-01'' \<and>
   fs_read (example_machine ''PF2'') (dmi_dir @ [''product_serial'']) \<noteq>
     fs_read (example_machine ''PF1'') (dmi_dir @ [''product_serial''])"
proof
  show "capture (example_machine ''PF2'') [] (\<lambda>tool args limit w. (Inl (ToolNotFound tool), w)) False ''2026-01-01'' =
     capture (example_machine ''PF1'') [] (\<lambda>tool args limit (w :: capture_world). (Inl (ToolNotFound tool), w)) False ''2026-01-01''"
    by (rule capture_redacted)
       (simp add: same_but_identifiers_def identifier_path_def example_machine_def dmi_paths_def DMI_IDENTIFIER_FILES_def)
  show "fs_read (example_machine ''PF2'') (dmi_dir @ [''product_serial'']) \<noteq>
     fs_read (example_machine ''PF1'') (dmi_dir @ [''product_serial''])"
    by (simp add: example_machine_def)
qed

end
