(* ===== verification/CaptureReplay.thy ===== *)
theory CaptureReplay
  imports Capture
begin

text \<open>
  A capture, replayed: the providers reading the fixture tree \<open>capture.py\<close> wrote, with
  \<open><out>/<source>/<machine>\<close> as their root, see what they see on the machine itself, less what the
  capture redacts. The fixture tree is the list of files of theory \<open>Capture\<close>, seen as a file
  system: a directory is what lies above a file.
\<close>

definition fixture :: "string \<Rightarrow> string \<Rightarrow> (path \<times> string) list \<Rightarrow> fs" where
  "fixture src machine out =
     (let here = (\<lambda>p. src # machine # p)
      in \<lparr>fs_is_dir = (\<lambda>p. list_ex (\<lambda>(q, _). strict_prefix (here p) q) out),
          fs_exists = (\<lambda>p. list_ex (\<lambda>(q, _). prefix (here p) q) out),
          fs_list = (\<lambda>p. if list_ex (\<lambda>(q, _). strict_prefix (here p) q) out
             then Some (remdups (List.map_filter (\<lambda>(q, _).
               if strict_prefix (here p) q then Some (q ! length (here p)) else None) out))
             else None),
          fs_read = (\<lambda>p. dict_get (here p) out)\<rparr>)"

lemma fixture_read [simp]: "fs_read (fixture src machine out) p = dict_get (src # machine # p) out"
  by (simp add: fixture_def Let_def)

section \<open>Stripped lines\<close>

lemma strip_ascii: "ascii s \<Longrightarrow> strip s = rdropWhile (\<lambda>c. is_space [c]) (dropWhile (\<lambda>c. is_space [c]) s)"
  by (simp add: strip_def chars_ascii rdropWhile_def rev_map dropWhile_map comp_def concat_map_singleton)

lemma rdropWhile_split: "\<exists>t. xs = rdropWhile P xs @ t"
  unfolding rdropWhile_def
  by (metis rev_append rev_rev_ident takeWhile_dropWhile_id)

lemma strip_part: "ascii s \<Longrightarrow> \<exists>a t. s = a @ strip s @ t"
  using rdropWhile_split [of "dropWhile (\<lambda>c. is_space [c]) s" "\<lambda>c. is_space [c]"]
  by (metis strip_ascii takeWhile_dropWhile_id)

lemma strip_ascii_part: "ascii s \<Longrightarrow> ascii (strip s) \<and> length (strip s) \<le> length s"
  using strip_part [of s] by (metis ascii_simps(3) length_append le_add1 le_add2 order_trans)

lemma strip_line_strip:
  assumes "ascii s"
  shows "strip (strip s @ [CHR 0x0A]) = strip s"
proof (cases "strip s = []")
  case True
  have "strip [CHR 0x0A] = []" by code_simp
  with True show ?thesis by simp
next
  case False
  let ?sp = "\<lambda>c. is_space [c]"
  have "\<not> ?sp (last (strip s))"
    using False assms hd_dropWhile [of ?sp "rev (dropWhile ?sp s)"]
    by (simp add: strip_ascii rdropWhile_def last_rev)
  moreover have "\<not> ?sp (hd (strip s))"
  proof -
    have "dropWhile ?sp s \<noteq> []" using False assms by (metis strip_ascii rdropWhile_def rev.simps(1) dropWhile.simps(1))
    moreover obtain t where "dropWhile ?sp s = strip s @ t"
      using rdropWhile_split [of "dropWhile ?sp s" ?sp] assms by (auto simp: strip_ascii)
    ultimately show ?thesis using hd_dropWhile [of ?sp s] False by (metis hd_append2)
  qed
  ultimately show ?thesis using strip_line [of "strip s"] strip_ascii_part [OF assms] False by blast
qed

text \<open>A captured file reads as the machine's, whatever the bound it is read with, if it is short enough.\<close>

lemma captured_read:
  assumes "fs_read m p = Some c" "ascii c" "length c < n" "fs_read w q = Some (strip (decode_replace c) @ LF)"
  shows "read_str n w q = read_str n m p"
proof -
  have d: "decode_replace c = c" using assms(2) by (simp add: decode_replace_valid ascii_valid)
  have "ascii (strip c @ [CHR 0x0A])" "length (strip c @ [CHR 0x0A]) \<le> n"
    using strip_ascii_part [OF assms(2)] assms(3) by simp_all
  then have "read_str n w q = Some (strip (strip c @ [CHR 0x0A]))"
    using assms(4) by (intro read_str_ascii) (simp_all add: d LF_def)
  moreover have "read_str n m p = Some (strip c)" using assms by (intro read_str_ascii) simp_all
  ultimately show ?thesis by (simp add: strip_line_strip [OF assms(2)])
qed

section \<open>What the capture writes below a source\<close>

definition spares :: "string \<Rightarrow> 'x capture_world_scheme \<Rightarrow> 'x capture_world_scheme \<Rightarrow> bool" where
  "spares src w w' \<longleftrightarrow> (\<forall>p. dict_get (src # p) (cw_out w') = dict_get (src # p) (cw_out w))"

lemma spares_order: "reflp (spares src)" "transp (spares src)"
  by (auto simp: spares_def intro: reflpI transpI)

lemma spares_write: "p \<noteq> [] \<Longrightarrow> hd p \<noteq> src \<Longrightarrow> obeys (spares src) (write_text p content)"
  by (auto simp: obeys_def spares_def write_text_def dict_get_set split: option.split)

lemma spares_copy: "dest \<noteq> [] \<Longrightarrow> hd dest \<noteq> src \<Longrightarrow> obeys (spares src) (copy_file m base rel dest)"
  unfolding copy_file_def
  by (auto intro!: obeys_intros spares_order spares_write split: option.split)

lemma spares_copies: "dest \<noteq> [] \<Longrightarrow> hd dest \<noteq> src \<Longrightarrow> obeys (spares src) (copy_files m base rels dest)"
  unfolding copy_files_def by (intro obeys_intros spares_order spares_copy)

lemma spares_raise: "obeys (spares src) (io_raise e)"
  by (simp add: obeys_def spares_def)

lemma spares_dmi: "src \<noteq> ''dmi'' \<Longrightarrow> obeys (spares src) (capture_dmi m base b machine)"
  unfolding capture_dmi_def by (auto intro!: obeys_intros spares_order spares_copies)

lemma spares_os: "src \<noteq> ''os_info'' \<Longrightarrow> obeys (spares src) (capture_os m base b machine)"
  unfolding capture_os_def by (auto intro!: obeys_intros spares_order spares_copies spares_write)

lemma spares_thinkpad: "src \<noteq> ''thinkpad_acpi'' \<Longrightarrow> obeys (spares src) (capture_thinkpad m base machine)"
  unfolding capture_thinkpad_def
  by (auto intro!: obeys_intros spares_order spares_copy spares_write spares_raise split: option.split)

lemma spares_batteries: "src \<noteq> ''battery_sysfs'' \<Longrightarrow> obeys (spares src) (capture_batteries m base machine)"
  unfolding capture_batteries_def
  by (auto intro!: obeys_intros spares_order spares_copies spares_raise split: option.split)

lemma spares_note: "src \<noteq> ''pci_usb'' \<Longrightarrow> obeys (spares src) (io_bind (write_text [''pci_usb'', machine, f] out) (\<lambda>_. io_return x))"
  by (intro obeys_intros spares_order spares_write) simp_all

lemma spares_tool:
  assumes "\<And>t a d w. cw_out (snd (runner t a d w)) = cw_out w" "src \<noteq> ''pci_usb''"
  shows "obeys (spares src) (capture_tool runner machine ta)"
  unfolding obeys_def
proof
  fix w
  obtain r w1 where run: "runner (fst ta) (snd ta) 10 w = (r, w1)" by (metis surj_pair)
  have "cw_out (snd (runner (fst ta) (snd ta) 10 w)) = cw_out w" by (rule assms(1))
  then have "spares src w w1" using run by (simp add: spares_def)
  moreover have "spares src w1 (snd (io_bind (write_text [''pci_usb'', machine, fst ta @ ''.txt''] out) (\<lambda>_. io_return ([] :: string list)) w1))" for out
    by (rule spares_note [OF assms(2), unfolded obeys_def, rule_format])
  ultimately have "spares src w (snd (io_bind (write_text [''pci_usb'', machine, fst ta @ ''.txt''] out)
      (\<lambda>_. io_return ([] :: string list)) w1))" for out
    by (rule transpD [OF spares_order(2)])
  with run \<open>spares src w w1\<close> show "spares src w (snd (capture_tool runner machine ta w))"
    by (cases r) (simp_all add: capture_tool_def)
qed

text \<open>What a successful run of copies leaves of each file.\<close>

definition captured :: "fs \<Rightarrow> path \<Rightarrow> string option" where
  "captured m p = map_option (\<lambda>c. c @ LF) (read_str DEFAULT_MAX_BYTES m p)"

lemma copies_written:
  assumes "copy_files m [] rels dest w = (Inr u, w')"
  shows "dict_get (dest @ rel) (cw_out w') =
    (if rel \<in> set rels \<and> captured m rel \<noteq> None then captured m rel else dict_get (dest @ rel) (cw_out w))"
proof -
  obtain us where "io_mapM (\<lambda>rel. copy_file m [] rel dest) rels w = (Inr us, w')"
    using assms by (auto simp: copy_files_def io_bind_def split: prod.splits sum.splits)
  then show ?thesis
  proof (induction rels arbitrary: w us)
    case (Cons r rels)
    then obtain b v vs where v: "copy_file m [] r dest w = (Inr b, v)"
      "io_mapM (\<lambda>rel. copy_file m [] rel dest) rels v = (Inr vs, w')"
      by (auto simp: io_bind_def split: prod.splits sum.splits)
    have "dict_get (dest @ rel) (cw_out v) =
        (if rel = r \<and> captured m r \<noteq> None then captured m r else dict_get (dest @ rel) (cw_out w))"
      using v(1) by (auto simp: copy_file_def captured_def write_text_def io_bind_def dict_get_set
          split: option.splits)
    with Cons.IH [OF v(2)] show ?case by auto
  qed simp
qed

section \<open>Reading the capture back\<close>

text \<open>A file that is missing, or ASCII text shorter than the bound its provider reads it with.\<close>

definition plain :: "fs \<Rightarrow> path \<Rightarrow> nat \<Rightarrow> bool" where
  "plain m p n \<longleftrightarrow> (case fs_read m p of None \<Rightarrow> True | Some c \<Rightarrow> ascii c \<and> length c < n)"

lemma replay_read:
  assumes "plain m p n" "n \<le> DEFAULT_MAX_BYTES" "dict_get (src # machine # p) out = captured m p"
  shows "read_str n (fixture src machine out) p = read_str n m p"
proof (cases "fs_read m p")
  case None
  then show ?thesis using assms(3) by (simp add: read_str_None captured_def)
next
  case (Some c)
  then have c: "ascii c" "length c < n" using assms(1) by (simp_all add: plain_def)
  then have "captured m p = Some (strip (decode_replace c) @ LF)"
    using Some assms(2) by (simp add: captured_def read_str_Some)
  then show ?thesis using assms(3) by (intro captured_read [OF Some c]) simp
qed

lemma capture_stages:
  assumes "\<And>t a d w. cw_out (snd (runner t a d w)) = cw_out w"
    and "capture m [] runner False stamp w = (Inr machine, w')"
  obtains n1 w1 u w2 where "machine = machine_slug m []"
    "capture_dmi m [] False machine w = (Inr n1, w1)" "spares ''dmi'' w1 w'"
    "capture_os m [] False machine w1 = (Inr u, w2)" "spares ''os_info'' w2 w'"
proof -
  let ?slug = "machine_slug m []"
  define rest where "rest = (\<lambda>n1.
      io_bind (capture_thinkpad m [] ?slug) (\<lambda>n2.
      io_bind (capture_batteries m [] ?slug) (\<lambda>_.
      io_bind (io_mapM (capture_tool runner ?slug) [(''lspci'', [''-mm'']), (''lsusb'', [])]) (\<lambda>n3.
      io_bind (write_text [''README.md''] (readme ?slug stamp CAPTURE_VERSION
          (or_str (read_str DEFAULT_MAX_BYTES m ([] @ [''proc'', ''sys'', ''kernel'', ''osrelease''])) ''unknown'')
          (n1 @ n2 @ concat n3))) (\<lambda>_.
      io_return ?slug)))))"
  have alt: "capture m [] runner False stamp =
      io_bind (capture_dmi m [] False ?slug) (\<lambda>n1. io_bind (capture_os m [] False ?slug) (\<lambda>_. rest n1))"
    by (simp add: capture_def rest_def Let_def)
  have keep: "obeys (spares src) (rest n)" if "src \<in> {''dmi'', ''os_info''}" for src n
    unfolding rest_def using that
    by (intro obeys_intros spares_order spares_thinkpad spares_batteries spares_tool spares_write assms(1)) auto
  obtain n1 w1 where dmi: "capture_dmi m [] False ?slug w = (Inr n1, w1)"
    using assms(2) unfolding alt by (elim io_bind_InrE) auto
  then have "io_bind (capture_os m [] False ?slug) (\<lambda>_. rest n1) w1 = (Inr machine, w')"
    using assms(2) unfolding alt by (simp add: io_bind_Inr)
  then obtain u w2 where os: "capture_os m [] False ?slug w1 = (Inr u, w2)" and last: "rest n1 w2 = (Inr machine, w')"
    by (elim io_bind_InrE) auto
  have after: "spares src x (snd (f x))" if "obeys (spares src) f" for src x f
    using that by (simp add: obeys_def)
  have kept: "spares ''dmi'' w2 w'" "spares ''os_info'' w2 w'"
    using after [OF keep [of "''dmi''" n1], of w2] after [OF keep [of "''os_info''" n1], of w2] last by simp_all
  have "obeys (spares ''dmi'') (capture_os m [] False ?slug)" by (rule spares_os) simp
  then have "spares ''dmi'' w1 w2" using after [of "''dmi''" "capture_os m [] False ?slug" w1] os by simp
  then have "spares ''dmi'' w1 w'" using kept(1) by (rule transpD [OF spares_order(2)])
  moreover have "machine = ?slug"
    using last unfolding rest_def by (auto elim!: io_bind_InrE)
  ultimately show thesis using that dmi os kept(2) by simp
qed

text \<open>A machine whose identifying and system files are short ASCII text.\<close>

definition plain_machine :: "fs \<Rightarrow> bool" where
  "plain_machine m \<longleftrightarrow> list_all (\<lambda>p. plain m p 4096) (dmi_paths DMI_FILES) \<and>
     plain m os_release_path 16384 \<and> plain m [''proc'', ''uptime''] 128 \<and>
     plain m [''proc'', ''sys'', ''kernel'', ''osrelease''] 256"

lemma dmi_captured:
  assumes "capture_dmi m [] False machine w = (Inr n, w1)" "cw_out w = []" "spares ''dmi'' w1 w'" "k \<in> set DMI_FILES"
  shows "dict_get (''dmi'' # machine # dmi_dir @ [k]) (cw_out w') = captured m (dmi_dir @ [k])"
proof -
  have "copy_files m [] (dmi_paths DMI_FILES) [''dmi'', machine] w = (Inr (), w1)"
    using assms(1) by (auto simp: capture_dmi_def elim!: io_bind_InrE)
  from copies_written [OF this, of "dmi_dir @ [k]"] assms(2-4) show ?thesis
    by (auto simp: spares_def dmi_paths_def)
qed

lemma serial_not_captured:
  assumes "capture_dmi m [] False machine w = (Inr n, w1)" "cw_out w = []" "spares ''dmi'' w1 w'"
  shows "dict_get (''dmi'' # machine # dmi_dir @ [''product_serial'']) (cw_out w') = None"
proof -
  have "copy_files m [] (dmi_paths DMI_FILES) [''dmi'', machine] w = (Inr (), w1)"
    using assms(1) by (auto simp: capture_dmi_def elim!: io_bind_InrE)
  from copies_written [OF this, of "dmi_dir @ [''product_serial'']"] assms(2,3) show ?thesis
    by (simp add: spares_def dmi_paths_def DMI_FILES_def)
qed

lemma os_captured:
  assumes "capture_os m [] False machine w = (Inr u, w2)" "spares ''os_info'' w2 w'"
    and "\<And>p. dict_get (''os_info'' # p) (cw_out w) = None"
  shows "rel \<in> set OS_INFO_FILES \<Longrightarrow> dict_get (''os_info'' # machine # rel) (cw_out w') = captured m rel"
    and "dict_get (''os_info'' # machine # HOSTNAME_FILE) (cw_out w') = Some (''redacted-host'' @ LF)"
proof -
  obtain v where v: "copy_files m [] OS_INFO_FILES [''os_info'', machine] w = (Inr (), v)"
    "write_text ([''os_info'', machine] @ HOSTNAME_FILE) (''redacted-host'' @ LF) v = (Inr u, w2)"
    using assms(1) by (auto simp: capture_os_def elim!: io_bind_InrE)
  have w2: "cw_out w2 = dict_set (''os_info'' # machine # HOSTNAME_FILE) (''redacted-host'' @ LF) (cw_out v)"
    using v(2) by (auto simp: write_text_def split: option.splits)
  then show "dict_get (''os_info'' # machine # HOSTNAME_FILE) (cw_out w') = Some (''redacted-host'' @ LF)"
    using assms(2) by (simp add: spares_def dict_get_set)
  assume rel: "rel \<in> set OS_INFO_FILES"
  then have "rel \<noteq> HOSTNAME_FILE" by (auto simp: OS_INFO_FILES_def HOSTNAME_FILE_def)
  then show "dict_get (''os_info'' # machine # rel) (cw_out w') = captured m rel"
    using copies_written [OF v(1), of rel] assms(2,3) rel w2 by (auto simp: spares_def dict_get_set)
qed

section \<open>The power supplies\<close>

lemma battery_stage:
  fixes runner :: "'x capture_world_scheme runner"
  assumes "\<And>t a d w. cw_out (snd (runner t a d w)) = cw_out w"
    and "capture m [] runner False stamp w = (Inr machine, w')"
  obtains w1 u w2 where "spares ''battery_sysfs'' w w1" "capture_batteries m [] machine w1 = (Inr u, w2)"
    "spares ''battery_sysfs'' w2 w'"
proof -
  let ?slug = "machine_slug m []"
  define before :: "('x capture_world_scheme, string list) io" where "before = io_bind (capture_dmi m [] False ?slug) (\<lambda>n1.
      io_bind (capture_os m [] False ?slug) (\<lambda>_. io_bind (capture_thinkpad m [] ?slug) (\<lambda>n2. io_return (n1 @ n2))))"
  define after :: "string list \<Rightarrow> ('x capture_world_scheme, string) io" where "after = (\<lambda>ns. io_bind (io_mapM (capture_tool runner ?slug) [(''lspci'', [''-mm'']), (''lsusb'', [])]) (\<lambda>n3.
      io_bind (write_text [''README.md''] (readme ?slug stamp CAPTURE_VERSION
          (or_str (read_str DEFAULT_MAX_BYTES m ([] @ [''proc'', ''sys'', ''kernel'', ''osrelease''])) ''unknown'')
          (ns @ concat n3))) (\<lambda>_.
      io_return ?slug)))"
  have alt: "capture m [] runner False stamp = io_bind before (\<lambda>ns. io_bind (capture_batteries m [] ?slug) (\<lambda>_. after ns))"
    by (simp add: capture_def before_def after_def Let_def io_bind_assoc)
  have kept: "obeys (spares ''battery_sysfs'') before" "obeys (spares ''battery_sysfs'') (after ns)" for ns
    unfolding before_def after_def
    by (intro obeys_intros spares_order spares_dmi spares_os spares_thinkpad spares_tool spares_write assms(1); simp)+
  obtain ns w1 where b: "before w = (Inr ns, w1)" using assms(2) unfolding alt by (elim io_bind_InrE)
  then have "io_bind (capture_batteries m [] ?slug) (\<lambda>_. after ns) w1 = (Inr machine, w')"
    using assms(2) unfolding alt by (simp add: io_bind_Inr)
  then obtain u w2 where c: "capture_batteries m [] ?slug w1 = (Inr u, w2)" "after ns w2 = (Inr machine, w')"
    by (elim io_bind_InrE)
  have "machine = ?slug" using c(2) unfolding after_def by (auto elim!: io_bind_InrE)
  moreover have "spares ''battery_sysfs'' w w1" "spares ''battery_sysfs'' w2 w'"
    using kept b c(2) unfolding obeys_def by (metis snd_conv)+
  ultimately show thesis using that c(1) by simp
qed

text \<open>Nothing but captured power-supply files is below the directory in the fixtures.\<close>

lemma batteries_captured:
  assumes "capture_batteries m [] machine w1 = (Inr u, w2)"
    and "\<And>p. dict_get (''battery_sysfs'' # p) (cw_out w1) = None"
    and "fs_is_dir m ps_dir" "fs_list m ps_dir = Some entries"
  shows "dict_get (''battery_sysfs'' # machine # rel) (cw_out w2) = (if rel \<in> set (battery_paths entries) then captured m rel else None)"
proof -
  have "copy_files m [] (battery_paths entries) [''battery_sysfs'', machine] w1 = (Inr u, w2)"
    using assms(1,3,4) by (simp add: capture_batteries_def)
  from copies_written [OF this, of rel] assms(2) show ?thesis by (auto split: if_splits)
qed

lemma no_batteries_captured:
  assumes "capture_batteries m [] machine w1 = (Inr u, w2)"
    and "\<And>p. dict_get (''battery_sysfs'' # p) (cw_out w1) = None" "\<not> fs_is_dir m ps_dir"
  shows "dict_get (''battery_sysfs'' # p) (cw_out w2) = None"
  using assms by (simp add: capture_batteries_def)

lemma battery_paths_set:
  "p \<in> set (battery_paths entries) \<longleftrightarrow> (\<exists>e f. p = ps_dir @ [e, f] \<and> e \<in> set entries \<and> f \<in> set POWER_SUPPLY_FILES)"
  by (auto simp: battery_paths_def)

lemma fixture_keys: "list_ex (\<lambda>(q, _). P q) out \<longleftrightarrow> (\<exists>q. dict_get q out \<noteq> None \<and> P q)"
  by (force simp: list_ex_iff dict_get_None)

lemma fixture_list:
  "fs_list (fixture src machine out) p = Some names \<Longrightarrow>
   distinct names \<and> set names = {q ! length (src # machine # p) | q. dict_get q out \<noteq> None \<and> strict_prefix (src # machine # p) q}"
  by (auto simp: fixture_def Let_def dict_get_None set_map_filter split: if_splits) (force+)

definition battery_bound :: "string \<Rightarrow> nat" where
  "battery_bound f = (if f \<in> {''model_name'', ''manufacturer''} then 256 else 64)"

text \<open>Names as a directory has them, each once, and short ASCII files.\<close>

definition plain_supplies :: "fs \<Rightarrow> bool" where
  "plain_supplies m \<longleftrightarrow>
     (case fs_list m ps_dir of
        None \<Rightarrow> True
      | Some entries \<Rightarrow> distinct entries \<and>
          list_all (\<lambda>e. list_all (\<lambda>f. plain m (ps_dir @ [e, f]) (battery_bound f)) POWER_SUPPLY_FILES) entries)"

lemma captured_None: "plain m p n \<Longrightarrow> n \<le> DEFAULT_MAX_BYTES \<Longrightarrow> captured m p = None \<longleftrightarrow> fs_read m p = None"
  by (auto simp: captured_def plain_def read_str_def Let_def split: option.splits)

lemma sorted_sublist:
  assumes "distinct xs" "distinct ys" "set ys \<subseteq> set (xs :: string list)"
  shows "sort ys = filter (\<lambda>x. x \<in> set ys) (sort xs)"
  using assms by (intro sorted_distinct_set_unique) (auto simp: sorted_wrt_filter)

lemma map_filter_superset:
  assumes "\<And>x. x \<in> set xs \<Longrightarrow> x \<notin> A \<Longrightarrow> f x = None"
  shows "List.map_filter f (filter (\<lambda>x. x \<in> A) xs) = List.map_filter f xs"
  using assms by (induction xs) (auto simp: List.map_filter_simps split: option.split)

lemma map_filter_cong': "(\<And>x. x \<in> set xs \<Longrightarrow> f x = g x) \<Longrightarrow> List.map_filter f xs = List.map_filter g xs"
  by (induction xs) (auto simp: List.map_filter_simps split: option.split)

lemma replay_battery:
  assumes "\<And>f. f \<in> set POWER_SUPPLY_FILES \<Longrightarrow>
    read_str (battery_bound f) v (ps_dir @ [n, f]) = read_str (battery_bound f) m (ps_dir @ [n, f])"
  shows "read_battery v n = read_battery m n"
proof -
  have field: "read_str k v (ps_dir @ [n, f]) = read_str k m (ps_dir @ [n, f])"
    if "f \<in> set POWER_SUPPLY_FILES" "battery_bound f = k" for f k
    using assms [OF that(1)] that(2) by simp
  have "read_str 64 v (ps_dir @ [n, f]) = read_str 64 m (ps_dir @ [n, f])"
    if "f = ''type'' \<or> f = ''cycle_count'' \<or> f = ''energy_full'' \<or> f = ''energy_full_design'' \<or>
      f = ''charge_full'' \<or> f = ''charge_full_design'' \<or> f = ''technology''" for f
    using that by (intro field) (auto simp: POWER_SUPPLY_FILES_def battery_bound_def)
  note short = this [of "''type''", simplified] this [of "''cycle_count''", simplified] this [of "''energy_full''", simplified]
    this [of "''energy_full_design''", simplified] this [of "''charge_full''", simplified]
    this [of "''charge_full_design''", simplified] this [of "''technology''", simplified]
  have long: "read_str 256 v (ps_dir @ [n, ''model_name'']) = read_str 256 m (ps_dir @ [n, ''model_name''])"
    "read_str 256 v (ps_dir @ [n, ''manufacturer'']) = read_str 256 m (ps_dir @ [n, ''manufacturer''])"
    by (intro field; simp add: POWER_SUPPLY_FILES_def battery_bound_def)+
  show ?thesis
    by (simp only: read_battery_def read_capacity_def read_int_def Let_def append_assoc append_Cons append_Nil short long)
qed

lemma replay_supplies:
  assumes "fs_list m ps_dir = Some entries" "fs_is_dir m ps_dir" "plain_supplies m"
    and out: "\<And>rel. dict_get (''battery_sysfs'' # machine # rel) out = (if rel \<in> set (battery_paths entries) then captured m rel else None)"
  shows "fst (sysfs_batteries (fixture ''battery_sysfs'' machine out)) = fst (sysfs_batteries m)"
proof -
  let ?v = "fixture ''battery_sysfs'' machine out"
  have plain: "plain m (ps_dir @ [e, f]) (battery_bound f)" if "e \<in> set entries" "f \<in> set POWER_SUPPLY_FILES" for e f
    using assms(1,3) that by (auto simp: plain_supplies_def list_all_iff)
  have bound: "battery_bound f \<le> DEFAULT_MAX_BYTES" for f by (simp add: battery_bound_def DEFAULT_MAX_BYTES_def)
  have same: "read_battery ?v e = read_battery m e" if "e \<in> set entries" for e
    by (intro replay_battery replay_read plain that bound) (use out that in \<open>auto simp: battery_paths_set\<close>)
  define found where "found = {e. \<exists>f. e \<in> set entries \<and> f \<in> set POWER_SUPPLY_FILES \<and> captured m (ps_dir @ [e, f]) \<noteq> None}"
  have below: "dict_get q out \<noteq> None \<and> strict_prefix (''battery_sysfs'' # machine # ps_dir) q \<longleftrightarrow>
      (\<exists>e f. q = ''battery_sysfs'' # machine # ps_dir @ [e, f] \<and> e \<in> set entries \<and> f \<in> set POWER_SUPPLY_FILES \<and>
         captured m (ps_dir @ [e, f]) \<noteq> None)" for q
  proof -
    have "strict_prefix (''battery_sysfs'' # machine # ps_dir) q \<Longrightarrow> \<exists>rel. q = ''battery_sysfs'' # machine # ps_dir @ rel"
      by (auto simp: strict_prefix_def prefix_def)
    then show ?thesis using out by (auto simp: battery_paths_set strict_prefix_def split: if_splits)
  qed
  have unread: "read_battery m e = None" if "e \<in> set entries" "e \<notin> found" for e
  proof -
    have type: "''type'' \<in> set POWER_SUPPLY_FILES" by (simp add: POWER_SUPPLY_FILES_def)
    then have "captured m (ps_dir @ [e, ''type'']) = None" using that unfolding found_def by blast
    then have "fs_read m (ps_dir @ [e, ''type'']) = None" using captured_None [OF plain [OF that(1) type] bound] by simp
    then show ?thesis by (simp add: read_battery_def Let_def read_str_None)
  qed
  have real: "fst (sysfs_batteries m) = Inr (List.map_filter (read_battery m) (sort entries))"
    using assms(1,2) by (simp add: sysfs_batteries_def)
  have "fs_is_dir ?v ps_dir \<longleftrightarrow>
      (\<exists>q. dict_get q out \<noteq> None \<and> strict_prefix (''battery_sysfs'' # machine # ps_dir) q)"
    by (simp only: fixture_def Let_def fs.simps fixture_keys)
  then have dir: "fs_is_dir ?v ps_dir \<longleftrightarrow> found \<noteq> {}" unfolding below found_def by auto
  show ?thesis
  proof (cases "found = {}")
    case True
    then have "List.map_filter (read_battery m) (sort entries) = []"
      using unread by (auto simp: List.map_filter_def filter_empty_conv)
    with True dir real show ?thesis by (simp add: sysfs_batteries_def)
  next
    case False
    then obtain names where names: "fs_list ?v ps_dir = Some names" using dir by (auto simp: fixture_def Let_def)
    have key: "(''battery_sysfs'' # machine # ps_dir @ [e, f]) ! length (''battery_sysfs'' # machine # ps_dir) = e" for e f
      by (simp add: nth_append)
    have "set names = {q ! length (''battery_sysfs'' # machine # ps_dir) | q. \<exists>e f. q = ''battery_sysfs'' # machine # ps_dir @ [e, f] \<and>
        e \<in> set entries \<and> f \<in> set POWER_SUPPLY_FILES \<and> captured m (ps_dir @ [e, f]) \<noteq> None}"
      using fixture_list [OF names] unfolding below by (rule conjunct2)
    also have "\<dots> = found" unfolding found_def using key by (intro set_eqI) (simp only: mem_Collect_eq, metis)
    finally have set: "set names = found" .
    have once: "distinct names" using fixture_list [OF names] by (rule conjunct1)
    have "distinct entries" using assms(1,3) by (simp add: plain_supplies_def)
    then have "sort names = filter (\<lambda>e. e \<in> found) (sort entries)"
      using sorted_sublist [of entries names] set once by (auto simp: found_def)
    moreover have "List.map_filter (read_battery ?v) (filter (\<lambda>e. e \<in> found) (sort entries)) =
        List.map_filter (read_battery m) (filter (\<lambda>e. e \<in> found) (sort entries))"
      by (rule map_filter_cong') (simp add: same)
    moreover have "\<dots> = List.map_filter (read_battery m) (sort entries)"
      by (rule map_filter_superset) (simp add: unread)
    ultimately have "List.map_filter (read_battery ?v) (sort names) = List.map_filter (read_battery m) (sort entries)" by simp
    with False dir names real show ?thesis by (simp add: sysfs_batteries_def)
  qed
qed

text \<open>The power supplies of a capture are those of the machine.\<close>

lemma batteries_replay:
  assumes "\<And>t a d w. cw_out (snd (runner t a d w)) = cw_out w" "plain_supplies m" "cw_out w = []"
    and "capture m [] runner False stamp w = (Inr machine, w')"
  shows "fst (sysfs_batteries (fixture ''battery_sysfs'' machine (cw_out w'))) = fst (sysfs_batteries m)"
proof -
  obtain w1 u w2 where st: "spares ''battery_sysfs'' w w1" "capture_batteries m [] machine w1 = (Inr u, w2)"
    "spares ''battery_sysfs'' w2 w'"
    using battery_stage [OF assms(1,4)] .
  have none: "dict_get (''battery_sysfs'' # p) (cw_out w1) = None" for p using st(1) assms(3) by (simp add: spares_def)
  show ?thesis
  proof (cases "fs_is_dir m ps_dir")
    case True
    then obtain entries where entries: "fs_list m ps_dir = Some entries"
      using st(2) by (cases "fs_list m ps_dir") (auto simp: capture_batteries_def)
    have "dict_get (''battery_sysfs'' # machine # rel) (cw_out w') = (if rel \<in> set (battery_paths entries) then captured m rel else None)" for rel
      using batteries_captured [OF st(2) none True entries, of rel] st(3) by (simp add: spares_def)
    then show ?thesis by (rule replay_supplies [OF entries True assms(2)])
  next
    case False
    then have "dict_get (''battery_sysfs'' # p) (cw_out w') = None" for p
      using no_batteries_captured [OF st(2) none False, of p] st(3) by (simp add: spares_def)
    then have "\<not> (dict_get q (cw_out w') \<noteq> None \<and> strict_prefix (''battery_sysfs'' # machine # ps_dir) q)" for q
      by (cases q) (auto simp: strict_prefix_def)
    then have "\<nexists>q. dict_get q (cw_out w') \<noteq> None \<and> strict_prefix (''battery_sysfs'' # machine # ps_dir) q" by (simp only: not_ex simp_thms)
    then have "\<not> fs_is_dir (fixture ''battery_sysfs'' machine (cw_out w')) ps_dir"
      by (simp only: fixture_def Let_def fs.simps fixture_keys simp_thms)
    with False show ?thesis by (simp add: sysfs_batteries_def)
  qed
qed

section \<open>A capture completes\<close>

text \<open>Where no write is refused, an operation returns a value, and still none is.\<close>

definition completes :: "('x capture_world_scheme, 'a) io \<Rightarrow> bool" where
  "completes f \<longleftrightarrow> (\<forall>w. cw_fault w = (\<lambda>p. None) \<longrightarrow> (\<exists>x w'. f w = (Inr x, w') \<and> cw_fault w' = (\<lambda>p. None)))"

named_theorems completes_intros

lemma completes_return [completes_intros]: "completes (io_return x)"
  by (simp add: completes_def)

lemma completes_if [completes_intros]:
  "(c \<Longrightarrow> completes f) \<Longrightarrow> (\<not> c \<Longrightarrow> completes g) \<Longrightarrow> completes (if c then f else g)"
  by simp

lemma completes_option [completes_intros]:
  "(x = None \<Longrightarrow> completes f) \<Longrightarrow> (\<And>y. x = Some y \<Longrightarrow> completes (g y)) \<Longrightarrow>
   completes (case x of None \<Rightarrow> f | Some y \<Rightarrow> g y)"
  by (cases x) simp_all

lemma completes_run:
  assumes "completes f" "cw_fault w = (\<lambda>p. None)"
  obtains x w' where "f w = (Inr x, w')"
  using assms unfolding completes_def by blast

lemma completes_bind [completes_intros]:
  assumes "completes f" "\<And>x. completes (g x)"
  shows "completes (io_bind f g)"
  unfolding completes_def
proof (intro allI impI)
  fix w :: "'a capture_world_scheme"
  assume "cw_fault w = (\<lambda>p. None)"
  then obtain x v where "f w = (Inr x, v)" "cw_fault v = (\<lambda>p. None)" using assms(1) unfolding completes_def by blast
  then show "\<exists>y w'. io_bind f g w = (Inr y, w') \<and> cw_fault w' = (\<lambda>p. None)"
    using assms(2) [of x] by (auto simp: completes_def io_bind_Inr)
qed

lemma completes_mapM [completes_intros]: "(\<And>x. completes (f x)) \<Longrightarrow> completes (io_mapM f xs)"
  by (induction xs) (auto intro!: completes_intros)

lemma completes_write [completes_intros]: "completes (write_text p content)"
  by (simp add: completes_def write_text_def)

lemma completes_copy [completes_intros]: "completes (copy_file m base rel dest)"
  unfolding copy_file_def by (auto intro!: completes_intros split: option.split)

lemma completes_copies [completes_intros]: "completes (copy_files m base rels dest)"
  unfolding copy_files_def by (intro completes_intros)

lemma completes_tool:
  assumes "\<And>t a d w. cw_fault (snd (runner t a d w)) = cw_fault w"
  shows "completes (capture_tool runner machine ta)"
  unfolding completes_def
proof (intro allI impI)
  fix w :: "'a capture_world_scheme"
  assume w: "cw_fault w = (\<lambda>p. None)"
  obtain r v where run: "runner (fst ta) (snd ta) 10 w = (r, v)" by (metis surj_pair)
  then have v: "cw_fault v = (\<lambda>p. None)" using assms [of "fst ta" "snd ta" 10 w] w by simp
  have "completes (io_bind (write_text [''pci_usb'', machine, fst ta @ ''.txt''] out) (\<lambda>_. io_return ([] :: string list))
      :: ('a capture_world_scheme, string list) io)" for out
    by (intro completes_intros)
  then show "\<exists>x w'. capture_tool runner machine ta w = (Inr x, w') \<and> cw_fault w' = (\<lambda>p. None)"
    using run v by (cases r) (simp_all add: capture_tool_def completes_def)
qed

lemma capture_completes:
  assumes "\<And>t a d w. cw_fault (snd (runner t a d w)) = cw_fault w"
    and "fs_is_dir m (base @ TP_ACPI_DIR) \<Longrightarrow> fs_list m (base @ TP_ACPI_DIR) \<noteq> None"
    and "fs_is_dir m (base @ ps_dir) \<Longrightarrow> fs_list m (base @ ps_dir) \<noteq> None"
  shows "completes (capture m base runner include_identifiers stamp)"
  unfolding capture_def Let_def capture_dmi_def capture_os_def capture_thinkpad_def capture_batteries_def
  using assms(2,3) by (intro completes_intros completes_tool assms(1)) simp_all

section \<open>Properties\<close>

text \<open>C37: A capture replays: reading the fixtures of a successful capture with the providers gives the
  identity, the operating system and the batteries the machine itself shows, except that the serial
  number is gone and the host is called redacted-host. The machine's DMI, os-release, uptime, kernel
  release and power-supply files are short ASCII texts, and its directories list an entry once.\<close>

theorem capture_replays:
  assumes "\<And>t a d u. cw_out (snd (runner t a d u)) = cw_out u" "plain_machine m" "plain_supplies m" "cw_out w = []"
    and "capture m [] runner False stamp w = (Inr machine, w')"
  shows "fst (read_identity (fixture ''dmi'' machine (cw_out w'))) =
      map_sum id (\<lambda>i. i\<lparr>si_serial := None\<rparr>) (fst (read_identity m)) \<and>
    fst (read_os (fixture ''os_info'' machine (cw_out w'))) =
      map_sum id (\<lambda>s. s\<lparr>os_hostname := Some ''redacted-host''\<rparr>) (fst (read_os m)) \<and>
    fst (sysfs_batteries (fixture ''battery_sysfs'' machine (cw_out w'))) = fst (sysfs_batteries m)"
proof -
  obtain n1 w1 u w2 where st: "machine = machine_slug m []" "capture_dmi m [] False machine w = (Inr n1, w1)"
    "spares ''dmi'' w1 w'" "capture_os m [] False machine w1 = (Inr u, w2)" "spares ''os_info'' w2 w'"
    using capture_stages [OF assms(1,5)] .
  have "obeys (spares ''os_info'') (capture_dmi m [] False machine)" by (rule spares_dmi) simp
  then have "spares ''os_info'' w w1" using st(2) unfolding obeys_def by (metis snd_conv)
  then have none: "dict_get (''os_info'' # p) (cw_out w1) = None" for p using assms(4) by (simp add: spares_def)
  have field: "read_str 4096 (fixture ''dmi'' machine (cw_out w')) (dmi_dir @ [k]) = read_str 4096 m (dmi_dir @ [k])"
    if "k \<in> set DMI_FILES" for k
    using assms(2) that
    by (intro replay_read dmi_captured [OF st(2) assms(4) st(3)])
       (auto simp: plain_machine_def dmi_paths_def list_all_iff DEFAULT_MAX_BYTES_def)
  have serial: "read_str 4096 (fixture ''dmi'' machine (cw_out w')) (dmi_dir @ [''product_serial'']) = None"
    using serial_not_captured [OF st(2) assms(4) st(3)] by (simp add: read_str_None)
  have host: "read_str 256 (fixture ''os_info'' machine (cw_out w')) HOSTNAME_FILE = Some ''redacted-host''"
  proof -
    have "read_str 256 (fixture ''os_info'' machine (cw_out w')) HOSTNAME_FILE = Some (strip (''redacted-host'' @ LF))"
      using os_captured(2) [OF st(4,5) none] by (intro read_str_ascii) (simp_all add: LF_def)
    moreover have "strip (''redacted-host'' @ LF) = ''redacted-host''" by code_simp
    ultimately show ?thesis by simp
  qed
  have same: "read_str n (fixture ''os_info'' machine (cw_out w')) p = read_str n m p"
    if "p \<in> set OS_INFO_FILES" "plain m p n" "n \<le> DEFAULT_MAX_BYTES" for p n
    using that(2,3) by (rule replay_read) (rule os_captured(1) [OF st(4,5) none that(1)])
  have files: "read_str 16384 (fixture ''os_info'' machine (cw_out w')) os_release_path = read_str 16384 m os_release_path"
    "read_str 128 (fixture ''os_info'' machine (cw_out w')) [''proc'', ''uptime''] = read_str 128 m [''proc'', ''uptime'']"
    "read_str 256 (fixture ''os_info'' machine (cw_out w')) [''proc'', ''sys'', ''kernel'', ''osrelease''] =
     read_str 256 m [''proc'', ''sys'', ''kernel'', ''osrelease'']"
    using assms(2) by (intro same; simp add: plain_machine_def OS_INFO_FILES_def os_release_path_def DEFAULT_MAX_BYTES_def)+
  have supplies: "fst (sysfs_batteries (fixture ''battery_sysfs'' machine (cw_out w'))) = fst (sysfs_batteries m)"
    by (rule batteries_replay [OF assms(1,3,4,5)])
  show ?thesis
    using supplies field serial host files by (simp add: read_identity_def read_os_def Let_def DMI_FILES_def HOSTNAME_FILE_def)
qed

definition battery_machine :: fs where
  "battery_machine = (example_machine ''PF1'')
     \<lparr>fs_is_dir := (\<lambda>p. p = dmi_dir \<or> p = ps_dir), fs_list := (\<lambda>p. if p = ps_dir then Some [''AC'', ''BAT0''] else None),
      fs_read := (\<lambda>p. if p = ps_dir @ [''BAT0'', ''type''] then Some (''Battery'' @ LF)
         else if p = ps_dir @ [''BAT0'', ''energy_full''] then Some (''41230000'' @ LF)
         else fs_read (example_machine ''PF1'') p)\<rparr>"

theorem capture_replays_witness:
  "\<exists>machine w'. capture battery_machine [] (\<lambda>t a d u. (Inl (ToolNotFound t), u)) False ''2026-01-01''
       \<lparr>cw_out = [], cw_fault = (\<lambda>p. None)\<rparr> = (Inr machine, w') \<and>
     fst (read_identity (fixture ''dmi'' machine (cw_out w'))) =
       map_sum id (\<lambda>i. i\<lparr>si_serial := None\<rparr>) (fst (read_identity battery_machine)) \<and>
     fst (sysfs_batteries (fixture ''battery_sysfs'' machine (cw_out w'))) = fst (sysfs_batteries battery_machine)"
proof -
  let ?m = battery_machine and ?w = "\<lparr>cw_out = [], cw_fault = (\<lambda>p. None)\<rparr>"
  let ?run = "\<lambda>t a d u. (Inl (ToolNotFound t), u :: capture_world)"
  have "completes (capture ?m [] ?run False ''2026-01-01'')"
    by (rule capture_completes) (simp_all add: battery_machine_def TP_ACPI_DIR_def ps_dir_def dmi_dir_def)
  then obtain machine w' where run: "capture ?m [] ?run False ''2026-01-01'' ?w = (Inr machine, w')"
    by (rule completes_run [where w = ?w]) simp
  have machine: "plain_machine ?m"
    by (simp add: plain_machine_def plain_def dmi_paths_def DMI_FILES_def battery_machine_def example_machine_def
        dmi_dir_def os_release_path_def ps_dir_def)
  have supplies: "plain_supplies ?m"
    by (simp add: plain_supplies_def plain_def POWER_SUPPLY_FILES_def battery_machine_def example_machine_def
        battery_bound_def ps_dir_def dmi_dir_def LF_def)
  have "cw_out (snd (?run t a d u)) = cw_out u" for t a d u by simp
  from capture_replays [OF this machine supplies _ run] show ?thesis
    by (intro exI [of _ machine] exI [of _ w'] conjI run) simp_all
qed

end
