(* ===== verification/System.thy ===== *)
theory System
  imports Sysfs OsInfo DiskUsage PciUsb UPower Fwupd FirmwarePage HardwarePage StoragePage BatteryPage
begin

text \<open>
  The composition root, \<open>app.py\<close>: which concrete provider stands behind which port. One machine
  is the file system, the processes, the history database and the firmware daemon; an
  operation of a component becomes one of the machine by acting on its part. The theorems are
  about what whole runs of the pages do to the machine.
\<close>

record 'w machine =
  m_fs :: fs
  m_procs :: procs
  m_db :: history_db
  m_fwupd :: "(unit, 'w) fwupd_state"
  m_upower :: "'w bus_client"

definition on_part :: "('m \<Rightarrow> 's) \<Rightarrow> ('s \<Rightarrow> 'm \<Rightarrow> 'm) \<Rightarrow> ('s, 'a) io \<Rightarrow> ('m, 'a) io" where
  "on_part get put f = (\<lambda>m. case f (get m) of (r, s) \<Rightarrow> (r, put s m))"

definition on_fs :: "(fs, 'a) io \<Rightarrow> ('w machine, 'a) io" where
  "on_fs = on_part m_fs (\<lambda>s m. m\<lparr>m_fs := s\<rparr>)"

definition on_procs :: "(procs, 'a) io \<Rightarrow> ('w machine, 'a) io" where
  "on_procs = on_part m_procs (\<lambda>s m. m\<lparr>m_procs := s\<rparr>)"

definition on_fwupd :: "((unit, 'w) fwupd_state, 'a) io \<Rightarrow> ('w machine, 'a) io" where
  "on_fwupd = on_part m_fwupd (\<lambda>s m. m\<lparr>m_fwupd := s\<rparr>)"

definition on_db :: "(history_db, 'a) io \<Rightarrow> ('w machine, 'a) io" where
  "on_db = on_part m_db (\<lambda>s m. m\<lparr>m_db := s\<rparr>)"

definition on_upower :: "('w bus_client, 'a) io \<Rightarrow> ('w machine, 'a) io" where
  "on_upower = on_part m_upower (\<lambda>s m. m\<lparr>m_upower := s\<rparr>)"

section \<open>Wiring\<close>

definition app_battery_wear :: "'w machine battery_wear_provider" where
  "app_battery_wear = \<lparr>list_batteries = on_fs sysfs_batteries\<rparr>"

definition app_storage :: "'w machine storage_provider" where
  "app_storage = \<lparr>st_list_devices = on_fs block_devices, read_smart = (\<lambda>n. on_procs (smart_read run_tool n))\<rparr>"

definition app_firmware :: "'w fwupd_client \<Rightarrow> 'w machine firmware_provider" where
  "app_firmware client = \<lparr>fw_list_devices = on_fwupd (fwupd_list_devices client),
     list_upgrades = (\<lambda>i. on_fwupd (fwupd_list_upgrades client i))\<rparr>"

definition app_thermal :: "'w machine thermal_provider" where
  "app_thermal = \<lparr>list_temperatures = on_fs hwmon_temperatures\<rparr>"

definition app_disk :: "(string \<Rightarrow> nat option) \<Rightarrow> statvfs \<Rightarrow> 'w machine disk_usage_provider" where
  "app_disk names statvfs = \<lparr>list_usage = on_fs (disk_usages names statvfs)\<rparr>"

definition app_diagnostics ::
  "'w fwupd_client \<Rightarrow> (string \<Rightarrow> nat option) \<Rightarrow> statvfs \<Rightarrow> ('w machine, diagnostics_report) io" where
  "app_diagnostics client names statvfs =
     timed_run app_battery_wear app_storage (app_firmware client) app_thermal (app_disk names statvfs)"

definition app_dashboard_score ::
  "'w fwupd_client \<Rightarrow> (string \<Rightarrow> nat option) \<Rightarrow> statvfs \<Rightarrow> ('w machine, diagnostics_report) io" where
  "app_dashboard_score client names statvfs =
     dashboard_run (Some app_battery_wear) (Some (app_firmware client)) (Some app_thermal) (Some (app_disk names statvfs))"

definition app_identity :: "'w machine system_identity_provider" where
  "app_identity = \<lparr>ip_read_identity = on_fs read_identity\<rparr>"

definition app_os_info :: "'w machine os_info_provider" where
  "app_os_info = \<lparr>op_read_os = on_fs read_os, op_read_cpu_mem = on_fs read_cpu_mem\<rparr>"

text \<open>\<open>ThinkpadAcpiSysfs(identity=dmi)\<close>: the detection reads the identity through its own port.\<close>

definition app_thinkpad :: "'w machine thinkpad_provider" where
  "app_thinkpad = \<lparr>tp_detect = on_fs (detect (Some read_identity))\<rparr>"

definition app_inventory :: "'w machine device_inventory_provider" where
  "app_inventory = \<lparr>iv_list_pci = on_procs (list_pci run_tool), iv_list_usb = on_procs (list_usb run_tool)\<rparr>"

definition app_battery_status :: "'w system_bus \<Rightarrow> 'w machine battery_status_provider" where
  "app_battery_status bus = \<lparr>bp_read_status = on_upower (read_status bus), bp_subscribe = on_upower (upower_subscribe bus)\<rparr>"

definition app_history :: "'w machine wear_history_store" where
  "app_history = \<lparr>hs_record_wear = (\<lambda>snapshot. on_db (record_wear snapshot)),
     hs_wear_history = (\<lambda>name limit. on_db (wear_history name limit))\<rparr>"

lemmas app_port_defs = app_identity_def app_os_info_def app_thinkpad_def app_inventory_def app_battery_status_def app_history_def

definition app_dashboard_gather :: "('w machine, system_identity \<times> os_info \<times> thinkpad_info) io" where
  "app_dashboard_gather =
     gather_dashboard (ip_read_identity app_identity) (op_read_os app_os_info) (tp_detect app_thinkpad)"

definition app_hardware_gather :: "('w machine, inventory) io" where
  "app_hardware_gather = gather_hardware (ip_read_identity app_identity) (op_read_cpu_mem app_os_info)
     (iv_list_pci app_inventory) (iv_list_usb app_inventory)"

text \<open>\<open>today\<close> is the day the load reads from its clock.\<close>

definition app_battery_gather :: "'w system_bus \<Rightarrow> string \<Rightarrow> ('w machine, battery_data) io" where
  "app_battery_gather bus today = gather_battery (list_batteries app_battery_wear) (bp_read_status (app_battery_status bus))
     (hs_record_wear app_history) (hs_wear_history app_history) today"

definition app_firmware_gather :: "'w fwupd_client \<Rightarrow> ('w machine, gathered) io" where
  "app_firmware_gather client = gather_firmware (app_firmware client)"

definition app_storage_gather :: "('w machine, storage_device list) io" where
  "app_storage_gather = st_list_devices app_storage"

lemma obeys_ask [obeys_intros]:
  "reflp R \<Longrightarrow> (\<And>q. p = Some q \<Longrightarrow> obeys R (f q)) \<Longrightarrow> obeys R (ask f p)"
  by (auto simp: ask_def intro: obeys_intros split: option.split)

text \<open>Only the daemon's part may change.\<close>

definition same_host :: "'w machine \<Rightarrow> 'w machine \<Rightarrow> bool" where
  "same_host m m' \<longleftrightarrow> m_fs m' = m_fs m \<and> m_db m' = m_db m \<and> m_procs m' = m_procs m"

lemma same_host_order: "reflp same_host" "transp same_host"
  by (auto simp: same_host_def intro: reflpI transpI)

lemma same_host_fs: "reads_only f \<Longrightarrow> obeys same_host (on_fs f)"
  by (auto simp: obeys_def on_fs_def on_part_def same_host_def reads_only_def split: prod.split) (metis snd_conv)

lemma same_host_reads: "obeys same_host (on_fs (io_reads f))"
  by (rule same_host_fs) (simp add: reads_only_def)

lemma same_host_fwupd: "obeys same_host (on_fwupd f)"
  by (simp add: obeys_def on_fwupd_def on_part_def same_host_def split: prod.split)

lemmas same_host_ports = same_host_order same_host_reads same_host_fwupd

lemma same_host_sources:
  "obeys same_host (list_batteries app_battery_wear)"
  "obeys same_host (pending_upgrades (app_firmware client))"
  "obeys same_host (list_temperatures app_thermal)"
  "obeys same_host (list_usage (app_disk names statvfs))"
  "obeys same_host (st_list_devices app_storage)"
  by (simp_all add: app_battery_wear_def app_firmware_def app_thermal_def app_disk_def app_storage_def
      sysfs_batteries_def hwmon_temperatures_def disk_usages_def block_devices_def pending_upgrades_def
      same_host_ports obeys_bind obeys_mapM obeys_return)

section \<open>Commands\<close>

text \<open>The commands an operation started: a subsequence of an expected list, on the same machine otherwise.\<close>

definition asks :: "string list list \<Rightarrow> ('w machine, 'a) io \<Rightarrow> bool" where
  "asks cs f \<longleftrightarrow> (\<forall>m. \<exists>ds. subseq ds cs \<and> commands (m_procs (snd (f m))) = commands (m_procs m) @ ds \<and>
     m_fs (snd (f m)) = m_fs m \<and> m_db (snd (f m)) = m_db m)"

lemma asks_same_host: "obeys same_host f \<Longrightarrow> asks [] f"
  by (auto simp: asks_def obeys_def same_host_def)

lemma asks_more: "asks cs f \<Longrightarrow> subseq cs cs' \<Longrightarrow> asks cs' f"
  unfolding asks_def by (meson subseq_order.order_trans)

lemma asks_bind:
  assumes "asks cs f" "\<And>x. asks ds (g x)"
  shows "asks (cs @ ds) (io_bind f g)"
  unfolding asks_def
proof
  fix m
  obtain r m1 where f: "f m = (r, m1)" by (metis surj_pair)
  with assms(1) obtain c where c: "subseq c cs" "commands (m_procs m1) = commands (m_procs m) @ c"
    "m_fs m1 = m_fs m" "m_db m1 = m_db m" unfolding asks_def by (metis snd_conv)
  show "\<exists>e. subseq e (cs @ ds) \<and> commands (m_procs (snd (io_bind f g m))) = commands (m_procs m) @ e \<and>
     m_fs (snd (io_bind f g m)) = m_fs m \<and> m_db (snd (io_bind f g m)) = m_db m"
  proof (cases r)
    case (Inl e)
    with f c show ?thesis by (auto simp: io_bind_def intro: subseq_order.order_trans)
  next
    case (Inr x)
    from assms(2) [of x] obtain d where d: "subseq d ds" "commands (m_procs (snd (g x m1))) = commands (m_procs m1) @ d"
      "m_fs (snd (g x m1)) = m_fs m1" "m_db (snd (g x m1)) = m_db m1" unfolding asks_def by blast
    have "subseq (c @ d) (cs @ ds)" using c(1) d(1) by (rule list_emb_append_mono)
    with f Inr c d show ?thesis by (auto simp: io_bind_def)
  qed
qed

lemma asks_mapM: "(\<And>x. asks [c x] (f x)) \<Longrightarrow> asks (List.map c xs) (io_mapM f xs)"
proof (induction xs)
  case (Cons x xs)
  have "asks ([c x] @ List.map c xs @ []) (io_mapM f (x # xs))"
    unfolding io_mapM.simps
    by (intro asks_bind Cons) (rule asks_same_host, rule obeys_return, rule same_host_order)
  then show ?case by simp
qed (simp add: asks_same_host obeys_return same_host_order)

lemma asks_catch:
  assumes "asks cs f" "\<And>e k. h e = Some k \<Longrightarrow> asks [] k"
  shows "asks cs (io_catch f h)"
  unfolding asks_def
proof
  fix m
  obtain r m1 where f: "f m = (r, m1)" by (metis surj_pair)
  with assms(1) obtain c where c: "subseq c cs" "commands (m_procs m1) = commands (m_procs m) @ c"
    "m_fs m1 = m_fs m" "m_db m1 = m_db m" unfolding asks_def by (metis snd_conv)
  have "commands (m_procs (snd (k m1))) = commands (m_procs m1) \<and> m_fs (snd (k m1)) = m_fs m1 \<and>
      m_db (snd (k m1)) = m_db m1" if "h e = Some k" for e k
    using assms(2) [OF that] unfolding asks_def by (metis append.right_neutral list_emb_Nil2)
  with f c show "\<exists>e. subseq e cs \<and> commands (m_procs (snd (io_catch f h m))) = commands (m_procs m) @ e \<and>
     m_fs (snd (io_catch f h m)) = m_fs m \<and> m_db (snd (io_catch f h m)) = m_db m"
    by (cases r) (auto simp: io_catch_def split: option.split)
qed

lemma asks_smart: "asks [health_command n] (read_smart app_storage n)"
  unfolding asks_def
proof
  fix m :: "'w machine"
  obtain r p where r: "smart_read run_tool n (m_procs m) = (r, p)" by (metis surj_pair)
  have "\<exists>ds. subseq ds [health_command n] \<and> commands p = commands (m_procs m) @ ds"
    using smart_read_machine(2) [OF r] by (metis append.right_neutral list_emb_Nil subseq_order.refl)
  with r show "\<exists>ds. subseq ds [health_command n] \<and>
      commands (m_procs (snd (read_smart app_storage n m))) = commands (m_procs m) @ ds \<and>
      m_fs (snd (read_smart app_storage n m)) = m_fs m \<and> m_db (snd (read_smart app_storage n m)) = m_db m"
    by (auto simp: app_storage_def on_procs_def on_part_def)
qed

section \<open>Errors of a run\<close>

definition python_only :: "('w, 'a) io \<Rightarrow> bool" where
  "python_only f \<longleftrightarrow> (\<forall>w e w'. f w = (Inl e, w') \<longrightarrow> \<not> is_lapcare_error e)"

lemma python_only_bind: "python_only f \<Longrightarrow> (\<And>x. python_only (g x)) \<Longrightarrow> python_only (io_bind f g)"
  by (auto simp: python_only_def io_bind_def split: prod.splits sum.splits)

lemma python_only_missing: "python_only (or_missing f)"
  by (auto simp: python_only_def or_missing_def io_catch_def io_bind_def split: prod.splits sum.splits if_splits)

lemma python_only_storage: "python_only (gather_storage st)"
  by (auto simp: python_only_def gather_storage_def io_catch_def split: prod.splits sum.splits option.splits exn.splits if_splits)

lemma python_only_return: "python_only (io_return x)"
  by (simp add: python_only_def)

lemma python_only_sources:
  "python_only (ask (\<lambda>p. or_missing (f p)) q)" "python_only (ask_storage st b)"
  by (simp_all add: ask_def ask_storage_def python_only_return python_only_missing python_only_storage split: option.split)

lemma run_python_only: "python_only (run bw st fw th du b)"
  unfolding run_alt by (intro python_only_bind python_only_sources python_only_return)

section \<open>The drives a run asks\<close>

definition drives :: "fs \<Rightarrow> string list" where
  "drives f = (case fs_list f block_dir of None \<Rightarrow> []
     | Some names \<Rightarrow> List.map sd_name (List.map_filter (read_block_device f) (sort names)))"

lemma gather_storage_asks:
  "\<exists>cs. subseq cs (List.map health_command (drives (m_fs m))) \<and>
     commands (m_procs (snd (gather_storage app_storage m))) = commands (m_procs m) @ cs \<and>
     m_fs (snd (gather_storage app_storage m)) = m_fs m \<and> m_db (snd (gather_storage app_storage m)) = m_db m"
proof -
  define h :: "exn \<Rightarrow> ('a machine, smart_report list option \<times> string) io option" where
    "h = (\<lambda>e. case e of PrivilegedActionDenied _ \<Rightarrow> Some (io_return (None, ''declined''))
            | ProviderUnavailable _ _ _ \<Rightarrow> Some (io_return (None, ''unavailable''))
            | _ \<Rightarrow> if is_lapcare_error e then Some (io_return (None, ''unavailable'')) else None)"
  have quiet: "asks [] k" if "h e = Some k" for e k
    using that by (auto simp: h_def intro!: asks_same_host obeys_return same_host_order split: exn.splits if_splits)
  have unit: "asks [] (io_return x :: ('a machine, 'b) io)" for x :: 'b
    by (intro asks_same_host obeys_return same_host_order)
  show ?thesis
  proof (cases "fs_list (m_fs m) block_dir")
    case None
    let ?f = "io_raise (ProviderUnavailable SOURCE_STORAGE UnsupportedHardware None) :: ('a machine, smart_report list option \<times> string) io"
    have "gather_storage app_storage m = io_catch ?f h m"
      using None by (simp add: gather_storage_def h_def app_storage_def on_fs_def on_part_def block_devices_def
          io_catch_def io_bind_def)
    moreover have "asks [] (io_catch ?f h)"
      by (rule asks_catch [OF _ quiet]) (auto simp: asks_def)
    ultimately show ?thesis unfolding asks_def using None by (simp add: drives_def)
  next
    case (Some names)
    let ?ds = "List.map_filter (read_block_device (m_fs m)) (sort names)"
    let ?f = "io_bind (io_mapM (\<lambda>d. read_smart app_storage (sd_name d)) ?ds)
        (\<lambda>reports. io_return (Some reports, ''not-requested'')) :: ('a machine, smart_report list option \<times> string) io"
    have "st_list_devices app_storage m = (Inr ?ds, m)"
      using Some by (simp add: app_storage_def on_fs_def on_part_def block_devices_def)
    then have "gather_storage app_storage m = io_catch ?f h m"
      by (simp add: gather_storage_def h_def io_catch_def io_bind_Inr)
    moreover have "asks (List.map (\<lambda>d. health_command (sd_name d)) ?ds @ []) ?f"
      by (intro asks_bind asks_mapM asks_smart unit)
    then have "asks (List.map health_command (drives (m_fs m))) (io_catch ?f h)"
      using Some by (intro asks_catch [OF _ quiet]) (simp_all add: drives_def comp_def)
    ultimately show ?thesis unfolding asks_def by metis
  qed
qed

lemma later_sources:
  "obeys same_host (io_bind (ask (\<lambda>p. or_missing (pending_upgrades p)) (Some (app_firmware client))) (\<lambda>pending.
     io_bind (ask (\<lambda>p. or_missing (list_temperatures p)) (Some app_thermal)) (\<lambda>temps.
     io_bind (ask (\<lambda>p. or_missing (list_usage p)) (Some (app_disk names statvfs))) (\<lambda>usages.
     io_return (assemble wears storage pending temps usages)))))"
  by (intro obeys_intros same_host_order) (auto intro: obeys_intros same_host_order same_host_sources)

lemma first_source: "obeys same_host (ask (\<lambda>p. or_missing (list_batteries p)) (Some app_battery_wear))"
  by (intro obeys_intros same_host_order) (auto intro: obeys_intros same_host_order same_host_sources)

section \<open>Properties\<close>

text \<open>C13: A diagnostics run of the wired application only looks: it leaves the file system and the history
  as they were, and the only commands it starts are helper calls for drives the kernel lists,
  at most one each and in order; and it fails only with an exception from outside the
  Lapcare hierarchy.\<close>

theorem diagnostics_run_effects:
  "case app_diagnostics client names statvfs m of (r, m') \<Rightarrow>
     m_fs m' = m_fs m \<and> m_db m' = m_db m \<and>
     (\<exists>cs. subseq cs (List.map health_command (drives (m_fs m))) \<and> commands (m_procs m') = commands (m_procs m) @ cs) \<and>
     (case r of Inl e \<Rightarrow> \<not> is_lapcare_error e | Inr report \<Rightarrow> True)"
proof -
  let ?first = "ask (\<lambda>p. or_missing (list_batteries p)) (Some app_battery_wear)"
  obtain r m' where run: "app_diagnostics client names statvfs m = (r, m')" by (metis surj_pair)
  obtain q m1 where first: "?first m = (q, m1)" by (metis surj_pair)
  have s1: "same_host m m1" using first_source first unfolding obeys_def by (metis snd_conv)
  obtain u m2 where storage: "gather_storage app_storage m1 = (u, m2)" by (metis surj_pair)
  obtain cs where cs: "subseq cs (List.map health_command (drives (m_fs m)))"
    "commands (m_procs m2) = commands (m_procs m) @ cs" "m_fs m2 = m_fs m" "m_db m2 = m_db m"
    using gather_storage_asks [of m1] s1 storage by (auto simp: same_host_def)
  have "m' = m1 \<or> same_host m2 m'"
  proof (cases q)
    case (Inl e)
    with run first show ?thesis by (simp add: app_diagnostics_def timed_run_def run_alt io_bind_Inl)
  next
    case (Inr wears)
    show ?thesis
    proof (cases u)
      case (Inl e)
      with Inr run first storage show ?thesis
        by (simp add: app_diagnostics_def timed_run_def run_alt io_bind_Inl io_bind_Inr ask_storage_def same_host_def)
    next
      case (Inr st)
      with \<open>q = Inr wears\<close> run first storage show ?thesis
        using later_sources [of client names statvfs wears st]
        by (simp add: app_diagnostics_def timed_run_def run_alt io_bind_Inr ask_storage_def obeys_def) (metis snd_conv)
    qed
  qed
  moreover have "case r of Inl e \<Rightarrow> \<not> is_lapcare_error e | Inr report \<Rightarrow> True"
  proof (cases r)
    case (Inl e)
    have "python_only (app_diagnostics client names statvfs)"
      unfolding app_diagnostics_def timed_run_def by (rule run_python_only)
    then have "\<not> is_lapcare_error e" using run Inl unfolding python_only_def by metis
    then show ?thesis by (simp add: Inl)
  qed simp
  ultimately show ?thesis
    using run cs s1 by (auto simp: same_host_def intro: exI [of _ "[]"])
qed

section \<open>A declined prompt\<close>

text \<open>An operation that neither looks at the processes nor starts one.\<close>

definition ignores_procs :: "('w machine, 'a) io \<Rightarrow> bool" where
  "ignores_procs f \<longleftrightarrow> (\<forall>m p. f (m\<lparr>m_procs := p\<rparr>) = (fst (f m), (snd (f m))\<lparr>m_procs := p\<rparr>))"

lemma ignores_return: "ignores_procs (io_return x)"
  by (simp add: ignores_procs_def)

lemma ignores_bind:
  assumes "ignores_procs f" "\<And>x. ignores_procs (g x)"
  shows "ignores_procs (io_bind f g)"
  unfolding ignores_procs_def
proof (intro allI)
  fix m p
  obtain r m1 where f: "f m = (r, m1)" by (metis surj_pair)
  then have f': "f (m\<lparr>m_procs := p\<rparr>) = (r, m1\<lparr>m_procs := p\<rparr>)" using assms(1) by (simp add: ignores_procs_def)
  show "io_bind f g (m\<lparr>m_procs := p\<rparr>) = (fst (io_bind f g m), (snd (io_bind f g m))\<lparr>m_procs := p\<rparr>)"
    using f f' assms(2) by (cases r) (simp_all add: io_bind_Inl io_bind_Inr ignores_procs_def)
qed

lemma ignores_catch:
  assumes "ignores_procs f" "\<And>e k. h e = Some k \<Longrightarrow> ignores_procs k"
  shows "ignores_procs (io_catch f h)"
  unfolding ignores_procs_def
proof (intro allI)
  fix m p
  obtain r m1 where f: "f m = (r, m1)" by (metis surj_pair)
  then have f': "f (m\<lparr>m_procs := p\<rparr>) = (r, m1\<lparr>m_procs := p\<rparr>)" using assms(1) by (simp add: ignores_procs_def)
  show "io_catch f h (m\<lparr>m_procs := p\<rparr>) = (fst (io_catch f h m), (snd (io_catch f h m))\<lparr>m_procs := p\<rparr>)"
    using f f' assms(2) by (cases r) (auto simp: io_catch_def ignores_procs_def split: option.split)
qed

lemma ignores_missing: "ignores_procs f \<Longrightarrow> ignores_procs (or_missing f)"
  unfolding or_missing_def by (intro ignores_catch ignores_bind ignores_return) (auto intro: ignores_return split: if_splits)

lemma ignores_mapM: "(\<And>x. ignores_procs (f x)) \<Longrightarrow> ignores_procs (io_mapM f xs)"
  by (induction xs) (auto intro!: ignores_bind ignores_return)

lemma ignores_ask: "(\<And>q. p = Some q \<Longrightarrow> ignores_procs (f q)) \<Longrightarrow> ignores_procs (ask f p)"
  by (auto simp: ask_def intro: ignores_return split: option.split)

lemma ignores_parts: "ignores_procs (on_fs f)" "ignores_procs (on_fwupd g)"
  by (simp_all add: ignores_procs_def on_fs_def on_fwupd_def on_part_def split: prod.split)

lemma ignores_sources:
  "ignores_procs (ask (\<lambda>p. or_missing (list_batteries p)) (Some app_battery_wear))"
  "ignores_procs (last_sources (Some (app_firmware client)) (Some app_thermal) (Some (app_disk names statvfs)))"
  unfolding last_sources_def app_battery_wear_def app_firmware_def app_thermal_def app_disk_def pending_upgrades_def
  by (auto intro!: ignores_bind ignores_ask ignores_missing ignores_mapM ignores_return ignores_parts)

lemma smart_read_answered:
  assumes "same_machine w u" "fst (smart_read run_tool n w) = Inr r"
  shows "\<exists>v. smart_read run_tool n u = (Inr r, v) \<and> same_machine w v \<and> commands v = commands u @ [health_command n]"
proof -
  obtain q v where q: "smart_read run_tool n u = (q, v)" by (metis surj_pair)
  then have r: "q = Inr r" using smart_read_same [OF assms(1), of n] assms(2) by simp
  have "commands v = commands u @ [health_command n]"
    using q r by (auto simp: smart_read_def run_tool_def Let_def health_command_def
        split: prod.splits sum.splits option.splits proc_outcome.splits if_splits)
  with q r smart_read_machine(1) [OF q] assms(1) same_machine_trans show ?thesis by blast
qed

lemma smart_read_refused:
  assumes "access_x w ''/usr/bin/pkexec''" "outcome_of w ''/usr/bin/pkexec'' (health_command n) = Exited rc out err"
    and "rc = 126 \<or> rc = 127" "same_machine w u"
  shows "\<exists>v. smart_read run_tool n u = (Inl (PrivilegedActionDenied ACTION_SMART_REPORT), v) \<and>
    commands v = commands u @ [health_command n]"
  using assms
  by (auto simp: smart_read_def run_tool_def ALLOWED_TOOLS_def same_machine_def health_command_def Let_def
      translate_failure_def PKEXEC_DISMISSED_def PKEXEC_NOT_AUTHORIZED_def)

lemma reads_until_refused:
  assumes "\<forall>n\<in>set (List.map sd_name pre). \<exists>r. fst (smart_read run_tool n w) = Inr r"
    and "access_x w ''/usr/bin/pkexec''" "outcome_of w ''/usr/bin/pkexec'' (health_command (sd_name d)) = Exited rc out err"
    and "rc = 126 \<or> rc = 127" "same_machine w (m_procs m)"
  shows "\<exists>p. io_mapM (\<lambda>d. read_smart app_storage (sd_name d)) (pre @ d # post) m =
      (Inl (PrivilegedActionDenied ACTION_SMART_REPORT), m\<lparr>m_procs := p\<rparr>) \<and>
    commands p = commands (m_procs m) @ List.map health_command (List.map sd_name (pre @ [d]))"
  using assms(1,5)
proof (induction pre arbitrary: m)
  case Nil
  obtain v where "smart_read run_tool (sd_name d) (m_procs m) = (Inl (PrivilegedActionDenied ACTION_SMART_REPORT), v)"
    "commands v = commands (m_procs m) @ [health_command (sd_name d)]"
    using smart_read_refused [OF assms(2-4) Nil.prems(2)] by blast
  then show ?case by (auto simp: io_bind_def app_storage_def on_procs_def on_part_def)
next
  case (Cons x pre)
  then obtain r where "fst (smart_read run_tool (sd_name x) w) = Inr r" by auto
  then obtain v where v: "smart_read run_tool (sd_name x) (m_procs m) = (Inr r, v)" "same_machine w v"
    "commands v = commands (m_procs m) @ [health_command (sd_name x)]"
    using smart_read_answered [OF Cons.prems(2)] by blast
  let ?m = "m\<lparr>m_procs := v\<rparr>"
  from Cons.IH [of ?m] Cons.prems(1) v(2) obtain p where
    p: "io_mapM (\<lambda>d. read_smart app_storage (sd_name d)) (pre @ d # post) ?m =
      (Inl (PrivilegedActionDenied ACTION_SMART_REPORT), ?m\<lparr>m_procs := p\<rparr>)"
    "commands p = commands v @ List.map health_command (List.map sd_name (pre @ [d]))" by auto
  have "read_smart app_storage (sd_name x) m = (Inr r, ?m)"
    using v(1) by (simp add: app_storage_def on_procs_def on_part_def)
  with p v(3) show ?case by (intro exI [of _ p]) (simp add: io_bind_Inr io_bind_Inl)
qed

text \<open>The one way the battery source of a run fails for good: a directory that is there cannot be listed.\<close>

definition supplies_unlistable :: "fs \<Rightarrow> bool" where
  "supplies_unlistable f \<longleftrightarrow> fs_is_dir f ps_dir \<and> fs_list f ps_dir = None"

lemma batteries_known:
  "\<not> supplies_unlistable (m_fs m) \<Longrightarrow>
   ask (\<lambda>p. or_missing (list_batteries p)) (Some app_battery_wear) m = (Inr (outcome (list_batteries app_battery_wear) m), m)"
  by (auto simp: supplies_unlistable_def ask_def or_missing_def io_catch_def io_bind_def outcome_def app_battery_wear_def
      on_fs_def on_part_def sysfs_batteries_def io_reads_def split: option.split)

lemma batteries_unknown:
  "supplies_unlistable (m_fs m) \<Longrightarrow>
   \<exists>e. ask (\<lambda>p. or_missing (list_batteries p)) (Some app_battery_wear) m = (Inl e, m)"
  by (auto simp: supplies_unlistable_def ask_def or_missing_def io_catch_def io_bind_def app_battery_wear_def
      on_fs_def on_part_def sysfs_batteries_def io_reads_def)

lemma gather_refused:
  assumes "drives (m_fs m) = pre @ d # post"
    and "\<forall>n\<in>set pre. \<exists>r. fst (smart_read run_tool n (m_procs m)) = Inr r"
    and "access_x (m_procs m) ''/usr/bin/pkexec''"
    and "outcome_of (m_procs m) ''/usr/bin/pkexec'' (health_command d) = Exited rc out err" "rc = 126 \<or> rc = 127"
  shows "\<exists>p. gather_storage app_storage m = (Inr (None, ''declined''), m\<lparr>m_procs := p\<rparr>) \<and>
    commands p = commands (m_procs m) @ List.map health_command (pre @ [d])"
proof -
  obtain names where names: "fs_list (m_fs m) block_dir = Some names"
    using assms(1) by (cases "fs_list (m_fs m) block_dir") (simp_all add: drives_def)
  let ?ds = "List.map_filter (read_block_device (m_fs m)) (sort names)"
  have list: "st_list_devices app_storage m = (Inr ?ds, m)"
    using names by (simp add: app_storage_def on_fs_def on_part_def block_devices_def)
  have "List.map sd_name ?ds = pre @ d # post" using assms(1) names by (simp add: drives_def)
  then obtain pre' dd post' where ds: "?ds = pre' @ dd # post'" "List.map sd_name pre' = pre" "sd_name dd = d"
    by (auto simp: map_eq_append_conv map_eq_Cons_conv)
  have "same_machine (m_procs m) (m_procs m)" by (simp add: same_machine_def)
  with reads_until_refused [of pre' "m_procs m" dd rc out err m post'] assms(2-5) ds
  obtain p where "io_mapM (\<lambda>d. read_smart app_storage (sd_name d)) ?ds m =
      (Inl (PrivilegedActionDenied ACTION_SMART_REPORT), m\<lparr>m_procs := p\<rparr>)"
    "commands p = commands (m_procs m) @ List.map health_command (pre @ [d])"
    by auto
  with gather_storage_denied [OF list] show ?thesis by blast
qed

text \<open>C7: Reading SMART data is opt-in, and a declined prompt costs only that check. Without the opt-in the
  wired application runs as if it had no storage source and starts no command. With it, when
  pkexec answers for some drives and then ends with 126 or 127 for one, the helper has been asked
  for the drives up to that one, each once, and is asked no more (and for none if the run ended
  before, at a power-supply directory that cannot be listed); the rest of the run, down
  to an exception that ends it, and of the machine is as without storage; and the report
  differs in the storage check alone, which is skipped as declined: the score and both counts
  are the same.\<close>

theorem run_declined:
  assumes "drives (m_fs m) = pre @ d # post"
    and "\<forall>n\<in>set pre. \<exists>r. fst (smart_read run_tool n (m_procs m)) = Inr r"
    and "access_x (m_procs m) ''/usr/bin/pkexec''"
    and "outcome_of (m_procs m) ''/usr/bin/pkexec'' (health_command d) = Exited rc out err" "rc = 126 \<or> rc = 127"
  shows "run (Some app_battery_wear) (Some app_storage) (Some (app_firmware client)) (Some app_thermal)
      (Some (app_disk names statvfs)) False m = app_dashboard_score client names statvfs m \<and>
    (case app_dashboard_score client names statvfs m of (without, quiet) \<Rightarrow>
     case app_diagnostics client names statvfs m of (r, m') \<Rightarrow>
       m_procs quiet = m_procs m \<and> m' = quiet\<lparr>m_procs := m_procs m'\<rparr> \<and>
       commands (m_procs m') = commands (m_procs m) @
         (if supplies_unlistable (m_fs m) then [] else List.map health_command (pre @ [d])) \<and>
       (case without of
          Inl e \<Rightarrow> r = Inl e
        | Inr rep \<Rightarrow> \<exists>rep'. r = Inr rep' \<and>
            rep_results rep' = (rep_results rep)[1 := skipped ''storage-health'' ''declined''] \<and>
            rep_score rep' = rep_score rep \<and> rep_measured rep' = rep_measured rep \<and> rep_total rep' = rep_total rep))"
proof -
  have "run (Some app_battery_wear) (Some app_storage) (Some (app_firmware client)) (Some app_thermal)
      (Some (app_disk names statvfs)) False m = app_dashboard_score client names statvfs m"
    by (simp add: app_dashboard_score_def dashboard_run_def run_parts ask_storage_def)
  moreover have "(case app_dashboard_score client names statvfs m of (without, quiet) \<Rightarrow>
     case app_diagnostics client names statvfs m of (r, m') \<Rightarrow>
       m_procs quiet = m_procs m \<and> m' = quiet\<lparr>m_procs := m_procs m'\<rparr> \<and>
       commands (m_procs m') = commands (m_procs m) @
         (if supplies_unlistable (m_fs m) then [] else List.map health_command (pre @ [d])) \<and>
       (case without of
          Inl e \<Rightarrow> r = Inl e
        | Inr rep \<Rightarrow> \<exists>rep'. r = Inr rep' \<and>
            rep_results rep' = (rep_results rep)[1 := skipped ''storage-health'' ''declined''] \<and>
            rep_score rep' = rep_score rep \<and> rep_measured rep' = rep_measured rep \<and> rep_total rep' = rep_total rep))"
  proof (cases "supplies_unlistable (m_fs m)")
    case True
    then obtain e where "ask (\<lambda>p. or_missing (list_batteries p)) (Some app_battery_wear) m = (Inl e, m)"
      using batteries_unknown by blast
    with True show ?thesis
      by (simp add: app_dashboard_score_def dashboard_run_def app_diagnostics_def timed_run_def run_parts io_bind_Inl)
  next
    case listable: False
    note known = batteries_known [OF listable]
    let ?last = "last_sources (Some (app_firmware client)) (Some app_thermal) (Some (app_disk names statvfs))"
    let ?wears = "outcome (list_batteries app_battery_wear) m"
    obtain p where g: "gather_storage app_storage m = (Inr (None, ''declined''), m\<lparr>m_procs := p\<rparr>)"
      and p: "commands p = commands (m_procs m) @ List.map health_command (pre @ [d])"
      using gather_refused [OF assms] by blast
    obtain q m1 where last: "?last m = (q, m1)" by (metis surj_pair)
    then have last': "?last (m\<lparr>m_procs := p\<rparr>) = (q, m1\<lparr>m_procs := p\<rparr>)"
      using ignores_sources(2) [of client names statvfs] by (simp add: ignores_procs_def)
    have procs: "m_procs m1 = m_procs m"
      using ignores_sources(2) [of client names statvfs] last unfolding ignores_procs_def
      by (metis (no_types, lifting) fst_conv snd_conv machine.surjective machine.update_convs(2) machine.select_convs(2))
    have without: "app_dashboard_score client names statvfs m =
        io_bind ?last (\<lambda>(pending, temps, usages). io_return (assemble ?wears (None, ''not-requested'') pending temps usages)) m"
      by (simp add: app_dashboard_score_def dashboard_run_def run_parts ask_storage_def known io_bind_Inr io_bind_return)
    have asked: "app_diagnostics client names statvfs m =
        io_bind ?last (\<lambda>(pending, temps, usages). io_return (assemble ?wears (None, ''declined'') pending temps usages))
          (m\<lparr>m_procs := p\<rparr>)"
      by (simp add: app_diagnostics_def timed_run_def run_parts ask_storage_def known io_bind_Inr g io_bind_Inr)
    show ?thesis
    proof (cases q)
      case (Inl e)
      with last last' without asked procs p listable show ?thesis by (simp add: io_bind_Inl)
    next
      case (Inr x)
      obtain pending temps usages where x: "x = (pending, temps, usages)" by (cases x)
      let ?rep = "\<lambda>k. assemble ?wears (None, k) pending temps usages"
      have "app_dashboard_score client names statvfs m = (Inr (?rep ''not-requested''), m1)"
        "app_diagnostics client names statvfs m = (Inr (?rep ''declined''), m1\<lparr>m_procs := p\<rparr>)"
        using last last' without asked by (simp_all add: io_bind_Inr Inr x)
      then show ?thesis
        using procs p listable assemble_declined [of ?wears "''declined''" pending temps usages "''not-requested''"] by simp
    qed
  qed
  ultimately show ?thesis by blast
qed

text \<open>A machine with three drives: the first answers, the prompt for the second is dismissed.\<close>

definition prompting_machine :: "unit machine" where
  "prompting_machine =
     \<lparr>m_fs = \<lparr>fs_is_dir = (\<lambda>p. True), fs_exists = (\<lambda>p. True),
        fs_list = (\<lambda>p. Some [''sdb'', ''sda'', ''sdc'']), fs_read = (\<lambda>p. None)\<rparr>,
      m_procs = \<lparr>access_x = (\<lambda>p. True),
        outcome_of = (\<lambda>p a. if a = health_command ''sda'' then Exited 0 ''{}'' [] else Exited 126 [] []), proc_trace = []\<rparr>,
      m_db = \<lparr>db_rows = [], db_fault = None\<rparr>,
      m_fwupd = \<lparr>has_bus = True, outside = (), on_progress = None\<rparr>,
      m_upower = \<lparr>has_bus = True, outside = ()\<rparr>\<rparr>"

theorem run_declined_witness:
  "commands (m_procs (snd (app_diagnostics (offline_client []) (\<lambda>n. None) (\<lambda>p. Inl (PyException ''OSError'' [])) prompting_machine))) =
     [health_command ''sda'', health_command ''sdb'']"
proof -
  let ?m = prompting_machine
  have drives: "drives (m_fs ?m) = [''sda''] @ ''sdb'' # [''sdc'']"
    by (simp add: drives_def prompting_machine_def read_block_device_def Let_def List.map_filter_simps)
  have "fst (smart_read run_tool ''sda'' (m_procs ?m)) = Inr (parse_report ''sda'' [])"
  proof -
    have "decode_replace ''{}'' = ''{}''" by code_simp
    then have "fst (run_tool ''pkexec'' (health_command ''sda'') PKEXEC_TIMEOUT_S (m_procs ?m)) = Inr ''{}''"
      by (simp add: run_tool_def ALLOWED_TOOLS_def prompting_machine_def Let_def MAX_OUTPUT_BYTES_def)
    moreover have "loads ''{}'' = Some (JObj [])" by code_simp
    ultimately show ?thesis by (auto simp: smart_read_def health_command_def parse_output_def split: prod.split)
  qed
  then have answered: "\<forall>n\<in>set [''sda'']. \<exists>r. fst (smart_read run_tool n (m_procs ?m)) = Inr r" by simp
  have "access_x (m_procs ?m) ''/usr/bin/pkexec''"
    "outcome_of (m_procs ?m) ''/usr/bin/pkexec'' (health_command ''sdb'') = Exited 126 [] []"
    "\<not> supplies_unlistable (m_fs ?m)" "commands (m_procs ?m) = []"
    by (simp_all add: prompting_machine_def health_command_def supplies_unlistable_def commands_def List.map_filter_simps)
  with run_declined [OF drives answered, of 126 "[]" "[]" "offline_client []" "\<lambda>n. None" "\<lambda>p. Inl (PyException ''OSError'' [])"] show ?thesis
    by (auto split: prod.splits)
qed

text \<open>Only programs that need no privilege: the two inventory tools, by their fixed paths.\<close>

definition unprivileged :: "proc_event \<Rightarrow> bool" where
  "unprivileged ev = (case ev of
     Spawned path args env \<Rightarrow> path \<in> {''/usr/bin/lspci'', ''/usr/bin/lsusb''} \<and> env = SCRUBBED_ENV
   | Killed path \<Rightarrow> path \<in> {''/usr/bin/lspci'', ''/usr/bin/lsusb''})"

definition no_prompt :: "'w machine \<Rightarrow> 'w machine \<Rightarrow> bool" where
  "no_prompt m m' \<longleftrightarrow> m_fs m' = m_fs m \<and>
     (\<exists>evs. proc_trace (m_procs m') = proc_trace (m_procs m) @ evs \<and> list_all unprivileged evs)"

lemma no_prompt_order: "reflp no_prompt" "transp no_prompt"
  by (auto simp: no_prompt_def intro!: reflpI transpI)

lemma no_prompt_host: "obeys same_host f \<Longrightarrow> obeys no_prompt f"
  by (auto simp: obeys_def same_host_def no_prompt_def)

lemma no_prompt_parts:
  "obeys no_prompt (on_upower f)" "obeys no_prompt (on_db g)"
  by (simp_all add: obeys_def on_upower_def on_db_def on_part_def no_prompt_def split: prod.split)

lemma run_tool_unprivileged:
  assumes "tool \<in> {''lspci'', ''lsusb''}"
  shows "\<exists>evs. proc_trace (snd (run_tool tool args t w)) = proc_trace w @ evs \<and> list_all unprivileged evs"
proof (cases "dict_get tool ALLOWED_TOOLS")
  case (Some cs)
  have path: "p \<in> {''/usr/bin/lspci'', ''/usr/bin/lsusb''}" if "find (access_x w) cs = Some p" for p
    using allowed_path [OF Some that] assms by auto
  show ?thesis
  proof (cases "find (access_x w) cs")
    case None
    with Some show ?thesis by (simp add: run_tool_def)
  next
    case found: (Some p)
    have "unprivileged (Spawned p args SCRUBBED_ENV)" "unprivileged (Killed p)"
      using path [OF found] by (simp_all add: unprivileged_def)
    with Some found show ?thesis
      by (cases "outcome_of w p args") (auto simp: run_tool_def trace_event_def Let_def)
  qed
qed (simp add: run_tool_def)

lemma inventory_runs:
  "snd (list_pci run_tool w) = snd (run_tool ''lspci'' [''-mm''] DEFAULT_TIMEOUT w)"
  "snd (list_usb run_tool w) = snd (run_tool ''lsusb'' [] DEFAULT_TIMEOUT w)"
  by (simp_all add: list_pci_def list_usb_def run_translated_def io_bind_def split: prod.split sum.split)

lemma no_prompt_procs:
  fixes f :: "(procs, 'a) io"
  assumes "\<And>w. \<exists>evs. proc_trace (snd (f w)) = proc_trace w @ evs \<and> list_all unprivileged evs"
  shows "obeys no_prompt (on_procs f :: ('w machine, 'a) io)"
  unfolding obeys_def
proof
  fix m :: "'w machine"
  show "no_prompt m (snd (on_procs f m))"
    using assms [of "m_procs m"] by (auto simp: no_prompt_def on_procs_def on_part_def split: prod.split)
qed

lemma no_prompt_inventory:
  "obeys no_prompt (on_procs (list_pci run_tool))" "obeys no_prompt (on_procs (list_usb run_tool))"
  by (rule no_prompt_procs, simp only: inventory_runs, rule run_tool_unprivileged, simp)+

lemma no_prompt_reads: "obeys no_prompt (on_fs (io_reads f))"
  by (rule no_prompt_host) (rule same_host_reads)

lemmas no_prompt_intros = obeys_intros no_prompt_order no_prompt_parts no_prompt_inventory no_prompt_reads

section \<open>Page loads\<close>

lemma dashboard_score_quiet: "obeys same_host (app_dashboard_score client names statvfs)"
  unfolding app_dashboard_score_def dashboard_run_def run_alt
  by (intro obeys_bind same_host_order first_source later_sources) (simp add: ask_storage_def obeys_return same_host_order)

lemma dashboard_rows_quiet: "obeys same_host (app_dashboard_gather :: ('w machine, _) io)"
  unfolding app_dashboard_gather_def gather_dashboard_def app_port_defs system_identity_provider.simps
    os_info_provider.simps thinkpad_provider.simps
  by (intro obeys_bind same_host_order obeys_return same_host_fs)
     (auto simp: reads_only_def dmi.unchanged os.unchanged thinkpad.unchanged)

lemma hardware_quiet: "obeys no_prompt (app_hardware_gather :: ('w machine, _) io)"
  unfolding app_hardware_gather_def gather_hardware_def app_port_defs system_identity_provider.simps os_info_provider.simps
    device_inventory_provider.simps noted_def read_identity_def read_cpu_mem_def
  by (intro no_prompt_intros) (auto intro: no_prompt_intros split: if_splits)

lemma battery_quiet: "obeys no_prompt (app_battery_gather bus today)"
  unfolding app_battery_gather_def gather_battery_def app_battery_wear_def app_port_defs battery_wear_provider.simps
    battery_status_provider.simps wear_history_store.simps record_and_read_def sysfs_batteries_def
  by (intro no_prompt_intros)

lemma firmware_host: "obeys same_host (app_firmware_gather client)"
  unfolding app_firmware_gather_def gather_firmware_def gather_device_def
  by (intro obeys_intros same_host_order)
     (auto simp: app_firmware_def intro!: obeys_intros same_host_order same_host_fwupd split: if_splits)

text \<open>The history: all loads but that of the battery page leave it alone, and that one writes rows of today only.\<close>

definition keeps_history :: "'w machine \<Rightarrow> 'w machine \<Rightarrow> bool" where
  "keeps_history m m' \<longleftrightarrow> m_db m' = m_db m"

definition keeps_other_days :: "string \<Rightarrow> 'w machine \<Rightarrow> 'w machine \<Rightarrow> bool" where
  "keeps_other_days today m m' \<longleftrightarrow> db_fault (m_db m') = db_fault (m_db m) \<and>
     filter (\<lambda>row. fst (fst row) \<noteq> today) (db_rows (m_db m')) = filter (\<lambda>row. fst (fst row) \<noteq> today) (db_rows (m_db m))"

lemma history_orders:
  "reflp keeps_history" "transp keeps_history" "reflp (keeps_other_days today)" "transp (keeps_other_days today)"
  by (auto simp: keeps_history_def keeps_other_days_def intro!: reflpI transpI)

lemma history_parts:
  "obeys keeps_history (on_fs f)" "obeys keeps_history (on_procs g)"
  "obeys (keeps_other_days today) (on_fs f)" "obeys (keeps_other_days today) (on_upower h)"
  by (simp_all add: obeys_def keeps_history_def keeps_other_days_def on_fs_def on_procs_def on_upower_def on_part_def
      split: prod.split)

lemma dict_set_others: "\<not> P k \<Longrightarrow> filter (\<lambda>row. P (fst row)) (dict_set k v rows) = filter (\<lambda>row. P (fst row)) rows"
  by (induction k v rows rule: dict_set.induct) auto

lemma history_rows:
  "obeys (keeps_other_days today) (on_db (record_wear (snapshot_from_wear b today)))"
  "obeys (keeps_other_days today) (on_db (wear_history n limit))"
  by (auto simp: obeys_def keeps_other_days_def on_db_def on_part_def record_wear_def wear_history_def snapshot_from_wear_def
      row_key_def dict_set_others [where P = "\<lambda>k. fst k \<noteq> today"] split: prod.split option.split)

lemma hardware_history: "obeys keeps_history (app_hardware_gather :: ('w machine, _) io)"
  unfolding app_hardware_gather_def gather_hardware_def app_port_defs system_identity_provider.simps os_info_provider.simps
    device_inventory_provider.simps noted_def
  by (intro obeys_intros history_orders history_parts)
     (auto intro!: obeys_intros history_orders history_parts split: if_splits)

lemma battery_history: "obeys (keeps_other_days today) (app_battery_gather bus today)"
  unfolding app_battery_gather_def gather_battery_def app_battery_wear_def app_port_defs battery_wear_provider.simps
    battery_status_provider.simps wear_history_store.simps record_and_read_def
  by (intro obeys_intros history_orders history_parts history_rows)

lemma firmware_quiet: "obeys no_prompt (app_firmware_gather client)"
  by (rule no_prompt_host) (rule firmware_host)

lemma storage_quiet: "obeys no_prompt app_storage_gather"
  unfolding app_storage_gather_def by (intro no_prompt_host same_host_sources)

text \<open>C14: Opening a page never asks for a password: computing the health score and the loads of the
  dashboard, hardware, battery, firmware and storage pages start no program but the two inventory
  tools, by their fixed paths and with the scrubbed environment, and leave the file system
  alone. The one thing any of them writes is the wear history, and of that the battery page
  alone, for which every row of another day than today stays as it was.\<close>

theorem page_loads_never_prompt:
  "list_all (\<lambda>m'. m_fs m' = m_fs m \<and>
       (\<exists>evs. proc_trace (m_procs m') = proc_trace (m_procs m) @ evs \<and> list_all unprivileged evs))
     [snd (app_dashboard_score client names statvfs m), snd (app_dashboard_gather m), snd (app_hardware_gather m),
      snd (app_battery_gather bus today m), snd (app_firmware_gather client m), snd (app_storage_gather m)] \<and>
   list_all (\<lambda>m'. m_db m' = m_db m)
     [snd (app_dashboard_score client names statvfs m), snd (app_dashboard_gather m), snd (app_hardware_gather m),
      snd (app_firmware_gather client m), snd (app_storage_gather m)] \<and>
   (let db = m_db (snd (app_battery_gather bus today m)) in db_fault db = db_fault (m_db m) \<and>
     filter (\<lambda>row. fst (fst row) \<noteq> today) (db_rows db) = filter (\<lambda>row. fst (fst row) \<noteq> today) (db_rows (m_db m)))"
proof (intro conjI)
  have "no_prompt m (snd (f m))" if "obeys no_prompt f" for f :: "('a machine, 'b) io"
    using that by (simp add: obeys_def)
  note runs = this no_prompt_host [OF dashboard_score_quiet] no_prompt_host [OF dashboard_rows_quiet]
  have "no_prompt m (snd (app_dashboard_score client names statvfs m))" "no_prompt m (snd (app_dashboard_gather m))"
    "no_prompt m (snd (app_hardware_gather m))" "no_prompt m (snd (app_battery_gather bus today m))"
    "no_prompt m (snd (app_firmware_gather client m))" "no_prompt m (snd (app_storage_gather m))"
    using runs(2,3) hardware_quiet battery_quiet firmware_quiet storage_quiet unfolding obeys_def by blast+
  then show "list_all (\<lambda>m'. m_fs m' = m_fs m \<and>
       (\<exists>evs. proc_trace (m_procs m') = proc_trace (m_procs m) @ evs \<and> list_all unprivileged evs))
     [snd (app_dashboard_score client names statvfs m), snd (app_dashboard_gather m), snd (app_hardware_gather m),
      snd (app_battery_gather bus today m), snd (app_firmware_gather client m), snd (app_storage_gather m)]"
    by (simp add: no_prompt_def)
  show "list_all (\<lambda>m'. m_db m' = m_db m)
     [snd (app_dashboard_score client names statvfs m), snd (app_dashboard_gather m), snd (app_hardware_gather m),
      snd (app_firmware_gather client m), snd (app_storage_gather m)]"
  proof -
    have "same_host m (snd (app_dashboard_score client names statvfs m))" "same_host m (snd (app_dashboard_gather m))"
      "keeps_history m (snd (app_hardware_gather m))" "same_host m (snd (app_firmware_gather client m))"
      "same_host m (snd (app_storage_gather m))"
      using dashboard_score_quiet dashboard_rows_quiet hardware_history firmware_host same_host_sources(5)
      unfolding obeys_def app_storage_gather_def by blast+
    then show ?thesis by (simp add: same_host_def keeps_history_def)
  qed
  show "let db = m_db (snd (app_battery_gather bus today m)) in db_fault db = db_fault (m_db m) \<and>
     filter (\<lambda>row. fst (fst row) \<noteq> today) (db_rows db) = filter (\<lambda>row. fst (fst row) \<noteq> today) (db_rows (m_db m))"
    using battery_history [of today bus] by (simp add: obeys_def keeps_other_days_def Let_def)
qed

end
