(* ===== verification/Shell.thy ===== *)
theory Shell
  imports Capture Scheduler PageVM
begin

text \<open>
  The application around its pages: start-up and shut-down (\<open>app.main\<close>, \<open>platform/log.py\<close>,
  \<open>lapcare/__init__.py\<close>) and the main window's navigation (\<open>ui/window.py\<close>). The command line is the
  namespace argparse returns. The GTK side of \<open>_build_application\<close> is two parameters, the toolkit
  imports before the resources are loaded and the construction of the application after it, and
  the application's own run a third: each may do anything to the world and may fail.
\<close>

section \<open>Launch time\<close>

type_synonym environ = "(string \<times> string) list"

definition T0_ENV :: string where "T0_ENV = ''LAPCARE_T0_MONOTONIC_NS''"

definition mark_launch :: "int \<Rightarrow> environ \<Rightarrow> environ" where
  "mark_launch now_ns env =
     (case dict_get T0_ENV env of Some t \<Rightarrow> env | None \<Rightarrow> dict_set T0_ENV (show_int now_ns) env)"

definition launch_elapsed_s :: "int \<Rightarrow> environ \<Rightarrow> exn + rat option" where
  "launch_elapsed_s now_ns env =
     (case dict_get T0_ENV env of
        None \<Rightarrow> Inr None
      | Some t \<Rightarrow>
          (case py_int t of
             None \<Rightarrow> Inl (PyException ''ValueError'' ''invalid literal for int()'')
           | Some t0 \<Rightarrow> Inr (Some (fl (fl (of_int (now_ns - t0)) / 1000000000)))))"

text \<open>The first mark wins, and its reading is the time since it.\<close>

lemma mark_launch_once: "mark_launch n (mark_launch m env) = mark_launch m env"
  by (simp add: mark_launch_def dict_get_set split: option.split)

lemma launch_elapsed_first:
  assumes "dict_get T0_ENV env = None" "int (length (show_dec \<bar>t0\<bar>)) \<le> int_max_str_digits" "\<bar>now - t0\<bar> \<le> 2 ^ 53"
  shows "launch_elapsed_s now (mark_launch t0 env) = Inr (Some (fl (of_int (now - t0) / 1000000000)))"
proof -
  have "fl (of_int now - of_int t0) = of_int now - of_int t0" using fl_int [OF assms(3)] by simp
  with assms(1) py_int_show_int [OF assms(2)] show ?thesis
    by (simp add: launch_elapsed_s_def mark_launch_def dict_get_set)
qed

section \<open>Start-up and shut-down\<close>

record app_args =
  aa_verbose :: bool
  aa_capture :: "string option"
  aa_include :: bool

record launch_env =
  le_debug :: "string option"
    \<comment> \<open>\<open>LAPCARE_DEBUG\<close>\<close>
  le_resource :: "string option"
    \<comment> \<open>\<open>LAPCARE_RESOURCE\<close>\<close>
  le_exists :: "string \<Rightarrow> bool"
  le_native :: bool
    \<comment> \<open>\<open>gi.events\<close> can be imported\<close>
  le_in_time :: bool
    \<comment> \<open>a loop thread starts within its five seconds\<close>
  le_joins :: bool
    \<comment> \<open>a loop thread told to stop ends within its five seconds\<close>

record 'v shell = capture_world +
  sh_handlers :: nat
  sh_debug :: bool
  sh_scheduler :: "'v native + 'v threaded"

definition log_configure :: "launch_env \<Rightarrow> bool \<Rightarrow> ('v, 'x) shell_scheme \<Rightarrow> ('v, 'x) shell_scheme" where
  "log_configure env verbose w =
     w\<lparr>sh_handlers := Suc (sh_handlers w), sh_debug := (verbose \<or> le_debug env = Some ''1'')\<rparr>"

definition load_resources :: "launch_env \<Rightarrow> exn + unit" where
  "load_resources env =
     (case le_resource env of
        Some p \<Rightarrow> if p \<noteq> [] \<and> le_exists env p then Inr ()
                   else Inl (PyException ''RuntimeError'' ''UI resources not found'')
      | None \<Rightarrow> Inl (PyException ''RuntimeError'' ''UI resources not found''))"

definition build_application ::
    "launch_env \<Rightarrow> ('w, unit) io \<Rightarrow> ('w, 'app) io \<Rightarrow> ('w, 'app) io" where
  "build_application env toolkit application =
     io_bind toolkit (\<lambda>_. io_bind (\<lambda>w. (load_resources env, w)) (\<lambda>_. application))"

definition start_scheduler :: "launch_env \<Rightarrow> (('v, 'x) shell_scheme, unit) io" where
  "start_scheduler env w =
     (case create_scheduler (le_native env) of
        Native \<Rightarrow> (Inr (), w\<lparr>sh_scheduler := Inl (native_start native_init)\<rparr>)
      | Threaded \<Rightarrow>
          (case thread_start (le_in_time env) thread_init of
             (r, t) \<Rightarrow> (r, w\<lparr>sh_scheduler := Inr t\<rparr>)))"

definition stop_scheduler :: "launch_env \<Rightarrow> (('v, 'x) shell_scheme, unit) io" where
  "stop_scheduler env w =
     (Inr (), w\<lparr>sh_scheduler := (case sh_scheduler w of Inl n \<Rightarrow> Inl (native_stop n) | Inr t \<Rightarrow> Inr (thread_stop (le_joins env) t))\<rparr>)"

text \<open>\<open>try: m finally: k\<close>\<close>

definition io_finally :: "('w, 'a) io \<Rightarrow> ('w, unit) io \<Rightarrow> ('w, 'a) io" where
  "io_finally m k = (\<lambda>w. case m w of (r, w1) \<Rightarrow> (case k w1 of (Inl e, w2) \<Rightarrow> (Inl e, w2) | (Inr _, w2) \<Rightarrow> (r, w2)))"

text \<open>The result is the exit status with what a capture printed.\<close>

definition app_main ::
  "launch_env \<Rightarrow> (('v, 'x) shell_scheme, unit) io \<Rightarrow> (('v, 'x) shell_scheme, 'app) io \<Rightarrow>
   ('app \<Rightarrow> (('v, 'x) shell_scheme, int) io) \<Rightarrow> fs \<Rightarrow> ('v, 'x) shell_scheme runner \<Rightarrow> string \<Rightarrow> app_args \<Rightarrow>
   (('v, 'x) shell_scheme, int \<times> string list) io" where
  "app_main env toolkit application app_run m runner stamp args = (\<lambda>w.
     let w1 = log_configure env (aa_verbose args) w in
     if or_str (aa_capture args) [] \<noteq> []
     then run_capture m runner (or_str (aa_capture args) []) (aa_include args) stamp w1
     else io_bind (start_scheduler env) (\<lambda>_.
            io_finally
              (io_bind (build_application env toolkit application) (\<lambda>app.
               io_bind (app_run app) (\<lambda>status. io_return (status, []))))
              (stop_scheduler env)) w1)"

text \<open>
  What \<open>start\<close> and \<open>stop\<close> leave behind, whichever the mechanism. A stopped native scheduler has
  dropped its loop and given the process back the policy it found; the tasks it created stay with the
  main context. A stopped thread has ended and dropped what was in flight, or lingers with it.
\<close>

definition scheduler_started :: "launch_env \<Rightarrow> 'v native + 'v threaded \<Rightarrow> bool" where
  "scheduler_started env s =
     (case s of
        Inl n \<Rightarrow> le_native env \<and> n_loop n \<and> process_policy n = GLibPolicy \<and> n_previous_policy n = Some DefaultPolicy
      | Inr t \<Rightarrow> \<not> le_native env \<and> t_thread t \<and> t_loop t)"

definition scheduler_stopped :: "launch_env \<Rightarrow> 'v native + 'v threaded \<Rightarrow> 'v native + 'v threaded \<Rightarrow> bool" where
  "scheduler_stopped env s s' =
     (case (s, s') of
        (Inl n, Inl n') \<Rightarrow> \<not> n_loop n' \<and> n_previous_policy n' = None \<and>
          process_policy n' = (case n_previous_policy n of None \<Rightarrow> process_policy n | Some p \<Rightarrow> p) \<and> n_tasks n' = n_tasks n
      | (Inr t, Inr t') \<Rightarrow> \<not> t_thread t' \<and> \<not> t_loop t' \<and>
          (if t_lingering t \<or> t_loop t \<and> \<not> le_joins env then t_lingering t' \<and> t_tasks t' = t_tasks t
           else \<not> t_lingering t' \<and> t_tasks t' = (t_tasks t)\<lparr>in_flight := []\<rparr>)
      | _ \<Rightarrow> False)"

lemma stop_stops:
  "\<exists>s'. stop_scheduler env w = (Inr (), w\<lparr>sh_scheduler := s'\<rparr>) \<and> scheduler_stopped env (sh_scheduler w) s'"
  by (cases "sh_scheduler w")
     (auto simp: stop_scheduler_def scheduler_stopped_def native_stop_def thread_stop_def drop_in_flight_def Let_def split: option.split)

lemma finally_stops:
  "f w = (r, w2) \<Longrightarrow> \<exists>s'. io_finally f (stop_scheduler env) w = (r, w2\<lparr>sh_scheduler := s'\<rparr>) \<and>
     scheduler_stopped env (sh_scheduler w2) s'"
  using stop_stops [of env w2] by (auto simp: io_finally_def)

lemma start_scheduler_ok:
  "le_native env \<or> le_in_time env \<Longrightarrow>
   \<exists>s. start_scheduler env w = (Inr (), w\<lparr>sh_scheduler := s\<rparr>) \<and> scheduler_started env s"
  by (auto simp: start_scheduler_def create_scheduler_def scheduler_started_def native_start_def native_init_def
      thread_start_def thread_init_def)

lemma start_scheduler_fails:
  "\<not> le_native env \<Longrightarrow> \<not> le_in_time env \<Longrightarrow>
   start_scheduler env w = (Inl (PyException ''RuntimeError'' ''async loop thread failed to start''),
     w\<lparr>sh_scheduler := Inr (thread_init\<lparr>t_thread := True, t_starting := 1\<rparr>)\<rparr>)"
  by (simp add: start_scheduler_def create_scheduler_def thread_start_def thread_init_def)

section \<open>The window\<close>

record 'wd window =
  wi_pages :: "(string \<times> string \<times> 'wd) list"
  wi_rows :: "string list"
  wi_current :: "string option"
  wi_title :: string
  wi_child :: "'wd option"
  wi_set :: "string list"
    \<comment> \<open>the pages whose widget was given to \<open>set_child\<close>, in order\<close>
  wi_show_content :: bool
  wi_smoke_index :: nat

definition register_page :: "string \<times> string \<times> 'wd \<Rightarrow> 'wd window \<Rightarrow> 'wd window" where
  "register_page page w = (case page of (page_id, title, widget) \<Rightarrow>
     w\<lparr>wi_rows := wi_rows w @ [page_id], wi_pages := dict_set page_id (title, widget) (wi_pages w)\<rparr>)"

text \<open>The handler of \<open>row-selected\<close>; a row is its page id.\<close>

definition on_row_selected :: "string option \<Rightarrow> 'wd window \<Rightarrow> 'wd window" where
  "on_row_selected row w =
     (case row of
        None \<Rightarrow> w
      | Some page_id \<Rightarrow>
          if wi_current w = Some page_id then w
          else (case dict_get page_id (wi_pages w) of
                  None \<Rightarrow> w
                | Some (title, widget) \<Rightarrow> w\<lparr>wi_current := Some page_id, wi_title := title,
                    wi_child := Some widget, wi_set := wi_set w @ [page_id], wi_show_content := True\<rparr>))"

definition row_at :: "nat \<Rightarrow> 'wd window \<Rightarrow> string option" where
  "row_at i w = (if i < length (wi_rows w) then Some (wi_rows w ! i) else None)"

definition new_window :: "(string \<times> string \<times> 'wd) list \<Rightarrow> 'wd window" where
  "new_window pages =
     (let w = fold register_page pages
        \<lparr>wi_pages = [], wi_rows = [], wi_current = None, wi_title = [], wi_child = None, wi_set = [],
         wi_show_content = False, wi_smoke_index = 0\<rparr>
      in on_row_selected (row_at 0 w) w)"

definition smoke_visit_next :: "'wd window \<Rightarrow> bool \<times> 'wd window" where
  "smoke_visit_next w =
     (let w' = w\<lparr>wi_smoke_index := Suc (wi_smoke_index w)\<rparr> in
      case row_at (wi_smoke_index w') w' of
        None \<Rightarrow> (False, w')
      | Some row \<Rightarrow> (True, on_row_selected (Some row) w'))"

definition APP_PAGES :: "(string \<times> string) list" where
  "APP_PAGES = [(''dashboard'', ''Dashboard''), (''battery'', ''Battery''), (''hardware'', ''Hardware''),
     (''firmware'', ''Firmware''), (''storage'', ''Storage''), (''diagnostics'', ''Diagnostics''),
     (''reference'', ''Reference'')]"

section \<open>Navigation\<close>

definition window_ok :: "'wd window \<Rightarrow> bool" where
  "window_ok w \<longleftrightarrow>
     set (wi_rows w) \<subseteq> fst ` set (wi_pages w) \<and> distinct_adj (wi_set w) \<and>
     (case wi_current w of
        None \<Rightarrow> wi_child w = None \<and> wi_set w = []
      | Some p \<Rightarrow> wi_set w \<noteq> [] \<and> last (wi_set w) = p \<and> dict_get p (wi_pages w) = Some (wi_title w, the (wi_child w)) \<and> wi_child w \<noteq> None)"

lemma row_selected_fields [simp]:
  "wi_rows (on_row_selected row w) = wi_rows w" "wi_pages (on_row_selected row w) = wi_pages w"
  "wi_smoke_index (on_row_selected row w) = wi_smoke_index w"
  by (simp_all add: on_row_selected_def split: option.split)

lemma window_ok_smoke [simp]: "window_ok (w\<lparr>wi_smoke_index := n\<rparr>) = window_ok w"
  by (simp add: window_ok_def split: option.split)

lemma window_ok_selected: "window_ok w \<Longrightarrow> window_ok (on_row_selected row w)"
  by (auto simp: window_ok_def on_row_selected_def distinct_adj_append_iff split: option.splits)

lemma selected_current:
  assumes "window_ok w" "p \<in> set (wi_rows w)"
  shows "wi_current (on_row_selected (Some p) w) = Some p"
proof -
  have "dict_get p (wi_pages w) \<noteq> None" using assms by (auto simp: window_ok_def dict_get_None)
  then show ?thesis by (auto simp: on_row_selected_def)
qed

lemma register_fields:
  "wi_rows (fold register_page ps w) = wi_rows w @ List.map fst ps"
  "wi_current (fold register_page ps w) = wi_current w" "wi_child (fold register_page ps w) = wi_child w"
  "wi_set (fold register_page ps w) = wi_set w"
  "wi_smoke_index (fold register_page ps w) = wi_smoke_index w"
  "fst ` set (wi_pages (fold register_page ps w)) = fst ` set (wi_pages w) \<union> fst ` set ps"
  by (induction ps arbitrary: w) (auto simp: register_page_def dict_set_keys split: prod.splits)

lemma new_window_ok: "window_ok (new_window ps)" "wi_rows (new_window ps) = List.map fst ps"
  "wi_smoke_index (new_window ps) = 0"
  by (auto simp: new_window_def Let_def window_ok_def [of "fold register_page ps _"] register_fields intro!: window_ok_selected)

lemma fold_selected_fields [simp]:
  "wi_rows (fold on_row_selected rows w) = wi_rows w"
  "wi_smoke_index (fold on_row_selected rows w) = wi_smoke_index w"
  by (induction rows arbitrary: w) simp_all

function smoke_pages :: "'wd window \<Rightarrow> string option list" where
  "smoke_pages w = (case smoke_visit_next w of (again, w') \<Rightarrow>
     if again then wi_current w' # smoke_pages w' else [])"
  by pat_completeness auto

termination
  by (relation "Wellfounded.measure (\<lambda>w. length (wi_rows w) - wi_smoke_index w)")
     (auto simp: smoke_visit_next_def row_at_def Let_def split: if_splits)

declare smoke_pages.simps [simp del]

lemma smoke_pages_rest:
  "window_ok w \<Longrightarrow> smoke_pages w = List.map Some (drop (Suc (wi_smoke_index w)) (wi_rows w))"
proof (induction w rule: smoke_pages.induct)
  case (1 w)
  let ?i = "Suc (wi_smoke_index w)" and ?w = "w\<lparr>wi_smoke_index := Suc (wi_smoke_index w)\<rparr>"
  show ?case
  proof (cases "?i < length (wi_rows w)")
    case True
    have ok: "window_ok ?w" using 1(2) by simp
    let ?w' = "on_row_selected (Some (wi_rows w ! ?i)) ?w"
    have visit: "smoke_visit_next w = (True, ?w')" using True by (simp add: smoke_visit_next_def row_at_def Let_def)
    have "smoke_pages ?w' = List.map Some (drop (Suc (wi_smoke_index ?w')) (wi_rows ?w'))"
      by (rule "1.IH" [OF visit [symmetric] TrueI]) (use ok in \<open>auto intro: window_ok_selected\<close>)
    moreover have "wi_current ?w' = Some (wi_rows w ! ?i)" by (rule selected_current [OF ok]) (use True in simp)
    ultimately show ?thesis using True visit by (simp add: smoke_pages.simps [of w] Cons_nth_drop_Suc [symmetric])
  next
    case False
    then have "smoke_visit_next w = (False, ?w)" by (simp add: smoke_visit_next_def row_at_def Let_def)
    with False show ?thesis by (simp add: smoke_pages.simps [of w])
  qed
qed

section \<open>Properties\<close>

text \<open>C34: The scheduler never outlives the application. A capture starts neither the scheduler nor the
  toolkit. If the scheduler cannot start, its error is all \<open>main\<close> returns: the toolkit is not
  loaded and the application neither built nor run, and the late thread is what is left. Otherwise
  the toolkit, the resources, the application and its run follow in this order, in a world where
  the scheduler has started, up to the first that raises; however that ends, the result stands and the
  scheduler is stopped after it: the native one has dropped its loop and restored the
  policy it found (the coroutines it was given stay with the main context), the threaded one has
  nothing in flight unless its thread did not end in the time \<open>stop\<close> gives it.\<close>

theorem main_stops_scheduler:
  "(case app_main env toolkit application app_run m runner stamp args w of (r, w') \<Rightarrow>
     let w0 = log_configure env (aa_verbose args) w in
     if or_str (aa_capture args) [] \<noteq> []
     then (r, w') = run_capture m runner (or_str (aa_capture args) []) (aa_include args) stamp w0
     else if \<not> le_native env \<and> \<not> le_in_time env
     then r = Inl (PyException ''RuntimeError'' ''async loop thread failed to start'') \<and>
          w' = w0\<lparr>sh_scheduler := Inr (thread_init\<lparr>t_thread := True, t_starting := 1\<rparr>)\<rparr>
     else \<exists>s w2 s'. scheduler_started env s \<and>
       (r, w2) = (case toolkit (w0\<lparr>sh_scheduler := s\<rparr>) of
          (Inl e, u) \<Rightarrow> (Inl e, u)
        | (Inr _, u) \<Rightarrow>
            (case load_resources env of
               Inl e \<Rightarrow> (Inl e, u)
             | Inr _ \<Rightarrow>
                 (case application u of
                    (Inl e, v) \<Rightarrow> (Inl e, v)
                  | (Inr app, v) \<Rightarrow>
                      (case app_run app v of
                         (Inl e, x) \<Rightarrow> (Inl e, x)
                       | (Inr status, x) \<Rightarrow> (Inr (status, []), x))))) \<and>
       w' = w2\<lparr>sh_scheduler := s'\<rparr> \<and> scheduler_stopped env (sh_scheduler w2) s')"
proof (cases "or_str (aa_capture args) [] \<noteq> []")
  case True
  then show ?thesis by (simp add: app_main_def Let_def)
next
  case False
  let ?w0 = "log_configure env (aa_verbose args) w"
  let ?body = "io_bind (build_application env toolkit application) (\<lambda>app.
      io_bind (app_run app) (\<lambda>status. io_return (status, [] :: string list)))"
  have body: "?body u = (case toolkit u of
          (Inl e, u) \<Rightarrow> (Inl e, u)
        | (Inr _, u) \<Rightarrow>
            (case load_resources env of
               Inl e \<Rightarrow> (Inl e, u)
             | Inr _ \<Rightarrow>
                 (case application u of
                    (Inl e, v) \<Rightarrow> (Inl e, v)
                  | (Inr app, v) \<Rightarrow>
                      (case app_run app v of
                         (Inl e, x) \<Rightarrow> (Inl e, x)
                       | (Inr status, x) \<Rightarrow> (Inr (status, []), x)))))" for u
    by (auto simp: build_application_def io_bind_def split: prod.split sum.split)
  show ?thesis
  proof (cases "\<not> le_native env \<and> \<not> le_in_time env")
    case True
    with False show ?thesis by (simp add: app_main_def Let_def start_scheduler_fails io_bind_Inl)
  next
    case ok: False
    then obtain s where s: "start_scheduler env ?w0 = (Inr (), ?w0\<lparr>sh_scheduler := s\<rparr>)" "scheduler_started env s"
      using start_scheduler_ok [of env ?w0] by blast
    obtain r w2 where run: "?body (?w0\<lparr>sh_scheduler := s\<rparr>) = (r, w2)" by (metis surj_pair)
    obtain s' where s': "io_finally ?body (stop_scheduler env) (?w0\<lparr>sh_scheduler := s\<rparr>) = (r, w2\<lparr>sh_scheduler := s'\<rparr>)"
      "scheduler_stopped env (sh_scheduler w2) s'"
      using finally_stops [where f = ?body, OF run] by blast
    have "app_main env toolkit application app_run m runner stamp args w = (r, w2\<lparr>sh_scheduler := s'\<rparr>)"
      using False s(1) s'(1) by (simp add: app_main_def Let_def io_bind_Inr)
    then show ?thesis using False ok s(2) s'(2) run [unfolded body, symmetric]
      by (simp only: prod.case Let_def if_False simp_thms) blast
  qed
qed

text \<open>The main window never puts a page where it already is: whatever rows are selected in whatever
  order, no page's widget is set twice in a row, the page shown is the last one selected, and
  the smoke visit after it ends having shown every remaining page once, in order.\<close>

theorem window_never_reparents:
  assumes "p \<in> fst ` set pages"
  shows "case fold on_row_selected (rows @ [Some p]) (new_window pages) of w \<Rightarrow>
    distinct_adj (wi_set w) \<and> wi_current w = Some p \<and> last (wi_set w) = p \<and>
    smoke_pages w = List.map (\<lambda>page. Some (fst page)) (tl pages)"
proof -
  let ?v = "fold on_row_selected rows (new_window pages)" and ?w = "fold on_row_selected (rows @ [Some p]) (new_window pages)"
  have fold_ok: "window_ok (fold on_row_selected rs u)" if "window_ok u" for rs and u :: "'a window"
    using that by (induction rs arbitrary: u) (auto intro: window_ok_selected)
  have ok: "window_ok ?v" "window_ok ?w" using fold_ok [OF new_window_ok(1)] by blast+
  have "p \<in> set (wi_rows ?v)" using assms by (simp add: new_window_ok(2))
  then have "wi_current ?w = Some p" using selected_current [OF ok(1)] by simp
  moreover have "smoke_pages ?w = List.map Some (drop 1 (List.map fst pages))"
    using smoke_pages_rest [OF ok(2)] by (simp add: new_window_ok)
  ultimately show ?thesis using ok(2) by (simp add: window_ok_def drop_Suc map_tl comp_def)
qed

theorem window_never_reparents_witness:
  "distinct_adj (wi_set (fold on_row_selected ([Some ''battery'', None, Some ''battery''] @ [Some ''dashboard''])
     (new_window [(''dashboard'', ''Dashboard'', 0), (''battery'', ''Battery'', 1 :: nat)]))) \<and>
   wi_set (fold on_row_selected ([Some ''battery'', None, Some ''battery''] @ [Some ''dashboard''])
     (new_window [(''dashboard'', ''Dashboard'', 0), (''battery'', ''Battery'', 1 :: nat)])) =
     [''dashboard'', ''battery'', ''dashboard'']"
proof
  show "distinct_adj (wi_set (fold on_row_selected ([Some ''battery'', None, Some ''battery''] @ [Some ''dashboard''])
      (new_window [(''dashboard'', ''Dashboard'', 0), (''battery'', ''Battery'', 1 :: nat)])))"
    using window_never_reparents [of "''dashboard''" "[(''dashboard'', ''Dashboard'', 0), (''battery'', ''Battery'', 1 :: nat)]"
      "[Some ''battery'', None, Some ''battery'']"] by simp
  show "wi_set (fold on_row_selected ([Some ''battery'', None, Some ''battery''] @ [Some ''dashboard''])
     (new_window [(''dashboard'', ''Dashboard'', 0), (''battery'', ''Battery'', 1 :: nat)])) =
     [''dashboard'', ''battery'', ''dashboard'']" by code_simp
qed

end
