(* ===== verification/StackProbe.thy ===== *)
theory StackProbe
  imports PyNum
begin

text \<open>
  \<open>tools/stack_probe.py\<close>: the script that reports whether an environment can run Lapcare. The
  environment is data: what each import yields (a version, or the text of the exception it
  raises) and what each tool prints. The result is the exit status and the printed lines.
\<close>

type_synonym version = "int \<times> int \<times> int"

datatype tool_answer =
    ToolMissing
  | ToolPrints string
  | ToolFails

record probe_env =
  pe_python :: string
  pe_gi :: "string option"
  pe_glib :: "string + version"
  pe_gtk :: "string + version"
  pe_adw :: "string + version"
  pe_events :: bool
  pe_dbusmock :: "string option"
  pe_tool :: "string \<Rightarrow> tool_answer"

definition version_text :: "version \<Rightarrow> string" where
  "version_text v = (case v of (a, b, c) \<Rightarrow> show_int a @ ''.'' @ show_int b @ ''.'' @ show_int c)"

text \<open>\<open>f"{s:16}"\<close>\<close>

definition pad16 :: "string \<Rightarrow> string" where
  "pad16 s = s @ replicate (16 - pylen s) (CHR '' '')"

definition probe_glib :: "string + version \<Rightarrow> string list \<times> bool" where
  "probe_glib glib = (case glib of
     Inr v \<Rightarrow> ([''glib             '' @ version_text v], True)
   | Inl e \<Rightarrow> ([''glib             MISSING ('' @ e @ '')''], False))"

definition probe_gtk :: "string + version \<Rightarrow> string list \<times> bool" where
  "probe_gtk gtk = (case gtk of
     Inr v \<Rightarrow> ([''gtk4             '' @ version_text v], True)
   | Inl e \<Rightarrow> ([''gtk4             MISSING ('' @ e @ '')''], False))"

text \<open>Versions are compared as tuples.\<close>

definition below_1_4 :: "version \<Rightarrow> bool" where
  "below_1_4 v = (case v of (a, b, c) \<Rightarrow> a < 1 \<or> a = 1 \<and> b < 4)"

definition probe_adw :: "string + version \<Rightarrow> string list \<times> bool" where
  "probe_adw adw = (case adw of
     Inr v \<Rightarrow> ((''libadwaita       '' @ version_text v) #
                (if below_1_4 v then [''                 ^ below 1.4: NavigationSplitView unavailable''] else []),
              \<not> below_1_4 v)
   | Inl e \<Rightarrow> ([''libadwaita       MISSING (hard requirement)''], False))"

definition probe_events :: "bool \<Rightarrow> string" where
  "probe_events events =
     (if events then ''gi.events        AVAILABLE -> native asyncio integration''
      else ''gi.events        absent -> platform executor fallback (ADR-0007)'')"

definition probe_dbusmock :: "string option \<Rightarrow> string" where
  "probe_dbusmock version = (case version of
     Some v \<Rightarrow> ''dbusmock         '' @ v
   | None \<Rightarrow> ''dbusmock         missing (tests will not run)'')"

definition PROBE_TOOLS :: "string list" where
  "PROBE_TOOLS = [''meson'', ''blueprint-compiler'', ''desktop-file-validate'', ''appstreamcli'']"

definition probe_tool :: "(string \<Rightarrow> tool_answer) \<Rightarrow> string \<Rightarrow> string" where
  "probe_tool answer tool = pad16 tool @ '' '' @ (case answer tool of
     ToolMissing \<Rightarrow> ''MISSING''
   | ToolFails \<Rightarrow> ''present (version unknown)''
   | ToolPrints out \<Rightarrow> (case splitlines (strip out) of [] \<Rightarrow> ''?'' | line # _ \<Rightarrow> line))"

definition probe :: "probe_env \<Rightarrow> int \<times> string list" where
  "probe env =
     (let python = ''python           '' @ pe_python env in
      case pe_gi env of
        None \<Rightarrow> (1, [python, ''pygobject        MISSING (hard requirement)''])
      | Some gi \<Rightarrow>
          let (glib, ok1) = probe_glib (pe_glib env);
              (gtk, ok2) = probe_gtk (pe_gtk env);
              (adw, ok3) = probe_adw (pe_adw env)
          in (if ok1 \<and> ok2 \<and> ok3 then 0 else 1,
              [python, ''pygobject        '' @ gi] @ glib @ gtk @ adw @
              [probe_events (pe_events env), probe_dbusmock (pe_dbusmock env)] @
              List.map (probe_tool (pe_tool env)) PROBE_TOOLS))"

section \<open>The verdict\<close>

definition present :: "string + version \<Rightarrow> bool" where
  "present v = (case v of Inl _ \<Rightarrow> False | Inr _ \<Rightarrow> True)"

text \<open>The verdict depends on the requirements alone, not on the tools, the test library or \<open>gi.events\<close>.\<close>

lemma probe_verdict:
  "fst (probe env) =
     (if pe_gi env \<noteq> None \<and> present (pe_glib env) \<and> present (pe_gtk env) \<and>
         (case pe_adw env of Inl e \<Rightarrow> False | Inr v \<Rightarrow> \<not> below_1_4 v)
      then 0 else 1)"
  by (auto simp: probe_def Let_def probe_glib_def probe_gtk_def probe_adw_def present_def split: option.split sum.split)

text \<open>Every tool is reported, on the last lines, in order, unless the bindings are missing.\<close>

lemma probe_tools_reported:
  "pe_gi env = Some gi \<Longrightarrow> \<exists>rest. snd (probe env) = rest @ List.map (probe_tool (pe_tool env)) PROBE_TOOLS"
  by (auto simp: probe_def Let_def split: prod.split intro: exI [of _ "_ @ _"])

end
