(* ===== verification/WearChart.thy ===== *)
theory WearChart
  imports PyNum
begin

text \<open>
  \<open>ui/widgets/wear_chart.py\<close>: the wear-over-time chart. Drawing is the list of Cairo calls
  \<open>_draw\<close> makes, in order, its coordinates computed in binary64 as the source computes them;
  what Pango measures of a day label (its pixel width and height) is the parameter \<open>layout\<close>,
  and the theme's colour is left out of the \<open>set_source_rgba\<close> calls, which keep their opacity.
\<close>

section \<open>The widget\<close>

definition PAD :: rat where "PAD = 8"

record wear_chart =
  ch_points :: "(string \<times> rat) list"
  ch_label :: string

definition new_chart :: wear_chart where
  "new_chart = \<lparr>ch_points = [], ch_label = []\<rparr>"

definition chart_label :: "(string \<times> rat) list \<Rightarrow> string" where
  "chart_label points =
     ''Wear history chart: '' @ show_int (int (length points)) @ '' daily samples, '' @
     fmt_fixed 1 (snd (hd points)) @ ''% wear on '' @ fst (hd points) @ '' to '' @
     fmt_fixed 1 (snd (last points)) @ ''% wear on '' @ fst (last points)"

text \<open>Without points the accessible label keeps its last value.\<close>

definition set_points :: "(string \<times> rat) list \<Rightarrow> wear_chart \<Rightarrow> wear_chart" where
  "set_points points c =
     (let c' = c\<lparr>ch_points := points\<rparr>
      in if points = [] then c' else c'\<lparr>ch_label := chart_label points\<rparr>)"

section \<open>Drawing\<close>

datatype cairo =
    Opacity rat
  | LineWidth rat
  | MoveTo rat rat
  | LineTo rat rat
  | StrokePreserve
  | ClosePath
  | Fill
  | ShowLayout string

definition chart_y_max :: "rat list \<Rightarrow> rat" where
  "chart_y_max ws = max 10 (fl (foldr max (tl ws) (hd ws) * (5 / 4)))"

definition plot_width :: "int \<Rightarrow> rat" where
  "plot_width width = fl (of_int width - 2 * PAD)"

definition plot_height :: "int \<Rightarrow> int \<Rightarrow> rat" where
  "plot_height height label_h = max 10 (fl (fl (fl (of_int height - 2 * PAD) - of_int label_h) - 4))"

definition chart_x :: "nat \<Rightarrow> rat \<Rightarrow> nat \<Rightarrow> rat" where
  "chart_x n plot_w i =
     (let x_frac = (if 1 < n then int_truediv (int i) (int n - 1) else 1 / 2)
      in fl (PAD + fl (x_frac * plot_w)))"

definition chart_y :: "rat \<Rightarrow> rat \<Rightarrow> rat \<Rightarrow> rat" where
  "chart_y y_max plot_h wear = fl (PAD + fl (fl (1 - fl (wear / y_max)) * plot_h))"

definition chart_path :: "rat list \<Rightarrow> rat \<Rightarrow> rat \<Rightarrow> (rat \<times> rat) list" where
  "chart_path ws plot_w plot_h =
     List.map (\<lambda>(i, v). (chart_x (length ws) plot_w i, chart_y (chart_y_max ws) plot_h v))
       (enumerate 0 ws)"

definition path_calls :: "(rat \<times> rat) list \<Rightarrow> cairo list" where
  "path_calls ps = (case ps of [] \<Rightarrow> [] | (x, y) # qs \<Rightarrow> MoveTo x y # List.map (\<lambda>(x, y). LineTo x y) qs)"

definition draw :: "(string \<Rightarrow> int \<times> int) \<Rightarrow> int \<Rightarrow> int \<Rightarrow> wear_chart \<Rightarrow> cairo list" where
  "draw layout width height c =
     (if ch_points c = [] then []
      else
        let first_day = fst (hd (ch_points c)); last_day = fst (last (ch_points c));
            label_h = snd (layout first_day);
            ws = List.map snd (ch_points c);
            n = length ws;
            plot_w = plot_width width; plot_h = plot_height height label_h;
            label_y = fl (fl (of_int height - PAD / 2) - of_int label_h)
        in [Opacity (fl (9 / 10)), LineWidth 2] @ path_calls (chart_path ws plot_w plot_h) @
           [StrokePreserve,
            LineTo (chart_x n plot_w (n - 1)) (fl (PAD + plot_h)),
            LineTo (chart_x n plot_w 0) (fl (PAD + plot_h)),
            ClosePath, Opacity (fl (15 / 100)), Fill,
            Opacity (fl (6 / 10)),
            MoveTo PAD label_y, ShowLayout first_day,
            MoveTo (fl (fl (of_int width - PAD) - of_int (fst (layout last_day)))) label_y, ShowLayout last_day])"

section \<open>Coordinates\<close>

lemma foldr_max_ge: "x \<in> set (v # vs) \<Longrightarrow> x \<le> foldr max vs (v :: rat)"
  by (induction vs) (auto simp: le_max_iff_disj)

lemma foldr_max_mem: "foldr max vs (v :: rat) \<in> set (v # vs)"
  by (induction vs) (auto simp: max_def)

lemma y_max_ge:
  assumes "v \<in> set ws" "\<And>v. v \<in> set ws \<Longrightarrow> 0 \<le> v \<and> fl v = v"
  shows "v \<le> chart_y_max ws" and "10 \<le> chart_y_max ws"
proof -
  obtain u us where vs: "ws = u # us" using assms(1) by (cases ws) auto
  let ?m = "foldr max us u"
  have m: "?m \<in> set ws" "v \<le> ?m" using foldr_max_mem foldr_max_ge assms(1) vs by auto
  then have "0 \<le> ?m" "fl ?m = ?m" using assms(2) by blast+
  then have "?m \<le> fl (?m * (5 / 4))" using fl_mono [of ?m "?m * (5 / 4)"] by simp
  with m(2) show "v \<le> chart_y_max ws" by (simp add: chart_y_max_def vs le_max_iff_disj)
  show "10 \<le> chart_y_max ws" by (simp add: chart_y_max_def)
qed

lemma chart_y_range:
  assumes "0 \<le> v" "v \<le> y_max" "0 < y_max" "0 \<le> plot_h" "fl plot_h = plot_h"
  shows "8 \<le> chart_y y_max plot_h v \<and> chart_y y_max plot_h v \<le> fl (PAD + plot_h)"
proof -
  define s where "s = fl (1 - fl (v / y_max))"
  have "0 \<le> fl (v / y_max)" "fl (v / y_max) \<le> 1"
    using assms fl_le_int [of "v / y_max" 1] by (simp_all add: fl_nonneg)
  then have s: "0 \<le> s" "s \<le> 1" using fl_nonneg fl_le_int [of "1 - fl (v / y_max)" 1] by (simp_all add: s_def)
  have "fl (s * plot_h) \<le> plot_h"
    using fl_mono [of "s * plot_h" plot_h] s assms(4,5) by (simp add: mult_left_le_one_le)
  moreover have "0 \<le> fl (s * plot_h)" using s assms(4) by (simp add: fl_nonneg)
  ultimately show ?thesis
    using fl_ge_int [of 8 "PAD + fl (s * plot_h)"] fl_mono [of "PAD + fl (s * plot_h)" "PAD + plot_h"]
    by (simp add: chart_y_def s_def PAD_def)
qed

lemma chart_y_antitone:
  assumes "u \<le> v" "0 < y_max" "0 \<le> plot_h"
  shows "chart_y y_max plot_h v \<le> chart_y y_max plot_h u"
proof -
  have "fl (u / y_max) \<le> fl (v / y_max)" using assms by (intro fl_mono divide_right_mono) auto
  then show ?thesis unfolding chart_y_def using assms(3)
    by (intro fl_mono add_left_mono mult_right_mono) auto
qed

lemma x_frac_range:
  assumes "i < n" "1 < n"
  shows "0 \<le> int_truediv (int i) (int n - 1)" "int_truediv (int i) (int n - 1) \<le> 1"
  using assms fl_le_int [of "of_nat i / (of_nat n - 1)" 1] by (auto simp: int_truediv_def intro!: fl_nonneg divide_nonneg_nonneg)

lemma chart_x_range:
  assumes "i < n" "0 \<le> plot_w" "fl plot_w = plot_w"
  shows "8 \<le> chart_x n plot_w i \<and> chart_x n plot_w i \<le> fl (PAD + plot_w)"
proof -
  define t where "t = (if 1 < n then int_truediv (int i) (int n - 1) else 1 / 2 :: rat)"
  have t: "0 \<le> t" "t \<le> 1" using x_frac_range [OF assms(1)] by (simp_all add: t_def)
  have "fl (t * plot_w) \<le> plot_w"
    using fl_mono [of "t * plot_w" plot_w] t assms(2,3) by (simp add: mult_left_le_one_le)
  moreover have "0 \<le> fl (t * plot_w)" using t assms(2) by (simp add: fl_nonneg)
  ultimately show ?thesis
    using fl_ge_int [of 8 "PAD + fl (t * plot_w)"] fl_mono [of "PAD + fl (t * plot_w)" "PAD + plot_w"]
    by (simp add: chart_x_def t_def PAD_def)
qed

lemma chart_x_mono:
  assumes "i \<le> j" "0 \<le> plot_w"
  shows "chart_x n plot_w i \<le> chart_x n plot_w j"
proof -
  have "int_truediv (int i) (int n - 1) \<le> int_truediv (int j) (int n - 1)" if "1 < n"
    unfolding int_truediv_def using assms(1) that by (intro fl_mono divide_right_mono) auto
  then show ?thesis unfolding chart_x_def Let_def using assms(2)
    by (intro fl_mono add_left_mono mult_right_mono) auto
qed

lemma plot_width_exact:
  assumes "16 \<le> width" "width \<le> 2 ^ 53"
  shows "plot_width width = of_int (width - 16)"
  using fl_int [of "width - 16"] assms by (simp add: plot_width_def PAD_def)

lemma chart_x_edges:
  assumes "1 < n" "16 \<le> width" "width \<le> 2 ^ 53"
  shows "chart_x n (plot_width width) 0 = 8" and "chart_x n (plot_width width) (n - 1) = of_int (width - 8)"
proof -
  show "chart_x n (plot_width width) 0 = 8" using assms(1) by (simp add: chart_x_def int_truediv_def PAD_def)
  have "int_truediv (int (n - 1)) (int n - 1) = 1"
    using assms(1) by (simp add: int_truediv_def of_nat_diff)
  moreover have "fl (of_int (width - 16)) = of_int (width - 16)" "fl (of_int (width - 8)) = of_int (width - 8)"
    using fl_int [of "width - 16"] fl_int [of "width - 8"] assms by simp_all
  moreover have "(8 :: rat) + of_int (width - 16) = of_int (width - 8)" by simp
  ultimately show "chart_x n (plot_width width) (n - 1) = of_int (width - 8)"
    using assms(1) by (simp only: chart_x_def plot_width_exact [OF assms(2,3)] Let_def if_True PAD_def mult_1)
qed

lemma plot_height_float: "fl (plot_height height h) = plot_height height h" "10 \<le> plot_height height h"
  by (simp_all add: plot_height_def max_def)

lemma chart_path_nth:
  "i < length ws \<Longrightarrow> chart_path ws w h ! i = (chart_x (length ws) w i, chart_y (chart_y_max ws) h (ws ! i))"
  by (simp add: chart_path_def nth_enumerate_eq)

lemma chart_path_length [simp]: "length (chart_path ws w h) = length ws"
  by (simp add: chart_path_def)

lemma path_calls_length [simp]: "length (path_calls ps) = length ps"
  by (cases ps) (auto simp: path_calls_def split: prod.split)

text \<open>The values a chart can be given: wear percentages, which are floats and not negative.\<close>

definition wear_values :: "rat list \<Rightarrow> bool" where
  "wear_values ws \<longleftrightarrow> list_all (\<lambda>v. 0 \<le> v \<and> fl v = v) ws"

lemma wear_values_nth: "wear_values ws \<Longrightarrow> i < length ws \<Longrightarrow> 0 \<le> ws ! i \<and> fl (ws ! i) = ws ! i"
  by (simp add: wear_values_def list_all_length)

lemma chart_path_edges:
  assumes "1 < length ws" "16 \<le> width" "width \<le> 2 ^ 53"
  shows "fst (hd (chart_path ws (plot_width width) h)) = PAD" "fst (last (chart_path ws (plot_width width) h)) = of_int width - PAD"
proof -
  let ?path = "chart_path ws (plot_width width) h"
  have "ws \<noteq> []" using assms(1) by auto
  have "?path \<noteq> []" using assms(1) by (metis chart_path_length length_0_conv not_less_zero)
  then have "hd ?path = ?path ! 0" "last ?path = ?path ! (length ws - 1)" by (simp_all add: hd_conv_nth last_conv_nth)
  then show "fst (hd ?path) = PAD" "fst (last ?path) = of_int width - PAD"
    using assms(1) \<open>ws \<noteq> []\<close> chart_x_edges [OF assms] by (simp_all add: chart_path_nth PAD_def)
qed

lemma draw_begins:
  assumes "ch_points c \<noteq> []"
  defines "path \<equiv> \<lambda>layout width height. chart_path (List.map snd (ch_points c)) (plot_width width)
    (plot_height height (snd (layout (fst (hd (ch_points c))))))"
  shows "draw layout width height c = Opacity (fl (9 / 10)) # LineWidth 2 # path_calls (path layout width height) @
    drop (2 + length (path layout width height)) (draw layout width height c)"
  using assms(1) by (simp add: draw_def Let_def path_def)

section \<open>Properties\<close>

text \<open>C40: The line of a chart stays inside its plot area, which spans the widget's width less the padding:
  it runs from the left edge to the right one without turning back, and more wear is never drawn
  lower.\<close>

theorem chart_in_plot:
  assumes "wear_values (List.map snd (ch_points c))" "16 \<le> width" "width \<le> 2 ^ 53"
    and "i < length (ch_points c)" "j < length (ch_points c)" "i \<le> j"
  shows "case (let plot_h = plot_height height (snd (layout (fst (hd (ch_points c)))));
                   path = chart_path (List.map snd (ch_points c)) (plot_width width) plot_h
               in (fl (PAD + plot_h), path, path ! i, path ! j)) of
     (bottom, path, (x, y), (x', y')) \<Rightarrow>
       draw layout width height c =
         Opacity (fl (9 / 10)) # LineWidth 2 # path_calls path @ drop (2 + length path) (draw layout width height c) \<and>
       PAD \<le> x \<and> x \<le> x' \<and> x' \<le> of_int width - PAD \<and>
       PAD \<le> y \<and> y \<le> bottom \<and>
       (snd (ch_points c ! i) \<le> snd (ch_points c ! j) \<longrightarrow> y' \<le> y) \<and>
       (1 < length (ch_points c) \<longrightarrow> fst (hd path) = PAD \<and> fst (last path) = of_int width - PAD)"
proof -
  define ws h where "ws = List.map snd (ch_points c)"
    and "h = plot_height height (snd (layout (fst (hd (ch_points c)))))"
  let ?w = "plot_width width" and ?n = "length ws"
  let ?path = "chart_path ws ?w h"
  have w: "0 \<le> ?w" "fl ?w = ?w" "fl (PAD + ?w) = of_int (width - 8)"
    using assms(2,3) fl_int [of "width - 16"] fl_int [of "width - 8"]
    by (simp_all add: plot_width_exact PAD_def)
  have h: "0 \<le> h" "fl h = h" using plot_height_float [of height] by (simp_all add: h_def order_trans [of 0 10])
  have n: "i < ?n" "j < ?n" using assms(4,5) by (simp_all add: ws_def)
  have v: "0 \<le> v \<and> fl v = v" if "v \<in> set ws" for v
    using that assms(1) unfolding ws_def [symmetric] wear_values_def list_all_iff by blast
  have ym: "ws ! i \<le> chart_y_max ws" "10 \<le> chart_y_max ws"
    using y_max_ge [of "ws ! i" ws] v n(1) by simp_all
  have nth: "?path ! k = (chart_x ?n ?w k, chart_y (chart_y_max ws) h (ws ! k))" if "k < ?n" for k
    using that by (rule chart_path_nth)
  have x: "PAD \<le> chart_x ?n ?w i" "chart_x ?n ?w i \<le> chart_x ?n ?w j" "chart_x ?n ?w j \<le> of_int width - PAD"
    using chart_x_range [OF n(1) w(1,2)] chart_x_range [OF n(2) w(1,2)] chart_x_mono [OF assms(6) w(1)] w(3)
    by (simp_all add: PAD_def)
  have y: "PAD \<le> chart_y (chart_y_max ws) h (ws ! i)" "chart_y (chart_y_max ws) h (ws ! i) \<le> fl (PAD + h)"
    using chart_y_range [OF _ ym(1) _ h] v [of "ws ! i"] ym(2) n(1) by (simp_all add: PAD_def)
  have anti: "chart_y (chart_y_max ws) h (ws ! j) \<le> chart_y (chart_y_max ws) h (ws ! i)" if "ws ! i \<le> ws ! j"
    using chart_y_antitone [OF that _ h(1)] ym(2) by simp
  have edges: "fst (hd ?path) = PAD" "fst (last ?path) = of_int width - PAD" if "1 < ?n"
    by (rule chart_path_edges [OF that assms(2,3)])+
  have "ch_points c \<noteq> []" using assms(4) by auto
  note drawn = draw_begins [OF this, of layout width height, folded ws_def h_def]
  have "snd (ch_points c ! i) = ws ! i" "snd (ch_points c ! j) = ws ! j" "length (ch_points c) = ?n" using assms(4,5) by (simp_all add: ws_def)
  with x y anti edges drawn nth n show ?thesis
    unfolding Let_def ws_def [symmetric] h_def [symmetric] by (simp add: ws_def [symmetric])
qed

theorem chart_in_plot_witness:
  "case chart_path [5, 8] (plot_width 316) (plot_height 110 14) of path \<Rightarrow>
     PAD \<le> snd (path ! 0) \<and> snd (path ! 0) \<le> fl (PAD + plot_height 110 14) \<and> snd (path ! 1) \<le> snd (path ! 0) \<and>
     fst (hd path) = PAD \<and> fst (last path) = 308"
proof -
  let ?c = "\<lparr>ch_points = [(''2026-01-01'', 5), (''2026-02-01'', 8)], ch_label = []\<rparr>"
  have "wear_values (List.map snd (ch_points ?c))" by (simp add: wear_values_def)
  note * = chart_in_plot [OF this, where width = 316 and i = 0 and j = 1 and height = 110 and layout = "\<lambda>text. (60, 14)"]
  have "PAD = 8" by (rule PAD_def)
  with * show ?thesis
    by (cases "chart_path [5, 8] (plot_width 316) (plot_height 110 14) ! 0";
        cases "chart_path [5, 8] (plot_width 316) (plot_height 110 14) ! 1") (simp add: Let_def)
qed

end
