(* ===== verification/Widgets.thy ===== *)
theory Widgets
  imports PageVM WearChart
begin

text \<open>
  What the page views share. A view is a GTK widget class; the model keeps the tree of widgets it
  builds, with the text, the style classes and the handlers it gives them, and the parts of the
  page template it sets (\<open>page_view\<close>). Icons, margins and alignment are left out. A button carries
  the action its \<open>clicked\<close> handler performs, a value of a datatype of the page.
\<close>

datatype 'a widget =
    ActionRow string string "string list" "'a widget list"
      \<comment> \<open>title, subtitle, style classes, suffixes\<close>
  | ExpanderRow string string bool "'a widget list" "'a widget list"
      \<comment> \<open>title, subtitle, expanded, suffixes, rows\<close>
  | PrefGroup string "'a widget list" "'a widget list"
      \<comment> \<open>title, header suffix, rows\<close>
  | PushButton string string 'a
      \<comment> \<open>label, tooltip, clicked\<close>
  | TextLabel string string
      \<comment> \<open>text, style class\<close>
  | StatusPage string string "'a widget list"
      \<comment> \<open>title, description, child\<close>
  | ChartRow wear_chart
  | Tooltip string "'a widget"

fun actions :: "'a widget \<Rightarrow> 'a list" where
  "actions (ActionRow _ _ _ ss) = concat (List.map actions ss)"
| "actions (ExpanderRow _ _ _ ss rows) = concat (List.map actions ss) @ concat (List.map actions rows)"
| "actions (PrefGroup _ ss rows) = concat (List.map actions ss) @ concat (List.map actions rows)"
| "actions (PushButton _ _ a) = [a]"
| "actions (TextLabel _ _) = []"
| "actions (StatusPage _ _ child) = concat (List.map actions child)"
| "actions (ChartRow _) = []"
| "actions (Tooltip _ w) = actions w"

definition all_actions :: "'a widget list \<Rightarrow> 'a list" where
  "all_actions ws = concat (List.map actions ws)"

lemma all_actions_simps [simp]:
  "all_actions [] = []" "all_actions (w # ws) = actions w @ all_actions ws"
  "all_actions (vs @ ws) = all_actions vs @ all_actions ws"
  by (simp_all add: all_actions_def)

definition property_row :: "string \<Rightarrow> string \<Rightarrow> 'a widget" where
  "property_row title subtitle = ActionRow title subtitle [''property''] []"

definition with_tooltip :: "string \<Rightarrow> 'a widget \<Rightarrow> 'a widget" where
  "with_tooltip text w = (if text \<noteq> [] then Tooltip text w else w)"

lemma with_tooltip_actions [simp]: "actions (with_tooltip t w) = actions w"
  by (simp add: with_tooltip_def)

lemma property_row_actions [simp]: "actions (property_row t s) = []"
  by (simp add: property_row_def)

section \<open>The page template\<close>

text \<open>A banner's title and whether it is revealed.\<close>

type_synonym banner = "string \<times> bool"

definition set_banner :: "string \<Rightarrow> banner" where
  "set_banner note = (note, note \<noteq> [])"

record 'a page_view =
  pv_visible :: page_state
  pv_unavailable :: string
  pv_error :: string
  pv_content :: "'a widget list"
  pv_busy :: banner
  pv_sensitive :: bool
  pv_toasts :: "string list"

definition new_view :: "'a page_view" where
  "new_view = \<lparr>pv_visible = Loading, pv_unavailable = [], pv_error = [], pv_content = [],
     pv_busy = ([], False), pv_sensitive = True, pv_toasts = []\<rparr>"

text \<open>The handler of \<open>notify::state\<close>, the same in every page but for what a ready page shows.\<close>

definition view_state_changed ::
    "('x page_vm_scheme \<Rightarrow> ('a, 'y) page_view_scheme \<Rightarrow> ('a, 'y) page_view_scheme) \<Rightarrow>
     'x page_vm_scheme \<Rightarrow> ('a, 'y) page_view_scheme \<Rightarrow> ('a, 'y) page_view_scheme" where
  "view_state_changed fill v w =
     (case pg_state v of
        Ready \<Rightarrow> fill v w
      | Unavailable \<Rightarrow> w\<lparr>pv_unavailable := unavailable_reason v @ [CHR 0x0A] @ unavailable_remedy v\<rparr>
      | PageError \<Rightarrow> w\<lparr>pv_error := error_detail v\<rparr>
      | Loading \<Rightarrow> w)\<lparr>pv_visible := pg_state v\<rparr>"

definition view_busy_changed :: "string \<Rightarrow> ('a, 'y) page_view_scheme \<Rightarrow> ('a, 'y) page_view_scheme" where
  "view_busy_changed busy w = w\<lparr>pv_busy := set_banner busy, pv_sensitive := (busy = [])\<rparr>"

definition view_toast :: "string \<Rightarrow> ('a, 'y) page_view_scheme \<Rightarrow> ('a, 'y) page_view_scheme" where
  "view_toast text w = (if text \<noteq> [] then w\<lparr>pv_toasts := pv_toasts w @ [text]\<rparr> else w)"

text \<open>What the user can click: the buttons of the shown page, unless it is insensitive.\<close>

definition clickable :: "('a, 'y) page_view_scheme \<Rightarrow> 'a list" where
  "clickable w = (if pv_visible w = Ready \<and> pv_sensitive w then all_actions (pv_content w) else [])"

lemmas view_defs = view_state_changed_def view_busy_changed_def view_toast_def set_banner_def

lemma view_state_visible [simp]: "pv_visible (view_state_changed fill v w) = pg_state v"
  by (simp add: view_state_changed_def)

end
