(* ===== verification/PageUI.thy ===== *)
theory PageUI
  imports Widgets
begin

text \<open>
  A page as its user meets it: the view-model and the view in one state, changed by events. A
  click is an event whose button can be pressed in the state; everything else (completions,
  signals, timers, the answer of a dialog) happens where the state allows it. The locales hold
  what every page's machine owes, and the lemmas the pages share.
\<close>

record ('s, 'e, 'a) page_machine =
  pm_start :: 's
  pm_signal :: "'e \<Rightarrow> 's \<Rightarrow> bool"
    \<comment> \<open>the events that may happen by themselves\<close>
  pm_click :: "'e \<Rightarrow> 'a option"
    \<comment> \<open>the button of a user's event\<close>
  pm_buttons :: "'s \<Rightarrow> 'a list"
    \<comment> \<open>what can be pressed\<close>
  pm_event :: "'e \<Rightarrow> 's \<Rightarrow> 's"

inductive ui_step :: "('s, 'e, 'a) page_machine \<Rightarrow> 's \<Rightarrow> 'e \<Rightarrow> 's \<Rightarrow> bool" for M where
  click: "pm_click M ev = Some a \<Longrightarrow> a \<in> set (pm_buttons M s) \<Longrightarrow> ui_step M s ev (pm_event M ev s)"
| signal: "pm_click M ev = None \<Longrightarrow> pm_signal M ev s \<Longrightarrow> ui_step M s ev (pm_event M ev s)"

inductive ui_reachable :: "('s, 'e, 'a) page_machine \<Rightarrow> 's \<Rightarrow> bool" for M where
  start: "ui_reachable M (pm_start M)"
| move: "ui_reachable M s \<Longrightarrow> ui_step M s ev s' \<Longrightarrow> ui_reachable M s'"

text \<open>A run with the events that made it.\<close>

inductive ui_run :: "('s, 'e, 'a) page_machine \<Rightarrow> 'e list \<Rightarrow> 's \<Rightarrow> bool" for M where
  start: "ui_run M [] (pm_start M)"
| move: "ui_run M evs s \<Longrightarrow> ui_step M s ev s' \<Longrightarrow> ui_run M (evs @ [ev]) s'"

lemma ui_run_reachable: "ui_run M evs s \<Longrightarrow> ui_reachable M s"
  by (induction rule: ui_run.induct) (auto intro: ui_reachable.intros)

inductive_cases ui_stepE: "ui_step M s ev s'"

inductive_simps ui_step_iff: "ui_step M s ev s'"

text \<open>A handler of a view-model, then the handlers of the properties it set, in order.\<close>

definition page_event ::
    "('e \<Rightarrow> 'v \<Rightarrow> 'v) \<Rightarrow> ('e \<Rightarrow> 'v \<Rightarrow> 'n list) \<Rightarrow> ('n \<Rightarrow> 'v \<times> 'w \<Rightarrow> 'v \<times> 'w) \<Rightarrow> 'e \<Rightarrow> 'v \<times> 'w \<Rightarrow> 'v \<times> 'w" where
  "page_event handle assigned notify ev s = fold notify (assigned ev (fst s)) (handle ev (fst s), snd s)"

section \<open>The invariant of a page\<close>

locale page_ui =
  fixes M :: "('s, 'e, 'a) page_machine" and inv :: "'s \<Rightarrow> bool"
  assumes inv_start: "inv (pm_start M)"
    and inv_step: "inv s \<Longrightarrow> ui_step M s ev s' \<Longrightarrow> inv s'"
begin

lemma reachable_inv: "ui_reachable M s \<Longrightarrow> inv s"
proof (induction rule: ui_reachable.induct)
  case start
  show ?case by (rule inv_start)
next
  case (move s ev s')
  then show ?case using inv_step by simp
qed

lemma reachable_move: "ui_reachable M s \<Longrightarrow> ui_step M s ev s' \<Longrightarrow> inv s'"
  by (rule inv_step [OF reachable_inv])

end

text \<open>
  A page with user-started work: while some is pending no button can be pressed. \<open>work\<close> counts it.
\<close>

locale exclusive_page = page_ui M inv
  for M :: "('s, 'e, 'a) page_machine" and inv :: "'s \<Rightarrow> bool" +
  fixes work :: "'s \<Rightarrow> nat"
  assumes busy_blocks: "inv s \<Longrightarrow> 0 < work s \<Longrightarrow> pm_buttons M s = []"
begin

lemma click_when_idle:
  assumes "ui_reachable M s" "b \<in> set (pm_buttons M s)"
  shows "work s = 0"
  using busy_blocks [OF reachable_inv [OF assms(1)]] assms(2) by fastforce

lemma started_work_blocks:
  assumes "ui_reachable M s" "ui_step M s ev s'" "0 < work s'"
  shows "pm_buttons M s' = []"
  by (rule busy_blocks [OF reachable_move [OF assms(1,2)] assms(3)])

end

end
