(* ===== verification/FirmwareView.thy ===== *)
theory FirmwareView
  imports PageUI FirmwarePage
begin

text \<open>
  \<open>ui/pages/firmware/view.py\<close>, composed with the page's view-model. The view follows the
  view-model's property notifications; a user can only click a button that is shown and
  sensitive. \<open>firmware_machine\<close> is the page as the user meets it: the events of
  \<open>FirmwarePage\<close>, with the user's restricted to what can be clicked, each followed by the
  notifications of the properties it sets, in order.
\<close>

datatype firmware_action = RefreshClicked | InstallClicked string firmware_release

record firmware_view = "firmware_action page_view" +
  wf_flow :: banner
  wf_reboot :: banner

definition new_firmware_view :: firmware_view where
  "new_firmware_view = page_view.extend new_view \<lparr>wf_flow = ([], False), wf_reboot = ([], False)\<rparr>"

section \<open>Widgets\<close>

definition release_row :: "string \<Rightarrow> firmware_release \<Rightarrow> firmware_action widget" where
  "release_row device_id release =
     (let title = ''Version '' @ fr_version release;
          urgency = (case fr_urgency release of None \<Rightarrow> None | Some u \<Rightarrow> dict_get u URGENCY_TEXT)
      in ActionRow (case urgency of None \<Rightarrow> title | Some text \<Rightarrow> title @ '' '' @ MIDDLE_DOT @ '' '' @ text)
           (or_str (fr_summary release) (or_str (fr_name release) [])) []
           [PushButton (''Install'' @ ELLIPSIS) ''Installing firmware requires administrator authorization.''
              (InstallClicked device_id release)])"

definition device_note :: "device_card \<Rightarrow> string" where
  "device_note c =
     (if dc_upgrade_note c \<noteq> [] then dc_upgrade_note c
      else if dc_update_error c \<noteq> [] then ''last update failed: '' @ dc_update_error c
      else if dc_updatable c then ''up to date''
      else ''updates not supported'')"

definition device_row :: "device_card \<Rightarrow> firmware_action widget" where
  "device_row c =
     (case dc_releases c of
        r # rs \<Rightarrow> ExpanderRow (dc_title c)
           (dc_version_text c @ '' '' @ [CHR 0xE2, CHR 0x86, CHR 0x92] @ '' '' @ fr_version r @ '' available'')
           True [] (List.map (release_row (dc_id c)) (dc_releases c))
      | [] \<Rightarrow> with_tooltip (dc_subtitle c)
           (ActionRow (dc_title c) (dc_version_text c @ '' '' @ EM_DASH @ '' '' @ device_note c) [''property''] []))"

definition firmware_content :: "firmware_vm \<Rightarrow> firmware_action widget list" where
  "firmware_content v =
     PrefGroup ''Firmware Devices''
       [PushButton ''Check for Updates'' ''Download the latest update metadata from LVFS.'' RefreshClicked]
       (List.map device_row (fv_cards v)) #
     (if fv_result_text v \<noteq> []
      then [PrefGroup ''Last Update'' [] [property_row (fv_result_text v) []]] else [])"

section \<open>Notifications\<close>

datatype firmware_notify = NotifyState | NotifyBusy | NotifyFlow | NotifyReboot | NotifyToast

definition firmware_state_changed :: "firmware_vm \<Rightarrow> firmware_view \<Rightarrow> firmware_view" where
  "firmware_state_changed = view_state_changed (\<lambda>v w. w\<lparr>pv_content := firmware_content v\<rparr>)"

text \<open>Showing a toast clears the text that asked for it, and the notification of that is ignored.\<close>

fun notify_view :: "firmware_notify \<Rightarrow> firmware_vm \<times> firmware_view \<Rightarrow> firmware_vm \<times> firmware_view" where
  "notify_view NotifyState (v, w) = (v, firmware_state_changed v w)"
| "notify_view NotifyBusy (v, w) = (v, view_busy_changed (fv_busy_text v) w)"
| "notify_view NotifyFlow (v, w) = (v, w\<lparr>wf_flow := set_banner (fv_flow_banner v)\<rparr>)"
| "notify_view NotifyReboot (v, w) = (v, w\<lparr>wf_reboot := set_banner (fv_reboot_banner v)\<rparr>)"
| "notify_view NotifyToast (v, w) = (v\<lparr>fv_toast_text := []\<rparr>, view_toast (fv_toast_text v) w)"

text \<open>The watched properties an event sets, in order.\<close>

fun assigned :: "firmware_event \<Rightarrow> firmware_vm \<Rightarrow> firmware_notify list" where
  "assigned Load v = [NotifyState]"
| "assigned Changed v = []"
| "assigned Timer v = []"
| "assigned Refresh v = (if fv_busy_text v \<noteq> [] then [] else [NotifyBusy])"
| "assigned (Install d r battery) v =
     (if fv_busy_text v \<noteq> [] then []
      else if \<not> battery_ok_for_update (fst battery) (snd battery) then [NotifyFlow]
      else [NotifyFlow, NotifyBusy])"
| "assigned (Progress p s) v = (if fv_installing v then [NotifyBusy] else [])"
| "assigned (Gathered (Inr data)) v = (if data = [] then [NotifyState] else [NotifyReboot, NotifyState])"
| "assigned (Gathered (Inl e)) v = [NotifyState]"
| "assigned (Refreshed _) v = [NotifyBusy, NotifyToast]"
| "assigned (Installed d r (Inr _)) v = [NotifyBusy]"
| "assigned (Installed d r (Inl e)) v =
     (case e of
        PrivilegedActionDenied _ \<Rightarrow> [NotifyBusy, NotifyToast]
      | FirmwareInstallFailed _ _ \<Rightarrow> [NotifyBusy, NotifyFlow]
      | _ \<Rightarrow> [NotifyBusy, NotifyState])"

definition firmware_ui :: "firmware_event \<Rightarrow> firmware_vm \<times> firmware_view \<Rightarrow> firmware_vm \<times> firmware_view" where
  "firmware_ui = page_event handle assigned notify_view"

section \<open>The page as the user meets it\<close>

text \<open>The constructor loads the page once; the user's events are clicks.\<close>

definition new_firmware_ui :: "firmware_vm \<times> firmware_view" where
  "new_firmware_ui = firmware_ui Load (new_firmware_page, new_firmware_view)"

fun firmware_click :: "firmware_event \<Rightarrow> firmware_action option" where
  "firmware_click Refresh = Some RefreshClicked"
| "firmware_click (Install d r _) = Some (InstallClicked d r)"
| "firmware_click _ = None"

definition firmware_machine :: "(firmware_vm \<times> firmware_view, firmware_event, firmware_action) page_machine" where
  "firmware_machine = \<lparr>pm_start = new_firmware_ui, pm_signal = (\<lambda>ev s. ev \<noteq> Load \<and> enabled ev (fst s)),
     pm_click = firmware_click, pm_buttons = (\<lambda>s. clickable (snd s)), pm_event = firmware_ui\<rparr>"

abbreviation firmware_ui_reachable :: "firmware_vm \<times> firmware_view \<Rightarrow> bool" where
  "firmware_ui_reachable \<equiv> ui_reachable firmware_machine"

lemma firmware_ui_apply: "firmware_ui ev (v, w) = fold notify_view (assigned ev v) (handle ev v, w)"
  by (simp add: firmware_ui_def page_event_def)

section \<open>The view follows the view-model\<close>

definition offered :: "firmware_vm \<Rightarrow> firmware_action list" where
  "offered v = concat (List.map (\<lambda>c. List.map (InstallClicked (dc_id c)) (dc_releases c)) (fv_cards v))"

lemma release_row_actions [simp]: "actions (release_row d r) = [InstallClicked d r]"
  by (simp add: release_row_def Let_def)

lemma device_row_actions [simp]: "actions (device_row c) = List.map (InstallClicked (dc_id c)) (dc_releases c)"
  by (simp add: device_row_def comp_def concat_map_singleton split: list.split)

lemma firmware_content_actions: "all_actions (firmware_content v) = RefreshClicked # offered v"
  by (simp add: firmware_content_def offered_def comp_def)

definition firmware_ui_inv :: "firmware_vm \<times> firmware_view \<Rightarrow> bool" where
  "firmware_ui_inv s \<longleftrightarrow>
     (case s of (v, w) \<Rightarrow>
       firmware_inv v \<and> fv_toast_text v = [] \<and> pv_visible w = pg_state v \<and>
       pv_busy w = set_banner (fv_busy_text v) \<and> pv_sensitive w = (fv_busy_text v = []) \<and>
       wf_flow w = set_banner (fv_flow_banner v) \<and> wf_reboot w = set_banner (fv_reboot_banner v) \<and>
       (pg_state v = Ready \<longrightarrow> all_actions (pv_content w) = RefreshClicked # offered v))"

lemma handle_error_page [simp]:
  "fv_flow_banner (handle_error e v) = fv_flow_banner v" "fv_reboot_banner (handle_error e v) = fv_reboot_banner v"
  "fv_toast_text (handle_error e v) = fv_toast_text v" "fv_cards (handle_error e v) = fv_cards v"
  "pg_state (handle_error e v) \<noteq> Ready"
  by (cases e; simp add: page_defs)+

text \<open>Invariants of the view-model alone do not read the toast text.\<close>

lemma firmware_inv_toast [simp]: "firmware_inv (v\<lparr>fv_toast_text := t\<rparr>) = firmware_inv v"
  by (simp add: firmware_inv_def exclusive_def)

lemma offered_cong: "fv_cards v' = fv_cards v \<Longrightarrow> offered v' = offered v"
  by (simp add: offered_def)

lemma notify_fst: "fst (fold notify_view ns (v, w)) \<in> {v, v\<lparr>fv_toast_text := []\<rparr>}"
proof (induction ns arbitrary: v w)
  case (Cons n ns)
  show ?case using Cons.IH [of v] Cons.IH [of "v\<lparr>fv_toast_text := []\<rparr>"] by (cases n) auto
qed simp

definition in_sync :: "firmware_vm \<times> firmware_view \<Rightarrow> bool" where
  "in_sync s \<longleftrightarrow>
     (case s of (v, w) \<Rightarrow>
       fv_toast_text v = [] \<and> pv_visible w = pg_state v \<and>
       pv_busy w = set_banner (fv_busy_text v) \<and> pv_sensitive w = (fv_busy_text v = []) \<and>
       wf_flow w = set_banner (fv_flow_banner v) \<and> wf_reboot w = set_banner (fv_reboot_banner v) \<and>
       (pg_state v = Ready \<longrightarrow> all_actions (pv_content w) = RefreshClicked # offered v))"

lemma firmware_ui_inv_alt: "firmware_ui_inv s \<longleftrightarrow> firmware_inv (fst s) \<and> in_sync s"
  by (cases s) (simp add: firmware_ui_inv_def in_sync_def)

lemma fields_unchanged [simp]:
  "offered (v\<lparr>fv_jobs := j\<rparr>) = offered v" "offered (v\<lparr>fv_busy_text := t\<rparr>) = offered v"
  "offered (v\<lparr>fv_toast_text := t\<rparr>) = offered v" "offered (v\<lparr>fv_installing := b\<rparr>) = offered v"
  "offered (v\<lparr>fv_result_text := t\<rparr>) = offered v" "offered (v\<lparr>fv_flow_banner := t\<rparr>) = offered v"
  "offered (v\<lparr>fv_timers := n\<rparr>) = offered v" "offered (v\<lparr>fv_reload_pending := b\<rparr>) = offered v"
  "offered (v\<lparr>pg_state := p\<rparr>) = offered v" "offered (v\<lparr>fv_reboot_banner := t\<rparr>) = offered v"
  by (simp_all add: offered_def)

lemma firmware_state_changed_fields [simp]:
  "pv_busy (firmware_state_changed v w) = pv_busy w" "pv_sensitive (firmware_state_changed v w) = pv_sensitive w"
  "wf_flow (firmware_state_changed v w) = wf_flow w" "wf_reboot (firmware_state_changed v w) = wf_reboot w"
  "pv_visible (firmware_state_changed v w) = pg_state v"
  "pg_state v = Ready \<Longrightarrow> pv_content (firmware_state_changed v w) = firmware_content v"
  by (simp_all add: firmware_state_changed_def view_state_changed_def split: page_state.split)

lemma in_sync_ui: "in_sync (v, w) \<Longrightarrow> in_sync (fold notify_view (assigned ev v) (handle ev v, w))"
proof (induction ev v rule: handle.induct)
  case (12 d r e v)
  then show ?case
    by (cases e; simp add: in_sync_def view_busy_changed_def view_toast_def set_banner_def step_defs Let_def del: handle_error.simps)
qed (auto simp: in_sync_def view_busy_changed_def view_toast_def set_banner_def step_defs
       firmware_content_actions Let_def simp del: handle_error.simps)

lemma firmware_ui_inv_step: "firmware_ui_inv s \<Longrightarrow> enabled ev (fst s) \<Longrightarrow> firmware_ui_inv (firmware_ui ev s)"
  using firmware_inv_handle [of "fst s" ev] in_sync_ui [of "fst s" "snd s" ev]
    notify_fst [of "assigned ev (fst s)" "handle ev (fst s)" "snd s"]
  by (cases s) (auto simp: firmware_ui_inv_alt firmware_ui_apply)

lemma firmware_ui_inv_start: "firmware_ui_inv new_firmware_ui"
proof -
  have "firmware_inv (handle Load new_firmware_page)" by (rule firmware_inv_handle [OF firmware_inv_init]) simp
  then have "firmware_inv (fst new_firmware_ui)" by (simp add: new_firmware_ui_def firmware_ui_apply)
  moreover have "in_sync new_firmware_ui"
    by (simp add: new_firmware_ui_def firmware_ui_apply in_sync_def step_defs new_firmware_page_def new_firmware_view_def
        new_view_def page_view.defs set_banner_def)
  ultimately show ?thesis by (simp add: firmware_ui_inv_alt)
qed

lemma click_enabled: "firmware_click ev = Some a \<Longrightarrow> enabled ev v"
  by (cases ev) simp_all

text \<open>At most one refresh or install is pending, and then no button can be pressed.\<close>

interpretation firmware_page: exclusive_page firmware_machine firmware_ui_inv "\<lambda>s. length (exclusive (fst s))"
proof (unfold_locales, goal_cases)
  case 1
  show ?case by (simp add: firmware_machine_def firmware_ui_inv_start)
next
  case (2 s ev s')
  then have "enabled ev (fst s)" "s' = firmware_ui ev s"
    by (auto simp: firmware_machine_def elim!: ui_stepE intro: click_enabled)
  with 2 firmware_ui_inv_step show ?case by simp
next
  case (3 s)
  then have "fv_busy_text (fst s) \<noteq> []" by (auto simp: firmware_ui_inv_def firmware_inv_def split: prod.splits if_splits)
  with 3 show ?case by (auto simp: firmware_machine_def firmware_ui_inv_def clickable_def split: prod.splits)
qed

section \<open>Properties\<close>

lemma low_battery_nonempty [simp]: "low_battery_text l t \<noteq> []"
  by (simp add: low_battery_text_def)

text \<open>C9: A click never goes astray: in every state the page reaches under user clicks, daemon signals and
  completions, an Install button that can be pressed belongs to a release offered for that
  device, nothing else is running, and pressing it either starts that install, after which no
  button can be pressed, or tells the user that the battery is too low and starts nothing.\<close>

theorem install_click_effective:
  assumes "firmware_ui_reachable (v, w)" "InstallClicked d r \<in> set (clickable w)"
  shows "(\<exists>c. c \<in> set (fv_cards v) \<and> dc_id c = d \<and> r \<in> set (dc_releases c)) \<and>
    filter (\<lambda>j. j \<noteq> GatherJob) (fv_jobs v) = [] \<and>
    (case firmware_ui (Install d r battery) (v, w) of (v', w') \<Rightarrow>
       if battery_ok_for_update (fst battery) (snd battery)
       then fv_jobs v' = fv_jobs v @ [InstallJob d r] \<and> clickable w' = []
       else fv_jobs v' = fv_jobs v \<and> wf_flow w' = (low_battery_text (fst battery) (snd battery), True))"
proof -
  have inv: "firmware_inv v" "in_sync (v, w)"
    using firmware_page.reachable_inv [OF assms(1)] by (simp_all add: firmware_ui_inv_alt)
  from assms(2) have shown: "pv_visible w = Ready" "pv_sensitive w" "InstallClicked d r \<in> set (all_actions (pv_content w))"
    by (simp_all add: clickable_def split: if_splits)
  with inv(2) have idle: "fv_busy_text v = []" "InstallClicked d r \<in> set (offered v)" by (simp_all add: in_sync_def)
  have "exclusive v = []" using inv(1) idle(1) by (simp add: firmware_inv_def)
  then have "filter (\<lambda>j. j \<noteq> GatherJob) (fv_jobs v) = []" by (simp add: exclusive_def)
  moreover have "\<exists>c. c \<in> set (fv_cards v) \<and> dc_id c = d \<and> r \<in> set (dc_releases c)"
    using idle(2) by (auto simp: offered_def)
  ultimately show ?thesis
    using idle(1) by (simp add: firmware_ui_apply request_install_def submit_job_def view_busy_changed_def set_banner_def clickable_def)
qed

theorem install_click_effective_witness:
  "\<exists>v w. firmware_ui_reachable (v, w) \<and>
     InstallClicked ''dev'' (blank_release ''2'') \<in> set (clickable w) \<and>
     fv_jobs (fst (firmware_ui (Install ''dev'' (blank_release ''2'') (Some 80, Some 30)) (v, w))) =
       fv_jobs v @ [InstallJob ''dev'' (blank_release ''2'')]"
proof -
  let ?dev = "(blank_device ''dev'')\<lparr>fd_updatable := True\<rparr>"
  let ?ev = "Gathered (Inr [(?dev, [blank_release ''2''], [])])"
  let ?s = "firmware_ui ?ev new_firmware_ui"
  have "enabled ?ev (fst new_firmware_ui)" by code_simp
  then have "ui_step firmware_machine (pm_start firmware_machine) ?ev ?s" by (simp add: ui_step_iff firmware_machine_def)
  then have reach: "firmware_ui_reachable (fst ?s, snd ?s)" using ui_reachable.move [OF ui_reachable.start] by simp
  have "pv_visible (snd ?s) = Ready" "pv_sensitive (snd ?s)"
    "InstallClicked ''dev'' (blank_release ''2'') \<in> set (all_actions (pv_content (snd ?s)))" by code_simp+
  then have shown: "InstallClicked ''dev'' (blank_release ''2'') \<in> set (clickable (snd ?s))" by (simp add: clickable_def)
  have ok: "battery_ok_for_update (Some 80) (Some 30)" by code_simp
  obtain v w where "?s = (v, w)" by (metis surj_pair)
  with reach shown have vw: "firmware_ui_reachable (v, w)" "InstallClicked ''dev'' (blank_release ''2'') \<in> set (clickable w)"
    by simp_all
  have "fv_jobs (fst (firmware_ui (Install ''dev'' (blank_release ''2'') (Some 80, Some 30)) (v, w))) =
      fv_jobs v @ [InstallJob ''dev'' (blank_release ''2'')]"
    using install_click_effective [OF vw, of "(Some 80, Some 30)"] ok by (simp add: split_beta)
  with vw show ?thesis by blast
qed

end
