(* ===== verification/PageViews.thy ===== *)
theory PageViews
  imports Widgets StoragePage HardwarePage BatteryPage
begin

text \<open>
  The remaining page views, \<open>ui/pages/{storage,diagnostics,battery,dashboard,hardware,placeholder}/view.py\<close>:
  what each builds from its view-model when the page becomes ready, and its handlers of other
  notifications. The firmware page has a theory of its own, \<open>FirmwareView\<close>.
\<close>

section \<open>Storage\<close>

datatype storage_action = ReadHealthClicked

definition storage_device_row :: "storage_card \<Rightarrow> 'a widget" where
  "storage_device_row c =
     (if sc_health_rows c = []
      then ActionRow (sc_title c)
             (if sc_health_note c \<noteq> [] then sc_subtitle c @ '' '' @ EM_DASH @ '' '' @ sc_health_note c else sc_subtitle c)
             [''property''] []
      else ExpanderRow (sc_title c) (sc_subtitle c) True
             [TextLabel (sc_health_summary c) (if sc_health_failed c then ''error'' else ''success'')]
             (List.map (\<lambda>(label, v). property_row label v) (sc_health_rows c)))"

definition storage_content :: "storage_vm \<Rightarrow> storage_action widget list" where
  "storage_content v =
     [PrefGroup ''Storage Devices''
       [PushButton ''Read Health'' ''Reading SMART health requires administrator authorization.'' ReadHealthClicked]
       (List.map storage_device_row (sv_cards v))]"

definition storage_state_changed ::
    "storage_vm \<Rightarrow> storage_action page_view \<Rightarrow> storage_action page_view" where
  "storage_state_changed = view_state_changed (\<lambda>v w. w\<lparr>pv_content := storage_content v\<rparr>)"

text \<open>Showing a toast clears its text again.\<close>

definition storage_toast ::
    "storage_vm \<times> storage_action page_view \<Rightarrow> storage_vm \<times> storage_action page_view" where
  "storage_toast s = ((fst s)\<lparr>sv_toast_text := []\<rparr>, view_toast (sv_toast_text (fst s)) (snd s))"

section \<open>Diagnostics\<close>

datatype diagnostics_action = RunClicked | ExportClicked

definition run_button :: "string \<Rightarrow> diagnostics_action widget" where
  "run_button label =
     PushButton label ''Includes storage health, which requires administrator authorization.'' RunClicked"

definition status_suffix :: "check_card \<Rightarrow> 'a widget" where
  "status_suffix c = TextLabel (cc_status_text c) (cc_status_css c)"

definition check_row :: "check_card \<Rightarrow> 'a widget" where
  "check_row c =
     (if cc_evidence c = [] then ActionRow (cc_title c) (cc_subtitle c) [] [status_suffix c]
      else ExpanderRow (cc_title c) (cc_subtitle c) False [status_suffix c]
             (List.map (\<lambda>(label, v). property_row label v) (cc_evidence c)))"

definition diagnostics_content :: "diagnostics_vm \<Rightarrow> diagnostics_action widget list" where
  "diagnostics_content v =
     (if dv_cards v = []
      then [StatusPage (''Check This Machine'' @ [CHR 0x27] @ ''s Health'')
              (''Five quick checks: battery wear, storage health, firmware '' @
               ''currency, temperatures, and disk space. Takes a few seconds.'')
              [run_button ''Run Diagnostics'']]
      else
        [PrefGroup ''Health Score''
           ((if can_export v
             then [PushButton (''Export'' @ ELLIPSIS)
                     ''Save this report as Markdown, HTML, or JSON. Identifiers are excluded.'' ExportClicked]
             else []) @ [run_button ''Run Again''])
           [property_row (dv_score_text v) (dv_coverage_text v)],
         PrefGroup ''Checks'' [] (List.map check_row (dv_cards v))])"

definition diagnostics_state_changed ::
    "diagnostics_vm \<Rightarrow> (diagnostics_action, 'y) page_view_scheme \<Rightarrow> (diagnostics_action, 'y) page_view_scheme" where
  "diagnostics_state_changed = view_state_changed (\<lambda>v w. w\<lparr>pv_content := diagnostics_content v\<rparr>)"

definition EXPORT_FILTERS :: "(string \<times> string) list" where
  "EXPORT_FILTERS = [(''Markdown'', ''*.md''), (''HTML'', ''*.html''), (''JSON'', ''*.json'')]"

text \<open>
  The file dialog's answer: None when it was dismissed, else the local path of the chosen file,
  which a file elsewhere does not have.
\<close>

definition export_chosen :: "string option option \<Rightarrow> diagnostics_vm \<Rightarrow> diagnostics_vm" where
  "export_chosen answer v =
     (case answer of
        None \<Rightarrow> v
      | Some path \<Rightarrow> if or_str path [] \<noteq> [] then start_export (or_str path []) v else v)"

section \<open>Battery\<close>

fun HEALTH_CSS :: "health_class \<Rightarrow> string" where
  "HEALTH_CSS Good = ''success''"
| "HEALTH_CSS Fair = ''warning''"
| "HEALTH_CSS Poor = ''error''"
| "HEALTH_CSS HealthUnknown = ''dim-label''"

record battery_view = "unit page_view" +
  wb_status :: banner

definition battery_groups :: "battery_card \<Rightarrow> 'a widget list" where
  "battery_groups c =
     PrefGroup (bc_title c) []
       [property_row ''Charge''
          (if bc_time_text c \<noteq> [] then bc_charge_text c @ '' '' @ MIDDLE_DOT @ '' '' @ bc_time_text c else bc_charge_text c),
        ActionRow ''Health'' (bc_health_text c @ '' '' @ MIDDLE_DOT @ '' '' @ bc_wear_text c)
          [''property'', HEALTH_CSS (bc_health_class c)] [],
        property_row ''Cycle Count'' (bc_cycles_text c),
        property_row ''Capacity'' (bc_capacity_text c)] #
     (if bc_history c \<noteq> []
      then [PrefGroup ''Wear Over Time'' [] [ChartRow (set_points (bc_history c) new_chart)]] else [])"

definition battery_content :: "battery_vm \<Rightarrow> 'a widget list" where
  "battery_content v = concat (List.map battery_groups (bv_cards v))"

definition battery_state_changed :: "battery_vm \<Rightarrow> battery_view \<Rightarrow> battery_view" where
  "battery_state_changed = view_state_changed (\<lambda>v w.
     w\<lparr>wb_status := set_banner (bv_status_note v), pv_content := battery_content v\<rparr>)"

section \<open>Dashboard\<close>

record dashboard_view = "unit page_view" +
  wd_banner_revealed :: bool
  wd_rows :: "string list"
    \<comment> \<open>the subtitles of the seven rows of the template, in its order\<close>
  wd_health :: "string \<times> string"
  wd_health_visible :: bool

definition dashboard_rows :: "dashboard_vm \<Rightarrow> string list" where
  "dashboard_rows v = [da_model v, da_machine_type v, da_vendor v, da_bios v, da_distro v, da_kernel v, da_uptime v]"

definition dashboard_state_changed :: "dashboard_vm \<Rightarrow> dashboard_view \<Rightarrow> dashboard_view" where
  "dashboard_state_changed = view_state_changed (\<lambda>v w.
     w\<lparr>wd_rows := dashboard_rows v, wd_banner_revealed := \<not> da_is_thinkpad v\<rparr>)"

definition dashboard_health_changed :: "dashboard_vm \<Rightarrow> dashboard_view \<Rightarrow> dashboard_view" where
  "dashboard_health_changed v w =
     (if da_health_score v \<noteq> []
      then w\<lparr>wd_health := (da_health_score v, da_health_coverage v), wd_health_visible := True\<rparr> else w)"

section \<open>Hardware\<close>

text \<open>\<open>s.strip(" \<cdot>")\<close>: the middle dot is one character of two bytes.\<close>

definition strip_dots :: "string \<Rightarrow> string" where
  "strip_dots s = (let dot = (\<lambda>c. c \<in> {'' '', MIDDLE_DOT}) in concat (rdropWhile dot (dropWhile dot (chars s))))"

text \<open>An optional text in an f-string.\<close>

definition str_of :: "string option \<Rightarrow> string" where
  "str_of x = (case x of None \<Rightarrow> ''None'' | Some s \<Rightarrow> s)"

definition pci_row :: "pci_device \<Rightarrow> unit widget" where
  "pci_row d = ActionRow
     (or_str (pci_vendor d) ''?'' @ '' '' @ EM_DASH @ '' '' @ or_str (pci_device_name d) ''?'')
     (strip_dots (pci_slot d @ '' '' @ MIDDLE_DOT @ '' '' @ or_str (pci_device_class d) [])) [] []"

definition usb_row :: "usb_device \<Rightarrow> unit widget" where
  "usb_row d = ActionRow (or_str (usb_name d) ''Unknown device'')
     (str_of (usb_vendor_id d) @ '':'' @ str_of (usb_product_id d) @ '' '' @ MIDDLE_DOT @ '' '' @
      ''bus '' @ usb_bus d @ '' device '' @ str_of (usb_device_no d)) [] []"

text \<open>An expander of the template: its subtitle, whether it can be expanded, and its rows.\<close>

record expander =
  ex_subtitle :: string
  ex_enabled :: bool
  ex_rows :: "unit widget list"

datatype which_expander = PciExpander | UsbExpander

record hardware_view = "unit page_view" +
  wh_rows :: "string list"
  wh_pci :: expander
  wh_usb :: expander
  wh_device_rows :: "(which_expander \<times> unit widget) list"
    \<comment> \<open>the rows added so far, with the expander they are in\<close>

definition fill_expander :: "string \<Rightarrow> nat \<Rightarrow> expander \<Rightarrow> expander" where
  "fill_expander note n x =
     (if note \<noteq> [] then x\<lparr>ex_subtitle := note, ex_enabled := False\<rparr>
      else x\<lparr>ex_subtitle := show_int (int n) @ '' devices'', ex_enabled := True\<rparr>)"

definition remove_row :: "which_expander \<times> unit widget \<Rightarrow> hardware_view \<Rightarrow> hardware_view" where
  "remove_row r w = (case fst r of
     PciExpander \<Rightarrow> w\<lparr>wh_pci := (wh_pci w)\<lparr>ex_rows := remove1 (snd r) (ex_rows (wh_pci w))\<rparr>\<rparr>
   | UsbExpander \<Rightarrow> w\<lparr>wh_usb := (wh_usb w)\<lparr>ex_rows := remove1 (snd r) (ex_rows (wh_usb w))\<rparr>\<rparr>)"

definition add_row :: "which_expander \<Rightarrow> unit widget \<Rightarrow> hardware_view \<Rightarrow> hardware_view" where
  "add_row e r w =
     (case e of
        PciExpander \<Rightarrow> w\<lparr>wh_pci := (wh_pci w)\<lparr>ex_rows := ex_rows (wh_pci w) @ [r]\<rparr>\<rparr>
      | UsbExpander \<Rightarrow> w\<lparr>wh_usb := (wh_usb w)\<lparr>ex_rows := ex_rows (wh_usb w) @ [r]\<rparr>\<rparr>)
     \<lparr>wh_device_rows := wh_device_rows w @ [(e, r)]\<rparr>"

definition fill_hardware :: "hardware_vm \<Rightarrow> hardware_view \<Rightarrow> hardware_view" where
  "fill_hardware v w =
     (let w1 = w\<lparr>wh_rows := [hw_family v, hw_machine_type v, hw_board v, hw_bios_version v, hw_bios_date v,
                             hw_cpu_model v, hw_cpu_count v, hw_memory v]\<rparr>;
          w2 = (fold remove_row (wh_device_rows w1) w1)\<lparr>wh_device_rows := []\<rparr>;
          w3 = w2\<lparr>wh_pci := fill_expander (hw_pci_note v) (length (hw_pci_devices v)) (wh_pci w2)\<rparr>;
          w4 = fold (add_row PciExpander) (List.map pci_row (hw_pci_devices v)) w3;
          w5 = w4\<lparr>wh_usb := fill_expander (hw_usb_note v) (length (hw_usb_devices v)) (wh_usb w4)\<rparr>
      in fold (add_row UsbExpander) (List.map usb_row (hw_usb_devices v)) w5)"

definition hardware_state_changed :: "hardware_vm \<Rightarrow> hardware_view \<Rightarrow> hardware_view" where
  "hardware_state_changed = view_state_changed fill_hardware"

section \<open>The reference page\<close>

definition placeholder_sync :: "page_vm \<Rightarrow> unit page_view \<Rightarrow> unit page_view" where
  "placeholder_sync = view_state_changed (\<lambda>v w. w)"

text \<open>
  The smoke test's timer: one state further per call, each followed by the notification of the
  new state; it is renewed while the result is True.
\<close>

record smoke =
  sm_steps :: int
  sm_vm :: page_vm
  sm_view :: "unit page_view"

definition smoke_advance :: "smoke \<Rightarrow> bool \<times> smoke" where
  "smoke_advance s =
     (let v = snd (advance (sm_vm s)); steps = sm_steps s - 1;
          s' = s\<lparr>sm_vm := v, sm_view := placeholder_sync v (sm_view s), sm_steps := steps\<rparr>
      in (\<not> steps \<le> 0, s'))"

function smoke_timer :: "smoke \<Rightarrow> page_state list" where
  "smoke_timer s =
     (case smoke_advance s of (again, s') \<Rightarrow>
        pv_visible (sm_view s') # (if again then smoke_timer s' else []))"
  by pat_completeness auto

termination
  by (relation "Wellfounded.measure (\<lambda>s. nat (sm_steps s))") (auto simp: smoke_advance_def Let_def)

definition start_smoke :: smoke where
  "start_smoke = \<lparr>sm_steps = int (length STATES), sm_vm = new_page, sm_view = placeholder_sync new_page new_view\<rparr>"

section \<open>What the buttons of a page do\<close>

lemma property_rows_actions [simp]: "concat (List.map actions (List.map (\<lambda>(l, t). property_row l t) rs)) = []"
  by (induction rs) auto

lemma storage_row_actions [simp]: "actions (storage_device_row c) = []"
  by (simp add: storage_device_row_def del: List.map_map map_map)

lemma check_row_actions [simp]: "actions (check_row c) = []"
  by (simp add: check_row_def status_suffix_def del: List.map_map map_map)

lemma storage_content_actions: "all_actions (storage_content v) = [ReadHealthClicked]"
  by (simp add: storage_content_def comp_def)

lemma diagnostics_content_actions:
  "all_actions (diagnostics_content v) = (if dv_cards v \<noteq> [] \<and> can_export v then [ExportClicked, RunClicked] else [RunClicked])"
  by (simp add: diagnostics_content_def run_button_def comp_def)

text \<open>A drive whose report says it is failing stands out, and no other does.\<close>

lemma failing_drive_row:
  assumes "dict_get (sc_name c) results = Some (Some r, note)" "health_rows_of r \<noteq> []"
  shows "storage_device_row (update_card results c) =
    ExpanderRow (sc_title c) (sc_subtitle c) True
      [TextLabel (fst (health_summary_of r)) (if sr_passed r = Some False then ''error'' else ''success'')]
      (List.map (\<lambda>(label, v). property_row label v) (health_rows_of r))"
  using assms by (simp add: storage_device_row_def update_card_def health_summary_of_def)

lemma storage_click_effective:
  assumes "pg_state v = Ready" "sv_busy_text v = []" "sv_cards v \<noteq> []"
  shows "sv_jobs (read_health v) = sv_jobs v @ [HealthJob (List.map sc_name (sv_cards v))]"
    "clickable (view_busy_changed (sv_busy_text (read_health v)) w) = []"
  using assms by (simp_all add: read_health_def view_busy_changed_def clickable_def)

text \<open>The Export button is only there with a report and a writer, and then an answered dialog starts the export.\<close>

lemma export_click_effective:
  assumes "ExportClicked \<in> set (all_actions (diagnostics_content v))" "dv_busy_text v = []" "p \<noteq> []"
  shows "dv_jobs (export_chosen (Some (Some p)) v) = dv_jobs v @ [ExportJob p]"
  using assms by (auto simp: diagnostics_content_actions export_chosen_def start_export_def or_str_def split: if_splits list.splits)

lemma dismissed_dialog: "export_chosen None v = v" "export_chosen (Some None) v = v"
  by (simp_all add: export_chosen_def or_str_def)

section \<open>Rebuilding the hardware page\<close>

definition hardware_view_ok :: "hardware_view \<Rightarrow> bool" where
  "hardware_view_ok w \<longleftrightarrow>
     wh_device_rows w = List.map (Pair PciExpander) (ex_rows (wh_pci w)) @ List.map (Pair UsbExpander) (ex_rows (wh_usb w))"

lemma remove_pci_rows:
  "ex_rows (wh_pci w) = rs @ qs \<Longrightarrow>
   ex_rows (wh_pci (fold remove_row (List.map (Pair PciExpander) rs) w)) = qs \<and>
   wh_usb (fold remove_row (List.map (Pair PciExpander) rs) w) = wh_usb w"
  by (induction rs arbitrary: w) (simp_all add: remove_row_def)

lemma remove_usb_rows:
  "ex_rows (wh_usb w) = rs @ qs \<Longrightarrow>
   ex_rows (wh_usb (fold remove_row (List.map (Pair UsbExpander) rs) w)) = qs \<and>
   wh_pci (fold remove_row (List.map (Pair UsbExpander) rs) w) = wh_pci w"
  by (induction rs arbitrary: w) (simp_all add: remove_row_def)

lemma remove_all_rows:
  assumes "hardware_view_ok w"
  shows "ex_rows (wh_pci (fold remove_row (wh_device_rows w) w)) = []"
    "ex_rows (wh_usb (fold remove_row (wh_device_rows w) w)) = []"
proof -
  let ?w = "fold remove_row (List.map (Pair PciExpander) (ex_rows (wh_pci w))) w"
  have "ex_rows (wh_pci ?w) = []" "wh_usb ?w = wh_usb w" using remove_pci_rows [of w "ex_rows (wh_pci w)" "[]"] by simp_all
  then show "ex_rows (wh_pci (fold remove_row (wh_device_rows w) w)) = []"
    "ex_rows (wh_usb (fold remove_row (wh_device_rows w) w)) = []"
    using assms remove_usb_rows [of ?w "ex_rows (wh_usb w)" "[]"] by (simp_all add: hardware_view_ok_def)
qed

lemma add_rows:
  "fold (add_row PciExpander) rs w =
     w\<lparr>wh_pci := (wh_pci w)\<lparr>ex_rows := ex_rows (wh_pci w) @ rs\<rparr>,
       wh_device_rows := wh_device_rows w @ List.map (Pair PciExpander) rs\<rparr>"
  "fold (add_row UsbExpander) rs w =
     w\<lparr>wh_usb := (wh_usb w)\<lparr>ex_rows := ex_rows (wh_usb w) @ rs\<rparr>,
       wh_device_rows := wh_device_rows w @ List.map (Pair UsbExpander) rs\<rparr>"
  by (induction rs arbitrary: w) (simp_all add: add_row_def)

lemma remove_rows_other [simp]:
  "wh_rows (fold remove_row rs w) = wh_rows w" "wh_device_rows (fold remove_row rs w) = wh_device_rows w"
  by (induction rs arbitrary: w) (auto simp: remove_row_def split: which_expander.split)

text \<open>However often the page is filled, it lists exactly the devices of the last fill.\<close>

lemma hardware_rows_fresh:
  assumes "hardware_view_ok w"
  shows "ex_rows (wh_pci (fill_hardware v w)) = List.map pci_row (hw_pci_devices v)"
    "ex_rows (wh_usb (fill_hardware v w)) = List.map usb_row (hw_usb_devices v)"
    "hardware_view_ok (fill_hardware v w)"
proof -
  let ?w = "w\<lparr>wh_rows := [hw_family v, hw_machine_type v, hw_board v, hw_bios_version v, hw_bios_date v,
    hw_cpu_model v, hw_cpu_count v, hw_memory v]\<rparr>"
  have "hardware_view_ok ?w" using assms by (simp add: hardware_view_ok_def)
  from remove_all_rows [OF this]
  show "ex_rows (wh_pci (fill_hardware v w)) = List.map pci_row (hw_pci_devices v)"
    "ex_rows (wh_usb (fill_hardware v w)) = List.map usb_row (hw_usb_devices v)"
    "hardware_view_ok (fill_hardware v w)"
    by (simp_all add: fill_hardware_def Let_def add_rows fill_expander_def hardware_view_ok_def)
qed

section \<open>The smoke cycle\<close>

declare smoke_timer.simps [simp del]

text \<open>The reference page's smoke timer ends after one call per page state and shows every state exactly
  once, whatever the state it starts in, ending where it began.\<close>

lemma smoke_visits_all:
  "distinct (smoke_timer \<lparr>sm_steps = int (length STATES), sm_vm = v, sm_view = w\<rparr>) \<and>
   set (smoke_timer \<lparr>sm_steps = int (length STATES), sm_vm = v, sm_view = w\<rparr>) = set STATES \<and>
   last (smoke_timer \<lparr>sm_steps = int (length STATES), sm_vm = v, sm_view = w\<rparr>) = pg_state v"
proof -
  define nxt where "nxt = (\<lambda>p. case p of Loading \<Rightarrow> Ready | Ready \<Rightarrow> Unavailable | Unavailable \<Rightarrow> PageError | PageError \<Rightarrow> Loading)"
  have state: "pg_state (snd (advance u)) = nxt (pg_state u)" for u by (simp add: advance_state advance_order nxt_def)
  have "smoke_timer \<lparr>sm_steps = int (length STATES), sm_vm = v, sm_view = w\<rparr> =
      [nxt (pg_state v), nxt (nxt (pg_state v)), nxt (nxt (nxt (pg_state v))), nxt (nxt (nxt (nxt (pg_state v))))]"
    by (simp add: smoke_timer.simps smoke_advance_def Let_def placeholder_sync_def STATES_def state)
  then show ?thesis by (cases "pg_state v") (auto simp: nxt_def STATES_def)
qed

end
