(* ===== verification/StorageView.thy ===== *)
theory StorageView
  imports PageUI PageViews
begin

text \<open>
  \<open>ui/pages/storage/view.py\<close> composed with the page's view-model: the events of the page, each
  followed by the notifications of the properties it sets. The constructor of the view loads the
  page; the user has one button.
\<close>

datatype storage_event =
    LoadStorage
  | Listed "storage_device list"
  | ListFailed exn
  | ReadHealth
  | HealthRead "string list" health_results
  | HealthFailed "string list" exn

fun storage_handle :: "storage_event \<Rightarrow> storage_vm \<Rightarrow> storage_vm" where
  "storage_handle LoadStorage v = load_storage v"
| "storage_handle (Listed devices) v = apply_storage devices (complete_storage_job InventoryJob v)"
| "storage_handle (ListFailed e) v = storage_load_failed e (complete_storage_job InventoryJob v)"
| "storage_handle ReadHealth v = read_health v"
| "storage_handle (HealthRead names results) v = health_done results (complete_storage_job (HealthJob names) v)"
| "storage_handle (HealthFailed names e) v = health_failed e (complete_storage_job (HealthJob names) v)"

datatype storage_notify = StorageState | StorageBusy | StorageToast

fun storage_assigned :: "storage_event \<Rightarrow> storage_vm \<Rightarrow> storage_notify list" where
  "storage_assigned LoadStorage v = [StorageState]"
| "storage_assigned (Listed devices) v = [StorageState]"
| "storage_assigned (ListFailed e) v = [StorageState]"
| "storage_assigned ReadHealth v = (if sv_busy_text v \<noteq> [] \<or> sv_cards v = [] then [] else [StorageBusy])"
| "storage_assigned (HealthRead names results) v = [StorageBusy, StorageState]"
| "storage_assigned (HealthFailed names e) v = [StorageBusy, StorageToast]"

type_synonym storage_ui_state = "storage_vm \<times> storage_action page_view"

fun storage_notified :: "storage_notify \<Rightarrow> storage_ui_state \<Rightarrow> storage_ui_state" where
  "storage_notified StorageState (v, w) = (v, storage_state_changed v w)"
| "storage_notified StorageBusy (v, w) = (v, view_busy_changed (sv_busy_text v) w)"
| "storage_notified StorageToast s = storage_toast s"

definition storage_ui :: "storage_event \<Rightarrow> storage_ui_state \<Rightarrow> storage_ui_state" where
  "storage_ui = page_event storage_handle storage_assigned storage_notified"

fun storage_click :: "storage_event \<Rightarrow> storage_action option" where
  "storage_click ReadHealth = Some ReadHealthClicked"
| "storage_click _ = None"

fun storage_enabled :: "storage_event \<Rightarrow> storage_vm \<Rightarrow> bool" where
  "storage_enabled (Listed _) v \<longleftrightarrow> InventoryJob \<in> set (sv_jobs v)"
| "storage_enabled (ListFailed _) v \<longleftrightarrow> InventoryJob \<in> set (sv_jobs v)"
| "storage_enabled (HealthRead names _) v \<longleftrightarrow> HealthJob names \<in> set (sv_jobs v)"
| "storage_enabled (HealthFailed names _) v \<longleftrightarrow> HealthJob names \<in> set (sv_jobs v)"
| "storage_enabled _ v \<longleftrightarrow> False"

definition storage_machine :: "(storage_ui_state, storage_event, storage_action) page_machine" where
  "storage_machine = \<lparr>pm_start = storage_ui LoadStorage (new_storage_page, new_view),
     pm_signal = (\<lambda>ev s. storage_enabled ev (fst s)), pm_click = storage_click,
     pm_buttons = (\<lambda>s. clickable (snd s)), pm_event = storage_ui\<rparr>"

lemma storage_ui_apply: "storage_ui ev (v, w) = fold storage_notified (storage_assigned ev v) (storage_handle ev v, w)"
  by (simp add: storage_ui_def page_event_def)

section \<open>The invariant\<close>

text \<open>
  One job at most; the devices are listed once, before anything else; a health read is one of
  the shown drives, on a ready page; and the view shows the view-model.
\<close>

definition storage_ui_inv :: "storage_ui_state \<Rightarrow> bool" where
  "storage_ui_inv s \<longleftrightarrow>
     (case s of (v, w) \<Rightarrow>
       sv_jobs v = (if pg_state v = Loading then [InventoryJob]
                    else if sv_busy_text v = [] then [] else [HealthJob (List.map sc_name (sv_cards v))]) \<and>
       (sv_busy_text v \<noteq> [] \<longrightarrow> pg_state v = Ready) \<and>
       (pg_state v = Ready \<longrightarrow> sv_cards v \<noteq> [] \<and> pv_content w = storage_content v) \<and>
       sv_toast_text v = [] \<and> pv_visible w = pg_state v \<and>
       pv_busy w = set_banner (sv_busy_text v) \<and> pv_sensitive w = (sv_busy_text v = []))"

lemma storage_error_fields [simp]:
  "sv_cards (handle_error e v) = sv_cards v" "sv_toast_text (handle_error e v) = sv_toast_text v"
  by (cases e; simp add: page_defs)+

lemma handle_error_not:
  "pg_state (handle_error e v) \<noteq> Ready" "pg_state (handle_error e v) \<noteq> Loading"
  using handle_error_state [of e v] by auto

lemma storage_content_fields [simp]:
  "storage_content (v\<lparr>pg_state := a\<rparr>) = storage_content v" "storage_content (v\<lparr>sv_busy_text := t\<rparr>) = storage_content v"
  "storage_content (v\<lparr>sv_toast_text := t\<rparr>) = storage_content v" "storage_content (v\<lparr>sv_jobs := js\<rparr>) = storage_content v"
  by (simp_all add: storage_content_def)

lemma update_card_name [simp]: "sc_name (update_card r c) = sc_name c"
  by (simp add: update_card_def split: option.split)

lemmas storage_events = load_storage_def apply_storage_def storage_load_failed_def read_health_def health_done_def
  health_failed_def complete_storage_job_def storage_state_changed_def storage_toast_def view_defs page_defs

lemma storage_ui_inv_step: "storage_ui_inv s \<Longrightarrow> ui_step storage_machine s ev s' \<Longrightarrow> storage_ui_inv s'"
proof -
  assume inv: "storage_ui_inv s" and step: "ui_step storage_machine s ev s'"
  obtain v w where s: "s = (v, w)" by (cases s)
  have s': "s' = storage_ui ev (v, w)" and can: "storage_click ev = None \<and> storage_enabled ev v \<or>
      storage_click ev \<noteq> None \<and> pv_visible w = Ready \<and> pv_sensitive w"
    using step by (auto simp: storage_machine_def s clickable_def elim!: ui_stepE split: if_splits)
  show ?thesis
  proof (cases ev)
    case (ListFailed e)
    with inv can handle_error_not [of e] show ?thesis
      by (auto simp: s s' storage_ui_apply storage_ui_inv_def storage_load_failed_def complete_storage_job_def
          storage_state_changed_def view_state_changed_def simp del: handle_error.simps split: if_splits page_state.split)
  qed (use inv can in \<open>auto simp: s s' storage_ui_apply storage_ui_inv_def storage_events split: if_splits\<close>)
qed

lemma storage_ui_inv_start: "storage_ui_inv (pm_start storage_machine)"
  by (simp add: storage_machine_def storage_ui_apply storage_ui_inv_def new_storage_page_def new_view_def storage_events)

interpretation storage_page: exclusive_page storage_machine storage_ui_inv
  "\<lambda>s. length (filter (\<lambda>j. j \<noteq> InventoryJob) (sv_jobs (fst s)))"
proof (unfold_locales, goal_cases)
  case (3 s)
  then show ?case by (auto simp: storage_machine_def storage_ui_inv_def clickable_def split: if_splits prod.splits)
qed (fact storage_ui_inv_start, fact storage_ui_inv_step)

section \<open>Properties\<close>

text \<open>C27: A click on Read Health is never lost and never a dead end: wherever it can be pressed, the page is
  idle and pressing it starts one read, of exactly the drives shown, during which nothing can be
  pressed; when the read ends, with results or with any error, the button can be pressed again,
  the rows show the results (or are as they were) and an error is one toast.\<close>

theorem read_health_click:
  assumes "ui_reachable storage_machine (v, w)" "ReadHealthClicked \<in> set (clickable w)"
  shows "case storage_ui ReadHealth (v, w) of (v1, w1) \<Rightarrow>
     sv_jobs v = [] \<and> sv_jobs v1 = [HealthJob (List.map sc_name (sv_cards v))] \<and> clickable w1 = [] \<and>
     (\<forall>results. case storage_ui (HealthRead (List.map sc_name (sv_cards v)) results) (v1, w1) of (v2, w2) \<Rightarrow>
        sv_jobs v2 = [] \<and> clickable w2 = [ReadHealthClicked] \<and> pv_toasts w2 = pv_toasts w \<and>
        pv_content w2 = storage_content (v\<lparr>sv_cards := List.map (update_card (dict_of results)) (sv_cards v)\<rparr>)) \<and>
     (\<forall>e. case storage_ui (HealthFailed (List.map sc_name (sv_cards v)) e) (v1, w1) of (v2, w2) \<Rightarrow>
        sv_jobs v2 = [] \<and> clickable w2 = [ReadHealthClicked] \<and> pv_toasts w2 = pv_toasts w @ [health_failure_text e] \<and>
        pv_content w2 = storage_content v)"
proof -
  have inv: "storage_ui_inv (v, w)" by (rule storage_page.reachable_inv [OF assms(1)])
  have shown: "pv_visible w = Ready" "pv_sensitive w" using assms(2) by (auto simp: clickable_def split: if_splits)
  with inv have v: "pg_state v = Ready" "sv_busy_text v = []" "sv_jobs v = []" "sv_cards v \<noteq> []" "sv_toast_text v = []"
    "pv_content w = storage_content v" by (auto simp: storage_ui_inv_def)
  have said: "health_failure_text e \<noteq> []" for e by (cases e) simp_all
  show ?thesis
    using v shown said
    by (simp add: storage_ui_apply storage_events clickable_def storage_content_actions ELLIPSIS_def)
      (simp add: storage_content_def)
qed

theorem read_health_click_witness:
  "\<exists>v w. ui_reachable storage_machine (v, w) \<and> List.map sc_name (sv_cards v) = [''sda''] \<and>
     (case storage_ui ReadHealth (v, w) of (v1, w1) \<Rightarrow> sv_jobs v1 = [HealthJob [''sda'']] \<and> clickable w1 = [])"
proof -
  let ?dev = "\<lparr>sd_name = ''sda'', sd_model = None, sd_size_bytes = None, sd_removable = None, sd_rotational = None\<rparr>"
  obtain v w where vw: "pm_event storage_machine (Listed [?dev]) (pm_start storage_machine) = (v, w)" by (metis surj_pair)
  have "ui_step storage_machine (pm_start storage_machine) (Listed [?dev]) (v, w)"
    unfolding vw [symmetric]
    by (rule ui_step.signal) (simp_all add: storage_machine_def storage_ui_apply new_storage_page_def storage_events)
  then have reach: "ui_reachable storage_machine (v, w)" by (rule ui_reachable.move [OF ui_reachable.start])
  have state: "pg_state v = Ready" "sv_busy_text v = []" "List.map sc_name (sv_cards v) = [''sda'']" "pv_visible w = Ready"
    "pv_sensitive w" "pv_content w = storage_content v"
    using vw by (auto simp: storage_machine_def storage_ui_apply new_storage_page_def new_view_def storage_events storage_card_of_def)
  then have "ReadHealthClicked \<in> set (clickable w)" by (simp add: clickable_def storage_content_actions)
  from read_health_click [OF reach this] reach state(3) show ?thesis
    by (intro exI [of _ v] exI [of _ w]) (auto split: prod.splits)
qed

end
