(* ===== verification/DiagnosticsView.thy ===== *)
theory DiagnosticsView
  imports PageUI PageViews DiagnosticsPage
begin

text \<open>
  \<open>ui/pages/diagnostics/view.py\<close> composed with the page's view-model. Export opens a file dialog,
  which stays open while the page goes on and is answered (or dismissed) at any later time; the
  view counts the open ones.
\<close>

record diagnostics_view = "diagnostics_action page_view" +
  wx_dialogs :: nat

datatype diagnostics_event =
    LoadDiagnostics
  | RunClick
  | RunDone diagnostics_report
  | RunFailed exn
  | ExportClick
  | DialogAnswered "string option option"
  | Exported string
  | ExportFailed string exn

fun diagnostics_handle :: "diagnostics_event \<Rightarrow> diagnostics_vm \<Rightarrow> diagnostics_vm" where
  "diagnostics_handle LoadDiagnostics v = load_diagnostics v"
| "diagnostics_handle RunClick v = start_run v"
| "diagnostics_handle (RunDone report) v = run_done report (complete_diagnostics_job RunJob v)"
| "diagnostics_handle (RunFailed e) v = run_failed e (complete_diagnostics_job RunJob v)"
| "diagnostics_handle ExportClick v = v"
| "diagnostics_handle (DialogAnswered answer) v = export_chosen answer v"
| "diagnostics_handle (Exported p) v = export_done p (complete_diagnostics_job (ExportJob p) v)"
| "diagnostics_handle (ExportFailed p e) v = export_failed e (complete_diagnostics_job (ExportJob p) v)"

datatype diagnostics_notify = DiagnosticsState | DiagnosticsBusy | DiagnosticsToast

fun diagnostics_assigned :: "diagnostics_event \<Rightarrow> diagnostics_vm \<Rightarrow> diagnostics_notify list" where
  "diagnostics_assigned LoadDiagnostics v = [DiagnosticsState]"
| "diagnostics_assigned RunClick v = (if dv_busy_text v \<noteq> [] then [] else [DiagnosticsBusy])"
| "diagnostics_assigned (RunDone _) v = [DiagnosticsBusy, DiagnosticsState]"
| "diagnostics_assigned (RunFailed _) v = [DiagnosticsBusy, DiagnosticsState]"
| "diagnostics_assigned ExportClick v = []"
| "diagnostics_assigned (DialogAnswered answer) v =
     (case answer of
        Some (Some p) \<Rightarrow> if p = [] \<or> \<not> can_export v \<or> dv_busy_text v \<noteq> [] then [] else [DiagnosticsBusy]
      | _ \<Rightarrow> [])"
| "diagnostics_assigned (Exported _) v = [DiagnosticsBusy, DiagnosticsToast]"
| "diagnostics_assigned (ExportFailed _ _) v = [DiagnosticsBusy, DiagnosticsToast]"

type_synonym diagnostics_ui_state = "diagnostics_vm \<times> diagnostics_view"

definition diagnostics_busy_changed :: "diagnostics_vm \<Rightarrow> diagnostics_view \<Rightarrow> diagnostics_view" where
  "diagnostics_busy_changed v w = view_busy_changed (dv_busy_text v) w"

fun diagnostics_notified :: "diagnostics_notify \<Rightarrow> diagnostics_ui_state \<Rightarrow> diagnostics_ui_state" where
  "diagnostics_notified DiagnosticsState (v, w) = (v, diagnostics_state_changed v w)"
| "diagnostics_notified DiagnosticsBusy (v, w) = (v, diagnostics_busy_changed v w)"
| "diagnostics_notified DiagnosticsToast (v, w) = (v\<lparr>dv_toast_text := []\<rparr>, view_toast (dv_toast_text v) w)"

text \<open>\<open>_on_export_clicked\<close> opens the dialog with its suggested name and filters; its answer closes it.\<close>

fun dialogs_after :: "diagnostics_event \<Rightarrow> diagnostics_view \<Rightarrow> diagnostics_view" where
  "dialogs_after ExportClick w = w\<lparr>wx_dialogs := Suc (wx_dialogs w)\<rparr>"
| "dialogs_after (DialogAnswered _) w = w\<lparr>wx_dialogs := wx_dialogs w - 1\<rparr>"
| "dialogs_after _ w = w"

definition diagnostics_ui :: "diagnostics_event \<Rightarrow> diagnostics_ui_state \<Rightarrow> diagnostics_ui_state" where
  "diagnostics_ui ev s =
     (case page_event diagnostics_handle diagnostics_assigned diagnostics_notified ev s of
        (v, w) \<Rightarrow> (v, dialogs_after ev w))"

fun diagnostics_click :: "diagnostics_event \<Rightarrow> diagnostics_action option" where
  "diagnostics_click RunClick = Some RunClicked"
| "diagnostics_click ExportClick = Some ExportClicked"
| "diagnostics_click _ = None"

fun diagnostics_enabled :: "diagnostics_event \<Rightarrow> diagnostics_ui_state \<Rightarrow> bool" where
  "diagnostics_enabled (RunDone _) s \<longleftrightarrow> RunJob \<in> set (dv_jobs (fst s))"
| "diagnostics_enabled (RunFailed _) s \<longleftrightarrow> RunJob \<in> set (dv_jobs (fst s))"
| "diagnostics_enabled (DialogAnswered _) s \<longleftrightarrow> 0 < wx_dialogs (snd s)"
| "diagnostics_enabled (Exported p) s \<longleftrightarrow> ExportJob p \<in> set (dv_jobs (fst s))"
| "diagnostics_enabled (ExportFailed p _) s \<longleftrightarrow> ExportJob p \<in> set (dv_jobs (fst s))"
| "diagnostics_enabled _ s \<longleftrightarrow> False"

definition new_diagnostics_view :: diagnostics_view where
  "new_diagnostics_view = page_view.extend new_view \<lparr>wx_dialogs = 0\<rparr>"

definition diagnostics_machine :: "(diagnostics_ui_state, diagnostics_event, diagnostics_action) page_machine" where
  "diagnostics_machine = \<lparr>pm_start = diagnostics_ui LoadDiagnostics (new_diagnostics_page True, new_diagnostics_view),
     pm_signal = diagnostics_enabled, pm_click = diagnostics_click,
     pm_buttons = (\<lambda>s. clickable (snd s)), pm_event = diagnostics_ui\<rparr>"

lemma diagnostics_ui_apply: "diagnostics_ui ev (v, w) =
    (case fold diagnostics_notified (diagnostics_assigned ev v) (diagnostics_handle ev v, w) of
       (v', w') \<Rightarrow> (v', dialogs_after ev w'))"
  by (simp add: diagnostics_ui_def page_event_def)

section \<open>The invariant\<close>

definition diagnostics_ui_inv :: "diagnostics_ui_state \<Rightarrow> bool" where
  "diagnostics_ui_inv s \<longleftrightarrow>
     (case s of (v, w) \<Rightarrow>
       diagnostics_inv v \<and> dv_has_writer v \<and> pg_state v \<noteq> Loading \<and> dv_toast_text v = [] \<and>
       pv_visible w = pg_state v \<and> (pg_state v = Ready \<longrightarrow> pv_content w = diagnostics_content v) \<and>
       pv_busy w = set_banner (dv_busy_text v) \<and> pv_sensitive w = (dv_busy_text v = []))"

text \<open>What is on screen does not depend on the work in progress.\<close>

lemma diagnostics_content_fields [simp]:
  "diagnostics_content (v\<lparr>pg_state := a\<rparr>) = diagnostics_content v"
  "diagnostics_content (v\<lparr>dv_busy_text := t\<rparr>) = diagnostics_content v"
  "diagnostics_content (v\<lparr>dv_toast_text := t\<rparr>) = diagnostics_content v"
  "diagnostics_content (v\<lparr>dv_jobs := js\<rparr>) = diagnostics_content v"
  by (simp_all add: diagnostics_content_def can_export_def)

lemma diagnostics_inv_toast [simp]: "diagnostics_inv (v\<lparr>dv_toast_text := t\<rparr>) = diagnostics_inv v"
  by (simp add: diagnostics_inv_def can_export_def split: option.split)

lemma diagnostics_handle_step:
  assumes "diagnostics_inv v" "diagnostics_click ev \<noteq> None \<or> diagnostics_enabled ev (v, w)"
  shows "diagnostics_inv (diagnostics_handle ev v)"
proof -
  have "diagnostics_handle ev v = v \<or> diagnostics_step v (diagnostics_handle ev v)"
    using assms(2) by (cases ev) (auto simp: export_chosen_def intro: diagnostics_step.intros split: option.split)
  then show ?thesis using assms(1) diagnostics_inv_step by auto
qed

lemma diagnostics_error_fields [simp]: "dv_toast_text (handle_error e v) = dv_toast_text v"
  by (cases e; simp add: page_defs)

lemmas diagnostics_events = load_diagnostics_def start_run_def run_done_def run_failed_def export_chosen_def start_export_def
  export_done_def export_failed_def complete_diagnostics_job_def diagnostics_state_changed_def diagnostics_busy_changed_def
  view_defs page_defs

lemma diagnostics_in_sync:
  assumes "diagnostics_ui_inv (v, w)" "diagnostics_click ev \<noteq> None \<or> diagnostics_enabled ev (v, w)"
    and "diagnostics_ui ev (v, w) = (v', w')"
  shows "dv_has_writer v' \<and> pg_state v' \<noteq> Loading \<and> dv_toast_text v' = [] \<and>
       pv_visible w' = pg_state v' \<and> (pg_state v' = Ready \<longrightarrow> pv_content w' = diagnostics_content v') \<and>
       pv_busy w' = set_banner (dv_busy_text v') \<and> pv_sensitive w' = (dv_busy_text v' = []) \<and>
       (diagnostics_inv (diagnostics_handle ev v) \<longrightarrow> diagnostics_inv v')"
proof (cases ev)
  case (RunFailed e)
  have "pg_state (handle_error e u) \<noteq> Loading" "pg_state (handle_error e u) \<noteq> Ready" for u :: diagnostics_vm
    using handle_error_state [of e u] by auto
  with assms RunFailed show ?thesis
    by (auto simp: diagnostics_ui_apply diagnostics_ui_inv_def run_failed_def complete_diagnostics_job_def
        diagnostics_busy_changed_def diagnostics_state_changed_def view_state_changed_def view_busy_changed_def set_banner_def
        simp del: handle_error.simps split: if_splits page_state.split)
next
  case (DialogAnswered answer)
  with assms show ?thesis
    by (auto simp: diagnostics_ui_apply diagnostics_ui_inv_def diagnostics_events split: if_splits option.splits)
qed (use assms in \<open>auto simp: diagnostics_ui_apply diagnostics_ui_inv_def diagnostics_events\<close>)

lemma diagnostics_ui_inv_step:
  assumes "diagnostics_ui_inv s" "ui_step diagnostics_machine s ev s'"
  shows "diagnostics_ui_inv s'"
proof -
  obtain v w v' w' where s: "s = (v, w)" "s' = (v', w')" by (cases s, cases s')
  have ui: "diagnostics_ui ev (v, w) = (v', w')" and can: "diagnostics_click ev \<noteq> None \<or> diagnostics_enabled ev (v, w)"
    using assms(2) by (auto simp: diagnostics_machine_def s elim!: ui_stepE)
  have inv: "diagnostics_ui_inv (v, w)" using assms(1) s by simp
  then have "diagnostics_inv (diagnostics_handle ev v)" using diagnostics_handle_step [OF _ can] by (simp add: diagnostics_ui_inv_def)
  with diagnostics_in_sync [OF inv can ui] show ?thesis by (simp add: diagnostics_ui_inv_def s)
qed

lemma diagnostics_ui_inv_start: "diagnostics_ui_inv (pm_start diagnostics_machine)"
  by (simp add: diagnostics_machine_def diagnostics_ui_apply diagnostics_ui_inv_def diagnostics_inv_def new_diagnostics_page_def
      new_diagnostics_view_def new_view_def page_view.defs diagnostics_events)

interpretation diagnostics_page: exclusive_page diagnostics_machine diagnostics_ui_inv "\<lambda>s. length (dv_jobs (fst s))"
proof (unfold_locales, goal_cases)
  case (3 s)
  then show ?case
    by (auto simp: diagnostics_machine_def diagnostics_ui_inv_def diagnostics_inv_def clickable_def split: if_splits prod.splits)
qed (fact diagnostics_ui_inv_start, fact diagnostics_ui_inv_step)

section \<open>Properties\<close>

lemma result_cards_empty [simp]: "result_cards report = [] \<longleftrightarrow> rep_results report = []"
  by (simp add: result_cards_def)

text \<open>C28: Run and Export do what they say in every state the page can get into. Where Run can be pressed the
  page is idle, pressing it starts one run during which nothing can be pressed, and the report
  that comes back is what the page then shows, exportable if it has any check. Where Export can
  be pressed there is a report; dismissing the dialog changes nothing, and a chosen path starts
  one export, which ends in one toast, whether it worked or not, with the page as it was.\<close>

theorem diagnostics_clicks:
  assumes "ui_reachable diagnostics_machine (v, w)" "a \<in> set (clickable w)"
  shows "case diagnostics_ui (case a of RunClicked \<Rightarrow> RunClick | ExportClicked \<Rightarrow> ExportClick) (v, w) of (v1, w1) \<Rightarrow>
     (case a of
        RunClicked \<Rightarrow>
          dv_jobs v = [] \<and> dv_jobs v1 = [RunJob] \<and> clickable w1 = [] \<and>
          (\<forall>report. case diagnostics_ui (RunDone report) (v1, w1) of (v2, w2) \<Rightarrow>
             dv_jobs v2 = [] \<and> dv_last_report v2 = Some report \<and> pv_content w2 = diagnostics_content v2 \<and>
             clickable w2 = (if rep_results report = [] then [RunClicked] else [ExportClicked, RunClicked]))
      | ExportClicked \<Rightarrow>
          dv_last_report v \<noteq> None \<and>
          diagnostics_ui (DialogAnswered None) (v1, w1) = (v, w) \<and>
          (\<forall>p. p \<noteq> [] \<longrightarrow> (case diagnostics_ui (DialogAnswered (Some (Some p))) (v1, w1) of (v2, w2) \<Rightarrow>
             dv_jobs v2 = [ExportJob p] \<and> clickable w2 = [] \<and>
             diagnostics_ui (Exported p) (v2, w2) = (v, w\<lparr>pv_toasts := pv_toasts w @ [''Report exported.'']\<rparr>) \<and>
             (\<forall>e. diagnostics_ui (ExportFailed p e) (v2, w2) =
                (v, w\<lparr>pv_toasts := pv_toasts w @ [''Could not export the report.'']\<rparr>)))))"
proof -
  have inv: "diagnostics_ui_inv (v, w)" by (rule diagnostics_page.reachable_inv [OF assms(1)])
  have shown: "pv_visible w = Ready" "pv_sensitive w" "a \<in> set (all_actions (pv_content w))"
    using assms(2) by (auto simp: clickable_def split: if_splits)
  with inv have v: "pg_state v = Ready" "dv_busy_text v = []" "dv_jobs v = []" "dv_toast_text v = []" "dv_has_writer v"
    "pv_content w = diagnostics_content v" "pv_busy w = ([], False)"
    by (auto simp: diagnostics_ui_inv_def diagnostics_inv_def set_banner_def split: if_splits)
  show ?thesis
  proof (cases a)
    case RunClicked
    with v shown(1,2) show ?thesis
      by (simp add: diagnostics_ui_apply diagnostics_events clickable_def ELLIPSIS_def diagnostics_content_actions can_export_def)
  next
    case ExportClicked
    with shown(3) v(6) obtain report where report: "dv_last_report v = Some report"
      by (auto simp: diagnostics_content_actions can_export_def split: if_splits)
    have same: "v\<lparr>dv_jobs := [], dv_busy_text := []\<rparr> = v" "v\<lparr>dv_jobs := [], dv_busy_text := [], dv_toast_text := []\<rparr> = v"
      "w\<lparr>pv_busy := ([], False), pv_sensitive := True\<rparr> = w"
      using v(2-4,7) shown(2) by (cases v; cases w; simp)+
    from report ExportClicked v shown(1,2) same show ?thesis
      by (simp add: diagnostics_ui_apply diagnostics_events clickable_def ELLIPSIS_def or_str_def can_export_def)
  qed
qed

theorem diagnostics_clicks_witness:
  "\<exists>v w. ui_reachable diagnostics_machine (v, w) \<and> RunClicked \<in> set (clickable w) \<and>
     dv_jobs (fst (diagnostics_ui RunClick (v, w))) = [RunJob]"
proof -
  obtain v w where start: "pm_start diagnostics_machine = (v, w)" by (metis surj_pair)
  then have reach: "ui_reachable diagnostics_machine (v, w)" using ui_reachable.start [of diagnostics_machine] by simp
  have "pv_visible w = Ready \<and> pv_sensitive w \<and> RunClicked \<in> set (all_actions (pv_content w))"
    using start
    by (auto simp: diagnostics_machine_def diagnostics_ui_apply new_diagnostics_page_def new_diagnostics_view_def new_view_def
        page_view.defs diagnostics_events diagnostics_content_actions)
  then have click: "RunClicked \<in> set (clickable w)" by (simp add: clickable_def)
  obtain v1 w1 where "diagnostics_ui RunClick (v, w) = (v1, w1)" by (metis surj_pair)
  with diagnostics_clicks [OF reach click] reach click show ?thesis
    by (intro exI [of _ v] exI [of _ w]) simp
qed

end
