(* ===== verification/ReferenceView.thy ===== *)
theory ReferenceView
  imports PageUI PageViews
begin

text \<open>
  \<open>ui/pages/placeholder/view.py\<close> composed with its view-model: the four buttons of the debug
  switcher, which can always be pressed, and the timer of the smoke test, which runs while it is
  renewed. The handlers set the state last, so the notification sees everything they set.
\<close>

datatype demo = DemoLoading | DemoReady | DemoUnavailable | DemoError

fun on_demo :: "demo \<Rightarrow> page_vm \<Rightarrow> page_vm" where
  "on_demo DemoLoading v = show_loading v"
| "on_demo DemoReady v = show_ready v"
| "on_demo DemoUnavailable v = demo_unavailable v"
| "on_demo DemoError v = demo_error v"

datatype reference_event = Demo demo | SmokeTimer

text \<open>Whether the timer is there, and the page.\<close>

type_synonym reference_state = "bool \<times> smoke"

fun reference_ui :: "reference_event \<Rightarrow> reference_state \<Rightarrow> reference_state" where
  "reference_ui (Demo d) (on, s) =
     (let v = on_demo d (sm_vm s) in (on, s\<lparr>sm_vm := v, sm_view := placeholder_sync v (sm_view s)\<rparr>))"
| "reference_ui SmokeTimer (on, s) = smoke_advance s"

definition smoke_on :: "(string \<times> string) list \<Rightarrow> bool" where
  "smoke_on vars \<longleftrightarrow> dict_get ''LAPCARE_SMOKE'' vars = Some ''1''"

fun reference_click :: "reference_event \<Rightarrow> demo option" where
  "reference_click (Demo d) = Some d"
| "reference_click SmokeTimer = None"

definition reference_machine :: "(string \<times> string) list \<Rightarrow> (reference_state, reference_event, demo) page_machine" where
  "reference_machine vars = \<lparr>pm_start = (smoke_on vars, start_smoke),
     pm_signal = (\<lambda>ev s. ev = SmokeTimer \<and> fst s), pm_click = reference_click,
     pm_buttons = (\<lambda>s. [DemoLoading, DemoReady, DemoUnavailable, DemoError]), pm_event = reference_ui\<rparr>"

section \<open>The invariant\<close>

text \<open>The view shows the view-model, and the timer is there while steps are left.\<close>

definition view_mirrors :: "page_vm \<Rightarrow> unit page_view \<Rightarrow> bool" where
  "view_mirrors v w \<longleftrightarrow> pv_visible w = pg_state v \<and>
     (pg_state v = Unavailable \<longrightarrow> pv_unavailable w = unavailable_reason v @ [CHR 0x0A] @ unavailable_remedy v) \<and>
     (pg_state v = PageError \<longrightarrow> pv_error w = error_detail v)"

lemma sync_mirrors [simp]: "view_mirrors v (placeholder_sync v w)"
  by (cases "pg_state v") (simp_all add: view_mirrors_def placeholder_sync_def view_state_changed_def)

definition reference_inv :: "reference_state \<Rightarrow> bool" where
  "reference_inv s \<longleftrightarrow> (case s of (on, p) \<Rightarrow> view_mirrors (sm_vm p) (sm_view p) \<and> 0 \<le> sm_steps p \<and> (on \<longrightarrow> 0 < sm_steps p))"

interpretation reference_page: page_ui "reference_machine vars" reference_inv
proof
  show "reference_inv (pm_start (reference_machine vars))"
    by (simp add: reference_machine_def reference_inv_def start_smoke_def STATES_def)
  fix s ev s' assume "ui_step (reference_machine vars) s ev s'"
  then show "reference_inv s \<Longrightarrow> reference_inv s'"
    by (cases ev; cases s) (auto simp: ui_step_iff reference_machine_def reference_inv_def smoke_advance_def Let_def)
qed

text \<open>What the timer has left; where it alone has run, the state it has reached.\<close>

lemma smoke_steps_left:
  "ui_run (reference_machine vars) evs (on, s) \<Longrightarrow>
   sm_steps s = int (length STATES) - int (count_list evs SmokeTimer) \<and> (on \<longleftrightarrow> smoke_on vars \<and> 0 < sm_steps s) \<and>
   (\<not> smoke_on vars \<longrightarrow> SmokeTimer \<notin> set evs)"
proof (induction evs "(on, s)" arbitrary: on s rule: ui_run.induct)
  case start
  then show ?case by (auto simp: reference_machine_def start_smoke_def STATES_def)
next
  case (move evs st ev)
  obtain on' p where st: "st = (on', p)" by (cases st)
  show ?case
    using move(2) [OF st] move(3)
    by (cases ev) (auto simp: st ui_step_iff reference_machine_def smoke_advance_def Let_def)
qed

lemma smoke_states:
  "ui_run (reference_machine vars) evs (on, s) \<Longrightarrow> set evs \<subseteq> {SmokeTimer} \<Longrightarrow>
   pg_state (sm_vm s) = STATES ! (length evs mod length STATES)"
proof (induction evs "(on, s)" arbitrary: on s rule: ui_run.induct)
  case start
  then show ?case by (auto simp: reference_machine_def start_smoke_def new_page_def STATES_def)
next
  case (move evs st ev)
  obtain on' p where st: "st = (on', p)" by (cases st)
  have "pg_state (sm_vm p) = STATES ! (length evs mod 4)" using move(2) [OF st] move(4) by (simp add: STATES_def)
  moreover have "length evs mod 4 = 0 \<or> length evs mod 4 = 1 \<or> length evs mod 4 = 2 \<or> length evs mod 4 = 3" by linarith
  ultimately show ?case
    using move(3,4)
    by (auto simp: st ui_step_iff reference_machine_def smoke_advance_def Let_def advance_state advance_order STATES_def mod_Suc)
qed

section \<open>Properties\<close>

text \<open>Whatever is clicked between the calls of the reference page's smoke timer, the page shows what its
  view-model holds, the timer is called at most once per page state and only in a smoke test, and
  it stays registered exactly until that many calls are done; left alone, it walks through the
  states in their order, back to the first.\<close>

lemma reference_page_run:
  assumes "ui_run (reference_machine vars) evs (on, s)"
  shows "view_mirrors (sm_vm s) (sm_view s) \<and>
    count_list evs SmokeTimer \<le> (if smoke_on vars then length STATES else 0) \<and>
    on = (smoke_on vars \<and> count_list evs SmokeTimer < length STATES) \<and>
    (set evs \<subseteq> {SmokeTimer} \<longrightarrow> pg_state (sm_vm s) = STATES ! (length evs mod length STATES))"
proof -
  have "reference_inv (on, s)" by (rule reference_page.reachable_inv [OF ui_run_reachable [OF assms]])
  then have "view_mirrors (sm_vm s) (sm_view s)" "0 \<le> sm_steps s" by (simp_all add: reference_inv_def)
  with smoke_steps_left [OF assms] smoke_states [OF assms] show ?thesis by (auto simp: count_list_0_iff)
qed

lemma reference_page_run_witness:
  "\<exists>s. ui_run (reference_machine [(''LAPCARE_SMOKE'', ''1'')]) [SmokeTimer, Demo DemoError, SmokeTimer] (True, s) \<and>
     view_mirrors (sm_vm s) (sm_view s) \<and> pg_state (sm_vm s) = Loading"
proof -
  let ?M = "reference_machine [(''LAPCARE_SMOKE'', ''1'')]"
  define s1 where "s1 = pm_event ?M SmokeTimer (pm_start ?M)"
  define s2 where "s2 = pm_event ?M (Demo DemoError) s1"
  define s3 where "s3 = pm_event ?M SmokeTimer s2"
  note run = s1_def s2_def s3_def reference_machine_def smoke_on_def start_smoke_def smoke_advance_def Let_def STATES_def
    advance_state advance_order new_page_def demo_error_def page_defs
  have "ui_step ?M (pm_start ?M) SmokeTimer s1"
    unfolding s1_def by (rule ui_step.signal) (simp_all add: reference_machine_def smoke_on_def)
  moreover have "ui_step ?M s1 (Demo DemoError) s2" unfolding s2_def by (rule ui_step.click [where a = DemoError]) (simp_all add: reference_machine_def)
  moreover have "ui_step ?M s2 SmokeTimer s3" unfolding s3_def by (rule ui_step.signal) (simp_all add: run)
  ultimately have "ui_run ?M ((([] @ [SmokeTimer]) @ [Demo DemoError]) @ [SmokeTimer]) s3"
    by (rule ui_run.move [OF ui_run.move [OF ui_run.move [OF ui_run.start]]])
  then have "ui_run ?M [SmokeTimer, Demo DemoError, SmokeTimer] s3" by simp
  moreover obtain on s where s: "s3 = (on, s)" by (cases s3)
  moreover have "on" "pg_state (sm_vm s) = Loading" using s by (auto simp: run)
  ultimately show ?thesis
    using reference_page_run [of "[(''LAPCARE_SMOKE'', ''1'')]" "[SmokeTimer, Demo DemoError, SmokeTimer]" on s] by auto
qed

end
