(* ===== verification/AsyncPages.thy ===== *)
theory AsyncPages
  imports Scheduler PageUI "HOL-Library.Multiset"
begin

text \<open>
  Pages on a scheduler. A page's machine lets the completion of a pending job happen at any time;
  in the program it is a callback of the scheduler the page submitted the job to, which the other
  pages use too. \<open>running_step\<close> composes the two: an event of the page submits its jobs, a task
  finishes on its own, and what is queued is delivered to the page that asked. The locales show
  that this composition refines the page's machine, and that what a page believes to be pending
  is what the scheduler has not yet called back.
\<close>

section \<open>The port\<close>

text \<open>\<open>Scheduler\<close> of \<open>core/ports.py\<close> between \<open>start\<close> and \<open>stop\<close>; \<open>so_finish\<close> and \<open>so_ready\<close> are its loop.\<close>

record ('c, 'v) scheduler_ops =
  so_submit :: "'c \<Rightarrow> (exn + unit) \<times> 'c"
  so_finish :: "nat \<Rightarrow> 'v outcome \<Rightarrow> 'c \<Rightarrow> 'c"
  so_ready :: "'c \<Rightarrow> 'c"
  so_tasks :: "'c \<Rightarrow> 'v tasks"

definition native_ops :: "('v native, 'v) scheduler_ops" where
  "native_ops = \<lparr>so_submit = native_submit, so_finish = (\<lambda>i r s. s\<lparr>n_tasks := finish_task i r (n_tasks s)\<rparr>),
     so_ready = (\<lambda>s. s\<lparr>n_tasks := deliver (n_tasks s)\<rparr>), so_tasks = n_tasks\<rparr>"

definition thread_ops :: "('v threaded, 'v) scheduler_ops" where
  "thread_ops = \<lparr>so_submit = thread_submit, so_finish = (\<lambda>i r s. s\<lparr>t_tasks := finish_task i r (t_tasks s)\<rparr>),
     so_ready = (\<lambda>s. s\<lparr>t_tasks := deliver (t_tasks s)\<rparr>), so_tasks = t_tasks\<rparr>"

text \<open>How a page uses it: what is pending, what an event submits, and which event a callback is.\<close>

record ('s, 'e, 'j, 'v) page_jobs =
  pj_pending :: "'s \<Rightarrow> 'j list"
  pj_submits :: "'e \<Rightarrow> 's \<Rightarrow> 'j list"
  pj_callback :: "'j \<Rightarrow> 'v callback \<Rightarrow> 'e option"

section \<open>A page on a scheduler\<close>

text \<open>\<open>rp_owner\<close> has an entry per task: the job of this page, or None for a task of another page.\<close>

record ('s, 'c, 'j) running_page =
  rp_page :: 's
  rp_scheduler :: 'c
  rp_owner :: "'j option list"

definition submit_task :: "('c, 'v) scheduler_ops \<Rightarrow> 'j option \<Rightarrow> ('s, 'c, 'j) running_page \<Rightarrow> ('s, 'c, 'j) running_page" where
  "submit_task S j u =
     (case so_submit S (rp_scheduler u) of
        (Inl e, c) \<Rightarrow> u\<lparr>rp_scheduler := c\<rparr>
      | (Inr _, c) \<Rightarrow> u\<lparr>rp_scheduler := c, rp_owner := rp_owner u @ [j]\<rparr>)"

definition submit_all :: "('c, 'v) scheduler_ops \<Rightarrow> 'j list \<Rightarrow> ('s, 'c, 'j) running_page \<Rightarrow> ('s, 'c, 'j) running_page" where
  "submit_all S js u = fold (\<lambda>j. submit_task S (Some j)) js u"

definition page_handles ::
    "('s, 'e, 'a) page_machine \<Rightarrow> ('s, 'e, 'j, 'v) page_jobs \<Rightarrow> ('c, 'v) scheduler_ops \<Rightarrow> 'e \<Rightarrow>
     ('s, 'c, 'j) running_page \<Rightarrow> ('s, 'c, 'j) running_page" where
  "page_handles M P S ev u =
     submit_all S (pj_submits P ev (rp_page u)) (u\<lparr>rp_page := pm_event M ev (rp_page u)\<rparr>)"

text \<open>The loop runs the next queued completion, which calls the page if the task is the page's.\<close>

definition run_ready ::
    "('s, 'e, 'a) page_machine \<Rightarrow> ('s, 'e, 'j, 'v) page_jobs \<Rightarrow> ('c, 'v) scheduler_ops \<Rightarrow>
     ('s, 'c, 'j) running_page \<Rightarrow> ('s, 'c, 'j) running_page" where
  "run_ready M P S u =
     (case queued (so_tasks S (rp_scheduler u)) of
        [] \<Rightarrow> u
      | (i, r) # q \<Rightarrow>
          (let u' = u\<lparr>rp_scheduler := so_ready S (rp_scheduler u)\<rparr> in
           case (rp_owner u ! i, done_callback r) of
             (Some j, Some c) \<Rightarrow> (case pj_callback P j c of None \<Rightarrow> u' | Some ev \<Rightarrow> page_handles M P S ev u')
           | _ \<Rightarrow> u'))"

text \<open>A job returns a value of its own kind.\<close>

definition fits :: "('s, 'e, 'j, 'v) page_jobs \<Rightarrow> 'j option \<Rightarrow> 'v outcome \<Rightarrow> bool" where
  "fits P owner r \<longleftrightarrow>
     (case (owner, done_callback r) of (Some j, Some c) \<Rightarrow> pj_callback P j c \<noteq> None | _ \<Rightarrow> True)"

inductive running_step ::
    "('s, 'e, 'a) page_machine \<Rightarrow> ('s, 'e, 'j, 'v) page_jobs \<Rightarrow> ('c, 'v) scheduler_ops \<Rightarrow>
     ('s, 'c, 'j) running_page \<Rightarrow> ('s, 'c, 'j) running_page \<Rightarrow> bool" for M P S where
  click: "pm_click M ev = Some a \<Longrightarrow> a \<in> set (pm_buttons M (rp_page u)) \<Longrightarrow> running_step M P S u (page_handles M P S ev u)"
| signal: "pm_click M ev = None \<Longrightarrow> pm_signal M ev (rp_page u) \<Longrightarrow> (\<And>j c. pj_callback P j c \<noteq> Some ev) \<Longrightarrow>
    running_step M P S u (page_handles M P S ev u)"
| other_page: "running_step M P S u (submit_task S None u)"
| finish: "i \<in> set (in_flight (so_tasks S (rp_scheduler u))) \<Longrightarrow> fits P (rp_owner u ! i) r \<Longrightarrow>
    running_step M P S u (u\<lparr>rp_scheduler := so_finish S i r (rp_scheduler u)\<rparr>)"
| ready: "running_step M P S u (run_ready M P S u)"

text \<open>The page is built on a scheduler that is already running, with whatever tasks others have there.\<close>

definition start_running :: "('s, 'e, 'a) page_machine \<Rightarrow> ('s, 'e, 'j, 'v) page_jobs \<Rightarrow> ('c, 'v) scheduler_ops \<Rightarrow> 'c \<Rightarrow>
    ('s, 'c, 'j) running_page" where
  "start_running M P S c = submit_all S (pj_pending P (pm_start M))
     \<lparr>rp_page = pm_start M, rp_scheduler = c, rp_owner = replicate (next_task (so_tasks S c)) None\<rparr>"

abbreviation running_reachable ::
    "('s, 'e, 'a) page_machine \<Rightarrow> ('s, 'e, 'j, 'v) page_jobs \<Rightarrow> ('c, 'v) scheduler_ops \<Rightarrow> 'c \<Rightarrow>
     ('s, 'c, 'j) running_page \<Rightarrow> bool" where
  "running_reachable M P S c \<equiv> (running_step M P S)\<^sup>*\<^sup>* (start_running M P S c)"

text \<open>The jobs of the page the scheduler has not called back, oldest first.\<close>

definition uncalled :: "'v tasks \<Rightarrow> nat list" where
  "uncalled t = filter (\<lambda>i. i \<notin> fst ` set (calls t)) [0..<next_task t]"

definition waiting :: "('c, 'v) scheduler_ops \<Rightarrow> ('s, 'c, 'j) running_page \<Rightarrow> 'j list" where
  "waiting S u = List.map_filter (\<lambda>i. rp_owner u ! i) (uncalled (so_tasks S (rp_scheduler u)))"

text \<open>
  A page is served when it is where its own machine can be, and believes pending exactly what
  has not been called back.
\<close>

definition page_served ::
    "('s, 'e, 'a) page_machine \<Rightarrow> ('s, 'e, 'j, 'v) page_jobs \<Rightarrow> ('c, 'v) scheduler_ops \<Rightarrow> ('s, 'c, 'j) running_page \<Rightarrow> bool" where
  "page_served M P S u \<longleftrightarrow> ui_reachable M (rp_page u) \<and> mset (pj_pending P (rp_page u)) = mset (waiting S u)"

text \<open>What of the page's tasks is still in flight or was cancelled holds up nobody.\<close>

definition quiet :: "('j \<Rightarrow> bool) \<Rightarrow> ('c, 'v) scheduler_ops \<Rightarrow> ('s, 'c, 'j) running_page \<Rightarrow> bool" where
  "quiet background S u \<longleftrightarrow> (\<forall>i<length (rp_owner u). \<forall>j.
     i \<in> set (in_flight (so_tasks S (rp_scheduler u))) \<or> (i, Cancelled) \<in> set (finished (so_tasks S (rp_scheduler u))) \<longrightarrow>
     rp_owner u ! i = Some j \<longrightarrow> background j)"

text \<open>The main loop runs what is queued.\<close>

definition deliver_queued ::
    "('s, 'e, 'a) page_machine \<Rightarrow> ('s, 'e, 'j, 'v) page_jobs \<Rightarrow> ('c, 'v) scheduler_ops \<Rightarrow>
     ('s, 'c, 'j) running_page \<Rightarrow> ('s, 'c, 'j) running_page" where
  "deliver_queued M P S u = (run_ready M P S ^^ length (queued (so_tasks S (rp_scheduler u)))) u"

section \<open>Tasks that have not called back\<close>

lemma calls_ids:
  assumes "tasks_ok t"
  shows "fst ` set (calls t) \<subseteq> fst ` set (finished t)" "i \<in> fst ` set (calls t) \<Longrightarrow> i < next_task t"
proof -
  obtain k where k: "calls t = List.map_filter called (take k (finished t))" using assms by (auto simp: tasks_ok_def)
  show sub: "fst ` set (calls t) \<subseteq> fst ` set (finished t)"
    by (force simp: k set_map_filter called_def dest: in_set_takeD)
  then show "i \<in> fst ` set (calls t) \<Longrightarrow> i < next_task t" using assms by (auto simp: tasks_ok_def)
qed

lemma next_queued:
  assumes "tasks_ok t" "queued t = (i, r) # q"
  shows "i \<notin> fst ` set (calls t)" "i < next_task t" "(i, r) \<in> set (finished t)"
proof -
  obtain k where k: "queued t = drop k (finished t)" "calls t = List.map_filter called (take k (finished t))"
    using assms(1) by (auto simp: tasks_ok_def)
  show mem: "(i, r) \<in> set (finished t)" using assms(2) k(1) by (metis in_set_dropD list.set_intros(1))
  then show "i < next_task t" using assms(1) by (force simp: tasks_ok_def)
  have "finished t = take k (finished t) @ (i, r) # q" using assms(2) k(1) by (metis append_take_drop_id)
  moreover have "distinct (List.map fst (finished t))" using assms(1) by (simp add: tasks_ok_def)
  ultimately have "distinct (List.map fst (take k (finished t) @ (i, r) # q))" by simp
  then have "i \<notin> fst ` set (take k (finished t))" by auto
  then show "i \<notin> fst ` set (calls t)" by (force simp: k(2) set_map_filter called_def)
qed

lemma uncalled_create: "tasks_ok t \<Longrightarrow> uncalled (create_task t) = uncalled t @ [next_task t]"
  using calls_ids(2) [of t "next_task t"] by (auto simp: uncalled_def create_task_def)

lemma uncalled_finish [simp]: "uncalled (finish_task i r t) = uncalled t"
  by (simp add: uncalled_def finish_task_def)

lemma uncalled_deliver:
  assumes "tasks_ok t" "queued t = (i, r) # q"
  shows "uncalled (deliver t) = (if done_callback r = None then uncalled t else remove1 i (uncalled t))"
    and "i \<in> set (uncalled t)"
proof -
  show "i \<in> set (uncalled t)" using next_queued [OF assms] by (simp add: uncalled_def)
  have "remove1 i (filter (\<lambda>j. j \<notin> fst ` set (calls t)) [0..<next_task t]) =
      filter (\<lambda>j. j \<noteq> i \<and> j \<notin> fst ` set (calls t)) [0..<next_task t]"
    by (simp add: distinct_remove1_removeAll removeAll_filter_not_eq conj_commute) (metis (no_types, lifting) filter_cong)
  then show "uncalled (deliver t) = (if done_callback r = None then uncalled t else remove1 i (uncalled t))"
    using assms(2) by (auto simp: deliver_def called_def uncalled_def intro!: filter_cong)
qed

lemma uncalled_bound: "i \<in> set (uncalled t) \<Longrightarrow> i < next_task t"
  by (simp add: uncalled_def)

lemma map_filter_owner: "\<forall>i\<in>set xs. i < length ow \<Longrightarrow> List.map_filter (\<lambda>i. (ow @ [j]) ! i) xs = List.map_filter (\<lambda>i. ow ! i) xs"
  by (induction xs) (auto simp: List.map_filter_simps nth_append split: option.split)

lemma mset_map_filter_remove1:
  "i \<in> set xs \<Longrightarrow> mset (List.map_filter f xs) = (case f i of None \<Rightarrow> {#} | Some j \<Rightarrow> {#j#}) + mset (List.map_filter f (remove1 i xs))"
  by (induction xs) (auto simp: List.map_filter_simps split: option.split)

section \<open>The contracts\<close>

text \<open>A started scheduler takes every submission and keeps running; its operations are steps of its loop.\<close>

locale page_scheduler = task_loop step "so_tasks S" "so_ready S"
  for step :: "'c \<Rightarrow> 'c \<Rightarrow> bool" and S :: "('c, 'v) scheduler_ops" +
  fixes running :: "'c \<Rightarrow> bool"
  assumes submit_step: "so_submit S c = (r, c') \<Longrightarrow> step c c'"
    and submit_running: "running c \<Longrightarrow> so_submit S c = (r, c') \<Longrightarrow>
      r = Inr () \<and> running c' \<and> so_tasks S c' = create_task (so_tasks S c)"
    and finish_step: "running c \<Longrightarrow> i \<in> set (in_flight (so_tasks S c)) \<Longrightarrow> step c (so_finish S i x c)"
    and finish_running: "running c \<Longrightarrow> running (so_finish S i x c) \<and> so_tasks S (so_finish S i x c) = finish_task i x (so_tasks S c)"
    and ready_running: "running c \<Longrightarrow> running (so_ready S c)"
begin

lemma submitted:
  assumes "running (rp_scheduler u)"
  obtains c where "submit_task S j u = u\<lparr>rp_scheduler := c, rp_owner := rp_owner u @ [j]\<rparr>" "step (rp_scheduler u) c"
    "running c" "so_tasks S c = create_task (so_tasks S (rp_scheduler u))"
proof -
  obtain r c where "so_submit S (rp_scheduler u) = (r, c)" by (cases "so_submit S (rp_scheduler u)")
  with submit_step submit_running [OF assms] that show thesis by (auto simp: submit_task_def)
qed

text \<open>What holds of the scheduler and the owners, whatever the page does.\<close>

definition serves :: "'c \<Rightarrow> ('s, 'c, 'j) running_page \<Rightarrow> bool" where
  "serves c u \<longleftrightarrow> running (rp_scheduler u) \<and> step\<^sup>*\<^sup>* c (rp_scheduler u) \<and> tasks_ok (so_tasks S (rp_scheduler u)) \<and>
     length (rp_owner u) = next_task (so_tasks S (rp_scheduler u)) \<and>
     (\<forall>i<next_task (so_tasks S (rp_scheduler u)). rp_owner u ! i \<noteq> None \<longrightarrow>
        i \<in> set (in_flight (so_tasks S (rp_scheduler u))) \<union> fst ` set (finished (so_tasks S (rp_scheduler u))))"

lemma step_ok: "step c c' \<Longrightarrow> tasks_ok (so_tasks S c) \<Longrightarrow> tasks_ok (so_tasks S c')"
  by (rule tasks_ok_step [OF step_tasks])

lemma serves_submit:
  assumes "serves c u"
  shows "serves c (submit_task S j u)" "rp_page (submit_task S j u) = rp_page u"
    "waiting S (submit_task S j u) = waiting S u @ (case j of None \<Rightarrow> [] | Some x \<Rightarrow> [x])"
    "rp_owner (submit_task S j u) = rp_owner u @ [j]"
    "queued (so_tasks S (rp_scheduler (submit_task S j u))) = queued (so_tasks S (rp_scheduler u))"
    "finished (so_tasks S (rp_scheduler (submit_task S j u))) = finished (so_tasks S (rp_scheduler u))"
    "in_flight (so_tasks S (rp_scheduler (submit_task S j u))) = in_flight (so_tasks S (rp_scheduler u)) @ [length (rp_owner u)]"
proof -
  let ?t = "so_tasks S (rp_scheduler u)"
  have u: "running (rp_scheduler u)" "tasks_ok ?t" "step\<^sup>*\<^sup>* c (rp_scheduler u)" "length (rp_owner u) = next_task ?t"
    using assms by (simp_all add: serves_def)
  obtain c' where c': "submit_task S j u = u\<lparr>rp_scheduler := c', rp_owner := rp_owner u @ [j]\<rparr>" "step (rp_scheduler u) c'"
    "running c'" "so_tasks S c' = create_task ?t" using submitted [OF u(1)] .
  have "step\<^sup>*\<^sup>* c c'" using u(3) c'(2) by (rule rtranclp.rtrancl_into_rtrancl)
  with c' u assms show "serves c (submit_task S j u)"
    by (auto simp: serves_def tasks_ok_create nth_append less_Suc_eq) (auto simp: create_task_def)
  show "rp_page (submit_task S j u) = rp_page u" by (simp add: c')
  show "rp_owner (submit_task S j u) = rp_owner u @ [j]"
    "queued (so_tasks S (rp_scheduler (submit_task S j u))) = queued ?t"
    "finished (so_tasks S (rp_scheduler (submit_task S j u))) = finished ?t"
    "in_flight (so_tasks S (rp_scheduler (submit_task S j u))) = in_flight ?t @ [length (rp_owner u)]"
    by (simp_all add: c' u(4) create_task_def)
  have "List.map_filter (\<lambda>i. (rp_owner u @ [j]) ! i) (uncalled ?t) = List.map_filter (\<lambda>i. rp_owner u ! i) (uncalled ?t)"
    by (rule map_filter_owner) (auto simp: u(4) dest: uncalled_bound)
  then show "waiting S (submit_task S j u) = waiting S u @ (case j of None \<Rightarrow> [] | Some x \<Rightarrow> [x])"
    using u(2,4) by (simp add: waiting_def c' uncalled_create map_filter_append)
      (simp add: List.map_filter_simps nth_append split: option.split)
qed

text \<open>What submitting several jobs changes.\<close>

definition submitted_jobs :: "'c \<Rightarrow> 'j list \<Rightarrow> ('s, 'c, 'j) running_page \<Rightarrow> ('s, 'c, 'j) running_page \<Rightarrow> bool" where
  "submitted_jobs c js u u' \<longleftrightarrow> serves c u' \<and> waiting S u' = waiting S u @ js \<and> rp_owner u' = rp_owner u @ List.map Some js \<and>
     queued (so_tasks S (rp_scheduler u')) = queued (so_tasks S (rp_scheduler u)) \<and>
     finished (so_tasks S (rp_scheduler u')) = finished (so_tasks S (rp_scheduler u)) \<and>
     in_flight (so_tasks S (rp_scheduler u')) =
       in_flight (so_tasks S (rp_scheduler u)) @ [length (rp_owner u)..<length (rp_owner u) + length js]"

lemma serves_submit_all:
  "serves c u \<Longrightarrow> submitted_jobs c js u (submit_all S js u) \<and> rp_page (submit_all S js u) = rp_page u"
proof (induction js arbitrary: u)
  case (Cons j js)
  let ?v = "submit_task S (Some j) u"
  have "submit_all S (j # js) u = submit_all S js ?v" by (simp add: submit_all_def)
  moreover have "submitted_jobs c js ?v (submit_all S js ?v) \<and> rp_page (submit_all S js ?v) = rp_page ?v"
    by (rule Cons.IH [OF serves_submit(1) [OF Cons.prems]])
  ultimately show ?case
    using serves_submit [OF Cons.prems, of "Some j"] by (simp add: submitted_jobs_def upt_conv_Cons del: upt_Suc)
qed (simp add: submit_all_def submitted_jobs_def)

lemma serves_page [simp]: "serves c (u\<lparr>rp_page := s\<rparr>) = serves c u" "waiting S (u\<lparr>rp_page := s\<rparr>) = waiting S u"
  by (simp_all add: serves_def waiting_def)

lemma submitted_page [simp]: "submitted_jobs c js (u\<lparr>rp_page := s\<rparr>) u' = submitted_jobs c js u u'"
  by (simp add: submitted_jobs_def)

lemma serves_handles:
  "serves c u \<Longrightarrow> submitted_jobs c (pj_submits P ev (rp_page u)) u (page_handles M P S ev u) \<and>
     rp_page (page_handles M P S ev u) = pm_event M ev (rp_page u)"
  using serves_submit_all [of c "u\<lparr>rp_page := pm_event M ev (rp_page u)\<rparr>"] by (simp add: page_handles_def)

lemma serves_finish:
  assumes "serves c u" "i \<in> set (in_flight (so_tasks S (rp_scheduler u)))"
  shows "serves c (u\<lparr>rp_scheduler := so_finish S i r (rp_scheduler u)\<rparr>)"
    "waiting S (u\<lparr>rp_scheduler := so_finish S i r (rp_scheduler u)\<rparr>) = waiting S u"
proof -
  let ?t = "so_tasks S (rp_scheduler u)"
  have u: "running (rp_scheduler u)" "tasks_ok ?t" "step\<^sup>*\<^sup>* c (rp_scheduler u)" using assms by (simp_all add: serves_def)
  have fin: "running (so_finish S i r (rp_scheduler u))" "so_tasks S (so_finish S i r (rp_scheduler u)) = finish_task i r ?t"
    using finish_running [OF u(1)] by simp_all
  have "distinct (in_flight ?t)" using u(2) by (simp add: tasks_ok_def)
  moreover have "step\<^sup>*\<^sup>* c (so_finish S i r (rp_scheduler u))"
    using u(3) finish_step [OF u(1) assms(2)] by (rule rtranclp.rtrancl_into_rtrancl)
  ultimately show "serves c (u\<lparr>rp_scheduler := so_finish S i r (rp_scheduler u)\<rparr>)"
    using assms fin tasks_ok_finish [OF u(2) assms(2)]
    by (auto simp: serves_def finish_task_def set_remove1_eq)
  show "waiting S (u\<lparr>rp_scheduler := so_finish S i r (rp_scheduler u)\<rparr>) = waiting S u" by (simp add: waiting_def fin)
qed

lemma serves_ready:
  assumes "serves c u"
  shows "serves c (u\<lparr>rp_scheduler := so_ready S (rp_scheduler u)\<rparr>)"
proof -
  let ?t = "so_tasks S (rp_scheduler u)"
  have u: "running (rp_scheduler u)" "tasks_ok ?t" "step\<^sup>*\<^sup>* c (rp_scheduler u)" using assms by (simp_all add: serves_def)
  have "step\<^sup>*\<^sup>* c (so_ready S (rp_scheduler u))" using u(3) run_one_step by (rule rtranclp.rtrancl_into_rtrancl)
  moreover have "next_task (deliver ?t) = next_task ?t" "in_flight (deliver ?t) = in_flight ?t"
    by (simp_all add: deliver_def split: list.split)
  ultimately show ?thesis
    using assms by (simp add: serves_def ready_running run_one_tasks tasks_ok_deliver)
qed

end

text \<open>
  A page whose bookkeeping of its jobs is right. A background job is one whose completions and
  the jobs of completions never hold up the user.
\<close>

locale async_page = page_ui M inv
  for M :: "('s, 'e, 'a) page_machine" and inv :: "'s \<Rightarrow> bool" +
  fixes P :: "('s, 'e, 'j, 'v) page_jobs" and background :: "'j \<Rightarrow> bool"
  assumes callback_signal: "pj_callback P j r = Some ev \<Longrightarrow> pm_click M ev = None"
    and callback_enabled: "pj_callback P j r = Some ev \<Longrightarrow> j \<in> set (pj_pending P s) \<Longrightarrow> pm_signal M ev s"
    and callback_pending: "pj_callback P j r = Some ev \<Longrightarrow> j \<in> set (pj_pending P s) \<Longrightarrow>
      mset (pj_pending P (pm_event M ev s)) = mset (remove1 j (pj_pending P s)) + mset (pj_submits P ev s)"
    and other_pending: "inv s \<Longrightarrow> ui_step M s ev s' \<Longrightarrow> (\<And>j r. pj_callback P j r \<noteq> Some ev) \<Longrightarrow>
      mset (pj_pending P s') = mset (pj_pending P s) + mset (pj_submits P ev s)"
    and callback_background: "pj_callback P j r = Some ev \<Longrightarrow> list_all background (pj_submits P ev s)"

locale async_system = async_page M inv P background + page_scheduler step S running
  for M :: "('s, 'e, 'a) page_machine" and inv :: "'s \<Rightarrow> bool" and P :: "('s, 'e, 'j, 'v) page_jobs"
    and background :: "'j \<Rightarrow> bool" and step :: "'c \<Rightarrow> 'c \<Rightarrow> bool" and S :: "('c, 'v) scheduler_ops"
    and running :: "'c \<Rightarrow> bool"
begin

definition in_step :: "'c \<Rightarrow> ('s, 'c, 'j) running_page \<Rightarrow> bool" where
  "in_step c u \<longleftrightarrow> serves c u \<and> ui_reachable M (rp_page u) \<and> mset (pj_pending P (rp_page u)) = mset (waiting S u) \<and>
     list_all (\<lambda>(i, r). fits P (rp_owner u ! i) r) (queued (so_tasks S (rp_scheduler u)))"

text \<open>The queue holds tasks with an owner, whose entry later submissions leave alone.\<close>

lemma queued_owner:
  assumes "serves c u" "(i, r) \<in> set (queued (so_tasks S (rp_scheduler u)))"
  shows "i < length (rp_owner u)"
proof -
  let ?t = "so_tasks S (rp_scheduler u)"
  have ok: "tasks_ok ?t" "length (rp_owner u) = next_task ?t" using assms(1) by (simp_all add: serves_def)
  then obtain k where "queued ?t = drop k (finished ?t)" by (auto simp: tasks_ok_def)
  with assms(2) have "(i, r) \<in> set (finished ?t)" by (simp add: in_set_dropD)
  then have "i \<in> fst ` set (finished ?t)" by (rule image_eqI [rotated]) simp
  with ok show ?thesis by (simp add: tasks_ok_def)
qed

lemma fits_submitted:
  assumes "serves c u" "list_all (\<lambda>(i, r). fits P (rp_owner u ! i) r) (queued (so_tasks S (rp_scheduler u)))"
  shows "list_all (\<lambda>(i, r). fits P ((rp_owner u @ xs) ! i) r) (queued (so_tasks S (rp_scheduler u)))"
  using assms(2) queued_owner [OF assms(1)] by (auto simp: list_all_iff nth_append)

lemma in_step_submitted:
  assumes "serves c u" "list_all (\<lambda>(i, r). fits P (rp_owner u ! i) r) (queued (so_tasks S (rp_scheduler u)))"
    and "submitted_jobs c js u u'" "ui_reachable M (rp_page u')"
    and "mset (pj_pending P (rp_page u')) = mset (waiting S u) + mset js"
  shows "in_step c u'"
  using fits_submitted [OF assms(1,2)] assms(3-5) by (simp add: in_step_def submitted_jobs_def)

lemma in_step_handles:
  assumes "in_step c u" "ui_step M (rp_page u) ev (pm_event M ev (rp_page u))" "\<And>j r. pj_callback P j r \<noteq> Some ev"
  shows "in_step c (page_handles M P S ev u)"
proof -
  have u: "serves c u" "ui_reachable M (rp_page u)" "mset (pj_pending P (rp_page u)) = mset (waiting S u)"
    "list_all (\<lambda>(i, r). fits P (rp_owner u ! i) r) (queued (so_tasks S (rp_scheduler u)))" using assms(1) by (simp_all add: in_step_def)
  have "mset (pj_pending P (pm_event M ev (rp_page u))) = mset (waiting S u) + mset (pj_submits P ev (rp_page u))"
    using other_pending [OF reachable_inv [OF u(2)] assms(2,3)] u(3) by simp
  moreover have "ui_reachable M (pm_event M ev (rp_page u))" using u(2) assms(2) by (rule ui_reachable.move)
  ultimately show ?thesis
    using serves_handles [OF u(1), of P ev M] by (intro in_step_submitted [OF u(1,4)]) simp_all
qed

lemma in_step_ready:
  assumes "in_step c u"
  shows "in_step c (run_ready M P S u)"
proof (cases "queued (so_tasks S (rp_scheduler u))")
  case Nil
  with assms show ?thesis by (simp add: run_ready_def)
next
  case (Cons t q)
  obtain i r where t: "t = (i, r)" by (cases t)
  let ?t = "so_tasks S (rp_scheduler u)" and ?u = "u\<lparr>rp_scheduler := so_ready S (rp_scheduler u)\<rparr>"
  have u: "serves c u" "ui_reachable M (rp_page u)" "mset (pj_pending P (rp_page u)) = mset (waiting S u)"
    "list_all (\<lambda>(i, r). fits P (rp_owner u ! i) r) (queued ?t)" using assms by (simp_all add: in_step_def)
  have ok: "tasks_ok ?t" using u(1) by (simp add: serves_def)
  have q: "queued ?t = (i, r) # q" using Cons t by simp
  have v: "serves c ?u" by (rule serves_ready [OF u(1)])
  have tasks: "so_tasks S (so_ready S (rp_scheduler u)) = deliver ?t" by (rule run_one_tasks)
  note less = uncalled_deliver [OF ok q]
  have wait: "mset (waiting S u) = (if done_callback r = None then {#} else case rp_owner u ! i of None \<Rightarrow> {#} | Some j \<Rightarrow> {#j#}) + mset (waiting S ?u)"
    using mset_map_filter_remove1 [OF less(2), of "\<lambda>i. rp_owner u ! i"] by (simp add: waiting_def tasks less(1))
  have fit: "fits P (rp_owner u ! i) r" using u(4) q by simp
  have rest: "list_all (\<lambda>(i, r). fits P (rp_owner u ! i) r) q" using u(4) q by simp
  show ?thesis
  proof (cases "rp_owner u ! i = None \<or> done_callback r = None")
    case True
    then have "run_ready M P S u = ?u" by (auto simp: run_ready_def q Let_def split: option.split)
    with True u v wait rest show ?thesis by (auto simp: in_step_def tasks q)
  next
    case False
    then obtain j cb where j: "rp_owner u ! i = Some j" "done_callback r = Some cb" by auto
    with fit obtain ev where ev: "pj_callback P j cb = Some ev" by (auto simp: fits_def)
    have run: "run_ready M P S u = page_handles M P S ev ?u" by (simp add: run_ready_def q Let_def j ev)
    have all: "mset (pj_pending P (rp_page u)) = add_mset j (mset (waiting S ?u))" using u(3) wait j by simp
    have "j \<in># mset (pj_pending P (rp_page u))" unfolding all by simp
    then have mem: "j \<in> set (pj_pending P (rp_page u))" by simp
    have "mset (remove1 j (pj_pending P (rp_page u))) = mset (waiting S ?u)" by (simp add: all)
    then have "mset (pj_pending P (pm_event M ev (rp_page u))) = mset (waiting S ?u) + mset (pj_submits P ev (rp_page u))"
      using callback_pending [OF ev mem] by simp
    moreover have "ui_reachable M (pm_event M ev (rp_page u))"
      using u(2) ui_step.signal [where M = M, OF callback_signal [OF ev] callback_enabled [OF ev mem]] by (rule ui_reachable.move)
    moreover have "list_all (\<lambda>(i, r). fits P (rp_owner ?u ! i) r) (queued (so_tasks S (rp_scheduler ?u)))"
      using rest by (simp add: tasks q)
    ultimately show ?thesis
      using serves_handles [OF v, of P ev M] unfolding run by (intro in_step_submitted [OF v]) simp_all
  qed
qed

lemma in_step_step:
  assumes "in_step c u" "running_step M P S u u'"
  shows "in_step c u'"
  using assms(2)
proof cases
  case (click ev a)
  then have "pj_callback P j r \<noteq> Some ev" for j r using callback_signal by fastforce
  with click assms(1) show ?thesis by (auto intro!: in_step_handles ui_step.click)
next
  case (signal ev)
  with assms(1) show ?thesis by (auto intro!: in_step_handles ui_step.signal)
next
  case other_page
  have u: "serves c u" using assms(1) by (simp add: in_step_def)
  have "list_all (\<lambda>(i, r). fits P (rp_owner u ! i) r) (queued (so_tasks S (rp_scheduler u)))"
    using assms(1) by (simp add: in_step_def)
  from other_page assms(1) serves_submit [OF u, of None] fits_submitted [OF u this, of "[None]"] show ?thesis
    by (simp add: in_step_def)
next
  case (finish i r)
  have u: "serves c u" using assms(1) by (simp add: in_step_def)
  then have "so_tasks S (so_finish S i r (rp_scheduler u)) = finish_task i r (so_tasks S (rp_scheduler u))"
    by (simp add: serves_def finish_running)
  with finish assms(1) serves_finish [OF u finish(2)] show ?thesis by (simp add: in_step_def finish_task_def)
next
  case ready
  with assms(1) in_step_ready show ?thesis by simp
qed

lemma in_step_start:
  assumes "running c" "tasks_ok (so_tasks S c)"
  shows "in_step c (start_running M P S c)"
proof -
  let ?t = "so_tasks S c"
  let ?u = "\<lparr>rp_page = pm_start M, rp_scheduler = c, rp_owner = replicate (next_task ?t) None\<rparr> :: ('s, 'c, 'j) running_page"
  have s: "serves c ?u" using assms by (simp add: serves_def)
  have "List.map_filter (\<lambda>i. replicate (next_task ?t) None ! i) (uncalled ?t) = ([] :: 'j list)"
    by (auto simp: List.map_filter_def filter_empty_conv dest: uncalled_bound)
  then have w: "waiting S ?u = []" by (simp add: waiting_def)
  have "i < next_task ?t" if "(i, r) \<in> set (queued ?t)" for i r
    using queued_owner [OF s, of i r] that by simp
  then have "list_all (\<lambda>(i, r). fits P (rp_owner ?u ! i) r) (queued (so_tasks S (rp_scheduler ?u)))"
    by (auto simp: list_all_iff fits_def)
  with serves_submit_all [OF s, of "pj_pending P (pm_start M)"] w show ?thesis
    unfolding start_running_def by (intro in_step_submitted [OF s]) (simp_all add: ui_reachable.start)
qed

lemma reachable_in_step:
  assumes "running_reachable M P S c u" "running c" "tasks_ok (so_tasks S c)"
  shows "in_step c u"
  using assms(1) by (induction rule: rtranclp_induct) (auto intro: in_step_step in_step_start [OF assms(2,3)])

lemma quiet_drained:
  assumes "quiet background S u" "serves c u" "queued (so_tasks S (rp_scheduler u)) = []"
  shows "list_all background (waiting S u)"
proof -
  let ?t = "so_tasks S (rp_scheduler u)"
  have calls: "calls ?t = List.map_filter called (finished ?t)" using assms(2,3) by (intro drained_calls) (simp_all add: serves_def)
  have "background j" if i: "i \<in> set (uncalled ?t)" "rp_owner u ! i = Some j" for i j
  proof -
    have less: "i < next_task ?t" "i < length (rp_owner u)" using i(1) assms(2) by (auto simp: uncalled_def serves_def)
    have "(i, Cancelled) \<in> set (finished ?t)" if r: "(i, r) \<in> set (finished ?t)" for r
    proof -
      have "done_callback r = None"
        using r i(1) by (cases "done_callback r") (force simp: uncalled_def calls set_map_filter called_def)+
      with r show ?thesis by (cases r) simp_all
    qed
    moreover have "i \<in> set (in_flight ?t) \<or> (\<exists>r. (i, r) \<in> set (finished ?t))" using assms(2) less(1) i(2) by (force simp: serves_def)
    ultimately show ?thesis using assms(1) less(2) i(2) unfolding quiet_def by blast
  qed
  then show ?thesis by (auto simp: waiting_def list_all_iff set_map_filter)
qed

lemma deliver_in_flight [simp]: "in_flight (deliver t) = in_flight t"
  by (simp add: deliver_def split: list.split)

lemma quiet_submitted:
  assumes "quiet background S u" "serves c u" "submitted_jobs c js u u'" "list_all background js"
  shows "quiet background S u'"
  unfolding quiet_def
proof (intro allI impI)
  fix i j
  assume i: "i < length (rp_owner u')" "rp_owner u' ! i = Some j"
    "i \<in> set (in_flight (so_tasks S (rp_scheduler u'))) \<or> (i, Cancelled) \<in> set (finished (so_tasks S (rp_scheduler u')))"
  note owner = assms(3) [unfolded submitted_jobs_def]
  show "background j"
  proof (cases "i < length (rp_owner u)")
    case True
    then have "rp_owner u ! i = Some j" using i(2) owner by (simp add: nth_append)
    moreover have "i \<in> set (in_flight (so_tasks S (rp_scheduler u))) \<or> (i, Cancelled) \<in> set (finished (so_tasks S (rp_scheduler u)))"
      using i(3) owner True by auto
    ultimately show ?thesis using assms(1) True unfolding quiet_def by blast
  next
    case False
    then have "j \<in> set js" using i(1,2) owner by (auto simp: nth_append)
    with assms(4) show ?thesis by (simp add: list_all_iff)
  qed
qed

lemma quiet_ready:
  assumes "quiet background S u" "in_step c u"
  shows "quiet background S (run_ready M P S u)"
    "queued (so_tasks S (rp_scheduler (run_ready M P S u))) = tl (queued (so_tasks S (rp_scheduler u)))"
proof -
  let ?u = "u\<lparr>rp_scheduler := so_ready S (rp_scheduler u)\<rparr>"
  have s: "serves c u" using assms(2) by (simp add: in_step_def)
  have v: "serves c ?u" "quiet background S ?u" "queued (so_tasks S (rp_scheduler ?u)) = tl (queued (so_tasks S (rp_scheduler u)))"
    using serves_ready [OF s] assms(1) by (simp_all add: quiet_def run_one_tasks)
  have handled: "quiet background S (page_handles M P S ev ?u) \<and>
      queued (so_tasks S (rp_scheduler (page_handles M P S ev ?u))) = tl (queued (so_tasks S (rp_scheduler u)))"
    if "pj_callback P j r = Some ev" for j r ev
  proof -
    have sub: "submitted_jobs c (pj_submits P ev (rp_page ?u)) ?u (page_handles M P S ev ?u)"
      using serves_handles [OF v(1), of P ev M] by (rule conjunct1)
    have "quiet background S (page_handles M P S ev ?u)" by (rule quiet_submitted [OF v(2,1) sub callback_background [OF that]])
    with sub v(3) show ?thesis by (simp add: submitted_jobs_def)
  qed
  have "quiet background S (run_ready M P S u) \<and>
    queued (so_tasks S (rp_scheduler (run_ready M P S u))) = tl (queued (so_tasks S (rp_scheduler u)))"
  proof (cases "queued (so_tasks S (rp_scheduler u))")
    case Nil
    with assms(1) show ?thesis by (simp add: run_ready_def)
  next
    case (Cons t q)
    obtain i r where t: "t = (i, r)" by (cases t)
    have "run_ready M P S u = ?u \<or> (\<exists>ev j r. pj_callback P j r = Some ev \<and> run_ready M P S u = page_handles M P S ev ?u)"
      unfolding run_ready_def Cons t by (auto simp: Let_def split: option.split)
    then show ?thesis using v(2,3) handled by auto
  qed
  then show "quiet background S (run_ready M P S u)"
    "queued (so_tasks S (rp_scheduler (run_ready M P S u))) = tl (queued (so_tasks S (rp_scheduler u)))" by blast+
qed

lemma drains_to_background:
  assumes "in_step c u" "quiet background S u"
  defines "v \<equiv> deliver_queued M P S u"
  shows "(running_step M P S)\<^sup>*\<^sup>* u v" "in_step c v" "list_all background (waiting S v)"
proof -
  have q: "in_step c ((run_ready M P S ^^ n) u) \<and> quiet background S ((run_ready M P S ^^ n) u) \<and>
      queued (so_tasks S (rp_scheduler ((run_ready M P S ^^ n) u))) = drop n (queued (so_tasks S (rp_scheduler u)))" for n
    by (induction n) (use assms(1,2) in \<open>auto simp: quiet_ready in_step_ready drop_Suc tl_drop\<close>)
  show "in_step c v" using q unfolding v_def deliver_queued_def by blast
  have "queued (so_tasks S (rp_scheduler v)) = []" using q [of "length (queued (so_tasks S (rp_scheduler u)))"] by (simp add: v_def deliver_queued_def)
  with q show "list_all background (waiting S v)" unfolding v_def deliver_queued_def by (intro quiet_drained [where c = c]) (auto simp: in_step_def)
  have "(running_step M P S)\<^sup>*\<^sup>* u ((run_ready M P S ^^ n) u)" for n
    by (induction n) (auto intro: rtranclp.rtrancl_into_rtrancl running_step.ready)
  then show "(running_step M P S)\<^sup>*\<^sup>* u v" by (simp add: v_def deliver_queued_def)
qed

lemma reachable_served: "running_reachable M P S c u \<Longrightarrow> running c \<Longrightarrow> tasks_ok (so_tasks S c) \<Longrightarrow> page_served M P S u"
  using reachable_in_step [of c u] by (simp add: page_served_def in_step_def)

lemma delivered_served:
  assumes "running_reachable M P S c u" "running c" "tasks_ok (so_tasks S c)" "quiet background S u"
  shows "page_served M P S (deliver_queued M P S u)" "list_all background (waiting S (deliver_queued M P S u))"
  using drains_to_background [OF reachable_in_step [OF assms(1-3)] assms(4)] by (simp_all add: page_served_def in_step_def)

end

end
