(* ===== verification/RunningPages.thy ===== *)
theory RunningPages
  imports AsyncPages FirmwareView StorageView DiagnosticsView
begin

text \<open>
  The firmware, storage and diagnostics pages on either scheduler: which jobs their handlers
  submit, and which handler each callback is. The interpretations show that the machines of the
  views keep the contract of \<open>AsyncPages\<close>, so what was shown of the pages holds when their
  completions are what a scheduler delivers.
\<close>

section \<open>The schedulers\<close>

interpretation native_port: page_scheduler native_step native_ops n_loop
proof (unfold_locales, goal_cases)
  case (1 s s')
  then show ?case by (simp add: native_ops_def native_tasks)
qed (auto simp: native_ops_def native_submit_def intro: native_step.intros split: if_splits)

interpretation thread_port: page_scheduler thread_step thread_ops t_loop
proof (unfold_locales, goal_cases)
  case (1 s s')
  then show ?case by (simp add: thread_ops_def thread_tasks)
qed (auto simp: thread_ops_def thread_submit_def intro: thread_step.intros split: if_splits)

section \<open>The firmware page\<close>

datatype firmware_value = GatheredValue gathered | FirmwareDone

fun firmware_submits :: "firmware_event \<Rightarrow> firmware_vm \<Rightarrow> firmware_job list" where
  "firmware_submits Load v = [GatherJob]"
| "firmware_submits Timer v = (if fv_installing v then [] else [GatherJob])"
| "firmware_submits Refresh v = (if fv_busy_text v \<noteq> [] then [] else [RefreshJob])"
| "firmware_submits (Install d r battery) v =
     (if fv_busy_text v \<noteq> [] \<or> \<not> battery_ok_for_update (fst battery) (snd battery) then [] else [InstallJob d r])"
| "firmware_submits (Refreshed (Inr _)) v = [GatherJob]"
| "firmware_submits (Installed d r (Inr _)) v = [GatherJob]"
| "firmware_submits (Installed d r (Inl e)) v = (case e of FirmwareInstallFailed _ _ \<Rightarrow> [GatherJob] | _ \<Rightarrow> [])"
| "firmware_submits _ v = []"

fun firmware_callback :: "firmware_job \<Rightarrow> firmware_value callback \<Rightarrow> firmware_event option" where
  "firmware_callback GatherJob (OnSuccess (GatheredValue data)) = Some (Gathered (Inr data))"
| "firmware_callback GatherJob (OnError e) = Some (Gathered (Inl e))"
| "firmware_callback RefreshJob (OnSuccess FirmwareDone) = Some (Refreshed (Inr ()))"
| "firmware_callback RefreshJob (OnError e) = Some (Refreshed (Inl e))"
| "firmware_callback (InstallJob d r) (OnSuccess FirmwareDone) = Some (Installed d r (Inr ()))"
| "firmware_callback (InstallJob d r) (OnError e) = Some (Installed d r (Inl e))"
| "firmware_callback _ _ = None"

definition firmware_jobs :: "(firmware_vm \<times> firmware_view, firmware_event, firmware_job, firmware_value) page_jobs" where
  "firmware_jobs = \<lparr>pj_pending = (\<lambda>s. fv_jobs (fst s)), pj_submits = (\<lambda>ev s. firmware_submits ev (fst s)),
     pj_callback = firmware_callback\<rparr>"

lemma firmware_ui_jobs: "fv_jobs (fst (firmware_ui ev s)) = fv_jobs (handle ev (fst s))"
proof (cases s)
  case (Pair v w)
  have "fv_jobs (fst (fold notify_view (assigned ev v) (handle ev v, w))) = fv_jobs (handle ev v)"
    using notify_fst [of "assigned ev v" "handle ev v" w] by auto
  with Pair show ?thesis by (simp add: firmware_ui_apply)
qed

lemma firmware_callback_cases:
  "firmware_callback j c = Some ev \<Longrightarrow>
   (\<exists>x. j = GatherJob \<and> ev = Gathered x) \<or> (\<exists>x. j = RefreshJob \<and> ev = Refreshed x) \<or>
   (\<exists>d r x. j = InstallJob d r \<and> ev = Installed d r x)"
  by (cases "(j, c)" rule: firmware_callback.cases) auto

lemma firmware_callback_ex:
  "\<exists>j c. firmware_callback j c = Some (Gathered x)" "\<exists>j c. firmware_callback j c = Some (Refreshed y)"
  "\<exists>j c. firmware_callback j c = Some (Installed d r y)"
proof -
  have "firmware_callback GatherJob (case x of Inl e \<Rightarrow> OnError e | Inr data \<Rightarrow> OnSuccess (GatheredValue data)) = Some (Gathered x)"
    "firmware_callback RefreshJob (case y of Inl e \<Rightarrow> OnError e | Inr _ \<Rightarrow> OnSuccess FirmwareDone) = Some (Refreshed y)"
    "firmware_callback (InstallJob d r) (case y of Inl e \<Rightarrow> OnError e | Inr _ \<Rightarrow> OnSuccess FirmwareDone) = Some (Installed d r y)"
    by (cases x; simp) (cases y; simp)+
  then show "\<exists>j c. firmware_callback j c = Some (Gathered x)" "\<exists>j c. firmware_callback j c = Some (Refreshed y)"
    "\<exists>j c. firmware_callback j c = Some (Installed d r y)" by blast+
qed

lemma handle_completes:
  "firmware_callback j c = Some ev \<Longrightarrow> fv_jobs (handle ev v) = remove1 j (fv_jobs v) @ firmware_submits ev v"
proof (drule firmware_callback_cases, elim disjE exE conjE)
  fix d r x assume "j = InstallJob d r" "ev = Installed d r x"
  then show "fv_jobs (handle ev v) = remove1 j (fv_jobs v) @ firmware_submits ev v"
    by (cases x; (cases "projl x")?) (simp_all add: step_defs Let_def del: handle_error.simps)
next
  fix x assume "j = RefreshJob" "ev = Refreshed x"
  then show "fv_jobs (handle ev v) = remove1 j (fv_jobs v) @ firmware_submits ev v"
    by (cases x) (simp_all add: step_defs)
next
  fix x assume "j = GatherJob" "ev = Gathered x"
  then show "fv_jobs (handle ev v) = remove1 j (fv_jobs v) @ firmware_submits ev v"
    by (cases x) (simp_all add: step_defs del: handle_error.simps)
qed

lemma handle_submits:
  assumes "\<And>j c. firmware_callback j c \<noteq> Some ev"
  shows "fv_jobs (handle ev v) = fv_jobs v @ firmware_submits ev v"
proof (cases ev)
  case (Gathered x)
  with assms firmware_callback_ex(1) show ?thesis by blast
next
  case (Refreshed x)
  with assms firmware_callback_ex(2) show ?thesis by blast
next
  case (Installed d r x)
  with assms firmware_callback_ex(3) show ?thesis by blast
qed (simp_all add: step_defs Let_def)

lemma firmware_async: "async_page firmware_machine firmware_ui_inv firmware_jobs (\<lambda>j. j = GatherJob)"
proof (unfold_locales, goal_cases)
  case (1 j r ev)
  then show ?case by (auto simp: firmware_jobs_def firmware_machine_def dest: firmware_callback_cases)
next
  case (2 j r ev s)
  then show ?case by (auto simp: firmware_jobs_def firmware_machine_def dest: firmware_callback_cases)
next
  case (3 j r ev s)
  then show ?case by (simp add: firmware_jobs_def firmware_machine_def firmware_ui_jobs handle_completes)
next
  case (4 s ev s')
  then have "s' = firmware_ui ev s" by (auto simp: firmware_machine_def elim: ui_stepE)
  with 4 show ?case by (simp add: firmware_jobs_def firmware_ui_jobs handle_submits)
next
  case (5 j r ev s)
  then have "list_all (\<lambda>j. j = GatherJob) (firmware_submits ev (fst s))"
    by (cases "(ev, fst s)" rule: firmware_submits.cases) (auto simp: firmware_jobs_def dest: firmware_callback_cases split: exn.split)
  then show ?case by (simp add: firmware_jobs_def)
qed

interpretation firmware_native: async_system firmware_machine firmware_ui_inv firmware_jobs "\<lambda>j. j = GatherJob"
    native_step native_ops n_loop
  by (intro async_system.intro firmware_async native_port.page_scheduler_axioms)

interpretation firmware_thread: async_system firmware_machine firmware_ui_inv firmware_jobs "\<lambda>j. j = GatherJob"
    thread_step thread_ops t_loop
  by (intro async_system.intro firmware_async thread_port.page_scheduler_axioms)

text \<open>The page can be used exactly when nothing but reloads is pending.\<close>

lemma firmware_sensitive:
  assumes "page_served firmware_machine firmware_jobs S u"
  shows "pv_sensitive (snd (rp_page u)) = list_all (\<lambda>j. j = GatherJob) (waiting S u)"
proof -
  have "firmware_ui_inv (rp_page u)" using assms firmware_page.reachable_inv by (simp add: page_served_def)
  then have "pv_sensitive (snd (rp_page u)) = (exclusive (fst (rp_page u)) = [])"
    by (auto simp: firmware_ui_inv_def firmware_inv_def split: prod.splits if_splits)
  also have "\<dots> = list_all (\<lambda>j. j = GatherJob) (fv_jobs (fst (rp_page u)))"
    by (auto simp: exclusive_def list_all_iff filter_empty_conv)
  also have "set (fv_jobs (fst (rp_page u))) = set (waiting S u)"
    using assms by (auto simp: page_served_def firmware_jobs_def dest: mset_eq_setD)
  then have "list_all (\<lambda>j. j = GatherJob) (fv_jobs (fst (rp_page u))) = list_all (\<lambda>j. j = GatherJob) (waiting S u)"
    by (simp add: list_all_iff)
  finally show ?thesis .
qed

section \<open>The storage page\<close>

datatype storage_value = DevicesValue "storage_device list" | HealthValue health_results

fun storage_submits :: "storage_event \<Rightarrow> storage_vm \<Rightarrow> storage_job list" where
  "storage_submits LoadStorage v = [InventoryJob]"
| "storage_submits ReadHealth v =
     (if sv_busy_text v \<noteq> [] \<or> sv_cards v = [] then [] else [HealthJob (List.map sc_name (sv_cards v))])"
| "storage_submits _ v = []"

fun storage_callback :: "storage_job \<Rightarrow> storage_value callback \<Rightarrow> storage_event option" where
  "storage_callback InventoryJob (OnSuccess (DevicesValue devices)) = Some (Listed devices)"
| "storage_callback InventoryJob (OnError e) = Some (ListFailed e)"
| "storage_callback (HealthJob names) (OnSuccess (HealthValue results)) = Some (HealthRead names results)"
| "storage_callback (HealthJob names) (OnError e) = Some (HealthFailed names e)"
| "storage_callback _ _ = None"

definition storage_jobs :: "(storage_ui_state, storage_event, storage_job, storage_value) page_jobs" where
  "storage_jobs = \<lparr>pj_pending = (\<lambda>s. sv_jobs (fst s)), pj_submits = (\<lambda>ev s. storage_submits ev (fst s)),
     pj_callback = storage_callback\<rparr>"

lemma storage_callback_cases:
  "storage_callback j c = Some ev \<Longrightarrow>
   j = InventoryJob \<and> ((\<exists>ds. ev = Listed ds) \<or> (\<exists>e. ev = ListFailed e)) \<or>
   (\<exists>names. j = HealthJob names \<and> ((\<exists>rs. ev = HealthRead names rs) \<or> (\<exists>e. ev = HealthFailed names e)))"
  by (cases "(j, c)" rule: storage_callback.cases) auto

lemma storage_callback_ex:
  "\<exists>j c. storage_callback j c = Some (Listed ds)" "\<exists>j c. storage_callback j c = Some (ListFailed e)"
  "\<exists>j c. storage_callback j c = Some (HealthRead names rs)" "\<exists>j c. storage_callback j c = Some (HealthFailed names e)"
  by (meson storage_callback.simps)+

lemma storage_error_jobs [simp]: "sv_jobs (handle_error e v) = sv_jobs v"
  by (cases e; simp add: page_defs)

lemma storage_notified_jobs: "sv_jobs (fst (fold storage_notified ns (v, w))) = sv_jobs v"
proof (induction ns arbitrary: v w)
  case (Cons n ns)
  then show ?case by (cases n) (simp_all add: storage_toast_def)
qed simp

lemma storage_ui_jobs: "sv_jobs (fst (storage_ui ev s)) = sv_jobs (storage_handle ev (fst s))"
  by (cases s) (simp add: storage_ui_apply storage_notified_jobs)

lemmas storage_handlers = load_storage_def apply_storage_def storage_load_failed_def read_health_def health_done_def
  health_failed_def complete_storage_job_def page_defs

lemma storage_completes:
  "storage_callback j c = Some ev \<Longrightarrow> sv_jobs (storage_handle ev v) = remove1 j (sv_jobs v) \<and> storage_submits ev v = []"
  by (drule storage_callback_cases) (auto simp: storage_handlers simp del: handle_error.simps)

lemma storage_submitted:
  assumes "\<And>j c. storage_callback j c \<noteq> Some ev"
  shows "sv_jobs (storage_handle ev v) = sv_jobs v @ storage_submits ev v"
proof (cases ev)
  case (Listed ds)
  with assms storage_callback_ex(1) show ?thesis by blast
next
  case (ListFailed e)
  with assms storage_callback_ex(2) show ?thesis by blast
next
  case (HealthRead names rs)
  with assms storage_callback_ex(3) show ?thesis by blast
next
  case (HealthFailed names e)
  with assms storage_callback_ex(4) show ?thesis by blast
qed (simp_all add: storage_handlers)

lemma storage_async: "async_page storage_machine storage_ui_inv storage_jobs (\<lambda>j. j = InventoryJob)"
proof (unfold_locales, goal_cases)
  case (1 j r ev)
  then show ?case by (auto simp: storage_jobs_def storage_machine_def dest: storage_callback_cases)
next
  case (2 j r ev s)
  then show ?case by (auto simp: storage_jobs_def storage_machine_def dest: storage_callback_cases)
next
  case (3 j r ev s)
  then show ?case by (simp add: storage_jobs_def storage_machine_def storage_ui_jobs storage_completes)
next
  case (4 s ev s')
  then have "s' = storage_ui ev s" by (auto simp: storage_machine_def elim: ui_stepE)
  with 4 show ?case by (simp add: storage_jobs_def storage_ui_jobs storage_submitted)
next
  case (5 j r ev s)
  then show ?case by (simp add: storage_jobs_def storage_completes)
qed

interpretation storage_native: async_system storage_machine storage_ui_inv storage_jobs "\<lambda>j. j = InventoryJob"
    native_step native_ops n_loop
  by (intro async_system.intro storage_async native_port.page_scheduler_axioms)

interpretation storage_thread: async_system storage_machine storage_ui_inv storage_jobs "\<lambda>j. j = InventoryJob"
    thread_step thread_ops t_loop
  by (intro async_system.intro storage_async thread_port.page_scheduler_axioms)

section \<open>The diagnostics page\<close>

datatype diagnostics_value = ReportValue diagnostics_report | ExportWritten

fun diagnostics_submits :: "diagnostics_event \<Rightarrow> diagnostics_vm \<Rightarrow> diagnostics_job list" where
  "diagnostics_submits RunClick v = (if dv_busy_text v \<noteq> [] then [] else [RunJob])"
| "diagnostics_submits (DialogAnswered (Some (Some p))) v =
     (if p = [] \<or> \<not> can_export v \<or> dv_busy_text v \<noteq> [] then [] else [ExportJob p])"
| "diagnostics_submits _ v = []"

fun diagnostics_callback :: "diagnostics_job \<Rightarrow> diagnostics_value callback \<Rightarrow> diagnostics_event option" where
  "diagnostics_callback RunJob (OnSuccess (ReportValue report)) = Some (RunDone report)"
| "diagnostics_callback RunJob (OnError e) = Some (RunFailed e)"
| "diagnostics_callback (ExportJob p) (OnSuccess ExportWritten) = Some (Exported p)"
| "diagnostics_callback (ExportJob p) (OnError e) = Some (ExportFailed p e)"
| "diagnostics_callback _ _ = None"

definition diagnostics_jobs :: "(diagnostics_ui_state, diagnostics_event, diagnostics_job, diagnostics_value) page_jobs" where
  "diagnostics_jobs = \<lparr>pj_pending = (\<lambda>s. dv_jobs (fst s)), pj_submits = (\<lambda>ev s. diagnostics_submits ev (fst s)),
     pj_callback = diagnostics_callback\<rparr>"

lemma diagnostics_callback_cases:
  "diagnostics_callback j c = Some ev \<Longrightarrow>
   j = RunJob \<and> ((\<exists>r. ev = RunDone r) \<or> (\<exists>e. ev = RunFailed e)) \<or>
   (\<exists>p. j = ExportJob p \<and> (ev = Exported p \<or> (\<exists>e. ev = ExportFailed p e)))"
  by (cases "(j, c)" rule: diagnostics_callback.cases) auto

lemma diagnostics_callback_ex:
  "\<exists>j c. diagnostics_callback j c = Some (RunDone r)" "\<exists>j c. diagnostics_callback j c = Some (RunFailed e)"
  "\<exists>j c. diagnostics_callback j c = Some (Exported p)" "\<exists>j c. diagnostics_callback j c = Some (ExportFailed p e)"
  by (meson diagnostics_callback.simps)+

lemma diagnostics_notified_jobs: "dv_jobs (fst (fold diagnostics_notified ns (v, w))) = dv_jobs v"
proof (induction ns arbitrary: v w)
  case (Cons n ns)
  then show ?case by (cases n) simp_all
qed simp

lemma diagnostics_ui_jobs: "dv_jobs (fst (diagnostics_ui ev s)) = dv_jobs (diagnostics_handle ev (fst s))"
  using diagnostics_notified_jobs [of "diagnostics_assigned ev (fst s)" "diagnostics_handle ev (fst s)" "snd s"]
  by (cases s) (auto simp: diagnostics_ui_apply split: prod.split)

lemmas diagnostics_handlers = load_diagnostics_def start_run_def run_done_def run_failed_def export_chosen_def start_export_def
  export_done_def export_failed_def complete_diagnostics_job_def page_defs

lemma diagnostics_completes:
  "diagnostics_callback j c = Some ev \<Longrightarrow>
   dv_jobs (diagnostics_handle ev v) = remove1 j (dv_jobs v) \<and> diagnostics_submits ev v = []"
  by (drule diagnostics_callback_cases) (auto simp: diagnostics_handlers simp del: handle_error.simps)

lemma diagnostics_submitted:
  assumes "\<And>j c. diagnostics_callback j c \<noteq> Some ev"
  shows "dv_jobs (diagnostics_handle ev v) = dv_jobs v @ diagnostics_submits ev v"
proof (cases ev)
  case (RunDone r)
  with assms diagnostics_callback_ex(1) show ?thesis by blast
next
  case (RunFailed e)
  with assms diagnostics_callback_ex(2) show ?thesis by blast
next
  case (Exported p)
  with assms diagnostics_callback_ex(3) show ?thesis by blast
next
  case (ExportFailed p e)
  with assms diagnostics_callback_ex(4) show ?thesis by blast
next
  case (DialogAnswered answer)
  then show ?thesis by (cases "(ev, v)" rule: diagnostics_submits.cases) (auto simp: diagnostics_handlers or_str_def split: option.split)
qed (simp_all add: diagnostics_handlers)

lemma diagnostics_async: "async_page diagnostics_machine diagnostics_ui_inv diagnostics_jobs (\<lambda>j. False)"
proof (unfold_locales, goal_cases)
  case (1 j r ev)
  then show ?case by (auto simp: diagnostics_jobs_def diagnostics_machine_def dest: diagnostics_callback_cases)
next
  case (2 j r ev s)
  then show ?case by (auto simp: diagnostics_jobs_def diagnostics_machine_def dest: diagnostics_callback_cases)
next
  case (3 j r ev s)
  then show ?case by (simp add: diagnostics_jobs_def diagnostics_machine_def diagnostics_ui_jobs diagnostics_completes)
next
  case (4 s ev s')
  then have "s' = diagnostics_ui ev s" by (auto simp: diagnostics_machine_def elim: ui_stepE)
  with 4 show ?case by (simp add: diagnostics_jobs_def diagnostics_ui_jobs diagnostics_submitted)
next
  case (5 j r ev s)
  then show ?case by (simp add: diagnostics_jobs_def diagnostics_completes)
qed

interpretation diagnostics_native: async_system diagnostics_machine diagnostics_ui_inv diagnostics_jobs "\<lambda>j. False"
    native_step native_ops n_loop
  by (intro async_system.intro diagnostics_async native_port.page_scheduler_axioms)

interpretation diagnostics_thread: async_system diagnostics_machine diagnostics_ui_inv diagnostics_jobs "\<lambda>j. False"
    thread_step thread_ops t_loop
  by (intro async_system.intro diagnostics_async thread_port.page_scheduler_axioms)

lemma storage_sensitive:
  assumes "page_served storage_machine storage_jobs S u"
  shows "pv_sensitive (snd (rp_page u)) = list_all (\<lambda>j. j = InventoryJob) (waiting S u)"
proof -
  have "storage_ui_inv (rp_page u)" using assms storage_page.reachable_inv by (simp add: page_served_def)
  then have "pv_sensitive (snd (rp_page u)) = list_all (\<lambda>j. j = InventoryJob) (sv_jobs (fst (rp_page u)))"
    by (auto simp: storage_ui_inv_def split: prod.splits)
  moreover have "set (sv_jobs (fst (rp_page u))) = set (waiting S u)"
    using assms by (auto simp: page_served_def storage_jobs_def dest: mset_eq_setD)
  ultimately show ?thesis by (simp add: list_all_iff)
qed

lemma diagnostics_sensitive:
  assumes "page_served diagnostics_machine diagnostics_jobs S u"
  shows "pv_sensitive (snd (rp_page u)) = (waiting S u = [])"
proof -
  have "diagnostics_ui_inv (rp_page u)" using assms diagnostics_page.reachable_inv by (simp add: page_served_def)
  then have "pv_sensitive (snd (rp_page u)) = (dv_jobs (fst (rp_page u)) = [])"
    by (auto simp: diagnostics_ui_inv_def diagnostics_inv_def split: prod.splits if_splits)
  moreover have "set (dv_jobs (fst (rp_page u))) = set (waiting S u)"
    using assms by (auto simp: page_served_def diagnostics_jobs_def dest: mset_eq_setD)
  ultimately show ?thesis by (metis set_empty)
qed

section \<open>Properties\<close>

lemma native_ok: "native_step\<^sup>*\<^sup>* native_init c \<Longrightarrow> tasks_ok (so_tasks native_ops c)"
  using native_loop.reachable_ok [of native_init c] tasks_ok_init by (simp add: native_ops_def)

lemma thread_ok: "thread_step\<^sup>*\<^sup>* thread_init c \<Longrightarrow> tasks_ok (so_tasks thread_ops c)"
  using thread_loop.reachable_ok [of thread_init c] tasks_ok_init by (simp add: thread_ops_def)

text \<open>The other two pages: what can be pressed depends on nothing but what has not been called back.\<close>

lemma storage_on_threads:
  assumes "thread_step\<^sup>*\<^sup>* thread_init d" "t_loop d" "running_reachable storage_machine storage_jobs thread_ops d x"
  shows "page_served storage_machine storage_jobs thread_ops x"
    "pv_sensitive (snd (rp_page x)) = list_all (\<lambda>j. j = InventoryJob) (waiting thread_ops x)"
    "quiet (\<lambda>j. j = InventoryJob) thread_ops x \<Longrightarrow>
       pv_sensitive (snd (rp_page (deliver_queued storage_machine storage_jobs thread_ops x)))"
proof -
  note t = assms(3,2) thread_ok [OF assms(1)]
  show s: "page_served storage_machine storage_jobs thread_ops x" by (rule storage_thread.reachable_served [OF t])
  show "pv_sensitive (snd (rp_page x)) = list_all (\<lambda>j. j = InventoryJob) (waiting thread_ops x)" by (rule storage_sensitive [OF s])
  show "pv_sensitive (snd (rp_page (deliver_queued storage_machine storage_jobs thread_ops x)))"
    if "quiet (\<lambda>j. j = InventoryJob) thread_ops x"
    using storage_thread.delivered_served [OF t that] by (simp add: storage_sensitive)
qed

lemma diagnostics_on_threads:
  assumes "thread_step\<^sup>*\<^sup>* thread_init d" "t_loop d" "running_reachable diagnostics_machine diagnostics_jobs thread_ops d x"
  shows "page_served diagnostics_machine diagnostics_jobs thread_ops x"
    "pv_sensitive (snd (rp_page x)) = (waiting thread_ops x = [])"
    "quiet (\<lambda>j. False) thread_ops x \<Longrightarrow>
       pv_sensitive (snd (rp_page (deliver_queued diagnostics_machine diagnostics_jobs thread_ops x)))"
proof -
  note t = assms(3,2) thread_ok [OF assms(1)]
  show s: "page_served diagnostics_machine diagnostics_jobs thread_ops x" by (rule diagnostics_thread.reachable_served [OF t])
  show "pv_sensitive (snd (rp_page x)) = (waiting thread_ops x = [])" by (rule diagnostics_sensitive [OF s])
  show "pv_sensitive (snd (rp_page (deliver_queued diagnostics_machine diagnostics_jobs thread_ops x)))"
    if "quiet (\<lambda>j. False) thread_ops x"
    using diagnostics_thread.delivered_served [OF t that] by (auto simp: diagnostics_sensitive list_all_iff)
qed

text \<open>C17: The firmware page works on either scheduler as it does on its own. Built on a scheduler that has been
  started, and shared with other pages, whatever is clicked, signalled, finished, cancelled and
  delivered in whatever order, the page is always in a state of its own machine and believes
  pending exactly the jobs the scheduler has not called back; its buttons can be pressed exactly
  when no refresh and no install is among them; and once every refresh and install has finished
  without being cancelled, delivering what is queued gives the buttons back, whatever the results.\<close>

theorem firmware_on_schedulers:
  assumes "native_step\<^sup>*\<^sup>* native_init c" "n_loop c" "running_reachable firmware_machine firmware_jobs native_ops c u"
    and "thread_step\<^sup>*\<^sup>* thread_init d" "t_loop d" "running_reachable firmware_machine firmware_jobs thread_ops d x"
  shows "page_served firmware_machine firmware_jobs native_ops u \<and>
     pv_sensitive (snd (rp_page u)) = list_all (\<lambda>j. j = GatherJob) (waiting native_ops u) \<and>
     (quiet (\<lambda>j. j = GatherJob) native_ops u \<longrightarrow>
        pv_sensitive (snd (rp_page (deliver_queued firmware_machine firmware_jobs native_ops u)))) \<and>
     page_served firmware_machine firmware_jobs thread_ops x \<and>
     pv_sensitive (snd (rp_page x)) = list_all (\<lambda>j. j = GatherJob) (waiting thread_ops x) \<and>
     (quiet (\<lambda>j. j = GatherJob) thread_ops x \<longrightarrow>
        pv_sensitive (snd (rp_page (deliver_queued firmware_machine firmware_jobs thread_ops x))))"
proof (intro conjI impI)
  note n = assms(3,2) native_ok [OF assms(1)] and t = assms(6,5) thread_ok [OF assms(4)]
  show s: "page_served firmware_machine firmware_jobs native_ops u" "page_served firmware_machine firmware_jobs thread_ops x"
    using firmware_native.reachable_served [OF n] firmware_thread.reachable_served [OF t] by blast+
  show "pv_sensitive (snd (rp_page u)) = list_all (\<lambda>j. j = GatherJob) (waiting native_ops u)"
    "pv_sensitive (snd (rp_page x)) = list_all (\<lambda>j. j = GatherJob) (waiting thread_ops x)"
    using s by (simp_all add: firmware_sensitive)
  show "pv_sensitive (snd (rp_page (deliver_queued firmware_machine firmware_jobs native_ops u)))"
    if "quiet (\<lambda>j. j = GatherJob) native_ops u"
    using firmware_native.delivered_served [OF n that] by (simp add: firmware_sensitive)
  show "pv_sensitive (snd (rp_page (deliver_queued firmware_machine firmware_jobs thread_ops x)))"
    if "quiet (\<lambda>j. j = GatherJob) thread_ops x"
    using firmware_thread.delivered_served [OF t that] by (simp add: firmware_sensitive)
qed

theorem firmware_on_schedulers_witness:
  "\<exists>u x. running_reachable firmware_machine firmware_jobs native_ops (native_start native_init) u \<and>
     waiting native_ops u = [RefreshJob] \<and> \<not> pv_sensitive (snd (rp_page u)) \<and>
     running_reachable firmware_machine firmware_jobs thread_ops (snd (thread_start True thread_init)) x \<and>
     waiting thread_ops x = [GatherJob] \<and> pv_sensitive (snd (rp_page x))"
proof -
  let ?c = "native_start native_init :: firmware_value native" and ?d = "snd (thread_start True thread_init) :: firmware_value threaded"
  let ?r = "Returned (GatheredValue [(blank_device ''dev'', [], [])])"
  define u0 where "u0 = start_running firmware_machine firmware_jobs native_ops ?c"
  define u1 where "u1 = u0\<lparr>rp_scheduler := so_finish native_ops 0 ?r (rp_scheduler u0)\<rparr>"
  define u2 where "u2 = run_ready firmware_machine firmware_jobs native_ops u1"
  define u3 where "u3 = page_handles firmware_machine firmware_jobs native_ops Refresh u2"
  define x where "x = start_running firmware_machine firmware_jobs thread_ops ?d"
  note defs = u0_def u1_def u2_def u3_def x_def
  have "0 \<in> set (in_flight (so_tasks native_ops (rp_scheduler u0)))" "fits firmware_jobs (rp_owner u0 ! 0) ?r"
    unfolding defs by code_simp+
  then have "running_step firmware_machine firmware_jobs native_ops u0 u1" unfolding u1_def by (rule running_step.finish)
  moreover have "running_step firmware_machine firmware_jobs native_ops u1 u2" unfolding u2_def by (rule running_step.ready)
  moreover have "running_step firmware_machine firmware_jobs native_ops u2 u3" unfolding u3_def
  proof (rule running_step.click [where a = RefreshClicked])
    show "pm_click firmware_machine Refresh = Some RefreshClicked" by (simp add: firmware_machine_def)
    show "RefreshClicked \<in> set (pm_buttons firmware_machine (rp_page u2))" unfolding defs by code_simp
  qed
  ultimately have reach: "running_reachable firmware_machine firmware_jobs native_ops ?c u3"
    unfolding u0_def [symmetric] by (meson rtranclp.rtrancl_into_rtrancl rtranclp.rtrancl_refl)
  have started: "native_step\<^sup>*\<^sup>* native_init ?c" "thread_step\<^sup>*\<^sup>* thread_init ?d"
    by (intro r_into_rtranclp native_step.start, intro r_into_rtranclp thread_step.start [where in_time = True]) (simp add: thread_start_def thread_init_def)
  have loops: "n_loop ?c" "t_loop ?d" by code_simp+
  have reach': "running_reachable firmware_machine firmware_jobs thread_ops ?d x" unfolding x_def by (rule rtranclp.rtrancl_refl)
  have "waiting native_ops u3 = [RefreshJob]" "waiting thread_ops x = [GatherJob]" unfolding defs by code_simp+
  with firmware_on_schedulers [OF started(1) loops(1) reach started(2) loops(2) reach'] reach reach' show ?thesis
    by (intro exI [of _ u3] exI [of _ x]) simp
qed

end
