(* ===== verification/ModelTypes.thy ===== *)
theory ModelTypes
  imports System
begin

text \<open>
  The types of the domain models. Python's annotations say which fields may be None; the
  comments of \<open>core/models.py\<close> say more: when a value is unknown, which unit a number is in,
  which numbers are possible. Here each model has that as a predicate, \<open>typed_io\<close> says that an
  operation keeps a typed world typed and returns typed values, and its rules follow the
  operations' text, so that a provider is typed by its translation and a page by its providers.
\<close>

section \<open>Typed operations\<close>

definition typed_io :: "('w \<Rightarrow> bool) \<Rightarrow> ('a \<Rightarrow> bool) \<Rightarrow> ('w, 'a) io \<Rightarrow> bool" where
  "typed_io I P f \<longleftrightarrow>
     (\<forall>w. I w \<longrightarrow> I (snd (f w)) \<and> (case fst (f w) of Inl _ \<Rightarrow> True | Inr x \<Rightarrow> P x))"

abbreviation anywhere :: "'w \<Rightarrow> bool" where
  "anywhere \<equiv> \<lambda>w. True"

named_theorems typing

lemma typed_return [typing]: "P x \<Longrightarrow> typed_io I P (io_return x)"
  by (simp add: typed_io_def)

lemma typed_reads [typing]: "(\<And>w x. f w = Inr x \<Longrightarrow> P x) \<Longrightarrow> typed_io I P (io_reads f)"
  by (auto simp: typed_io_def split: sum.split)

lemma typed_bind:
  assumes "typed_io I P f" "\<And>x. P x \<Longrightarrow> typed_io I Q (g x)"
  shows "typed_io I Q (io_bind f g)"
  unfolding typed_io_def
proof (intro allI impI)
  fix w
  assume w: "I w"
  obtain r v where f: "f w = (r, v)" by (metis surj_pair)
  with w assms(1) have v: "I v" "case r of Inl _ \<Rightarrow> True | Inr x \<Rightarrow> P x" unfolding typed_io_def by force+
  with f assms(2) show "I (snd (io_bind f g w)) \<and> (case fst (io_bind f g w) of Inl _ \<Rightarrow> True | Inr x \<Rightarrow> Q x)"
    by (cases r) (auto simp: io_bind_def typed_io_def)
qed

lemma typed_mapM [typing]:
  assumes "\<And>x. P x \<Longrightarrow> typed_io I Q (f x)" "list_all P xs"
  shows "typed_io I (list_all Q) (io_mapM f xs)"
  using assms(2)
proof (induction xs)
  case (Cons x xs)
  then show ?case
    unfolding io_mapM.simps by (intro typed_bind [OF assms(1)] typed_bind [OF Cons.IH] typing) auto
qed (simp add: typed_io_def)

lemma typed_missing [typing]: "typed_io I P f \<Longrightarrow> typed_io I (pred_option P) (or_missing f)"
  by (force simp: typed_io_def or_missing_def io_catch_def io_bind_def split: prod.splits sum.splits if_splits)

lemma typed_part:
  assumes "typed_io J P f" "\<And>m. I m \<Longrightarrow> J (get m)" "\<And>s m. I m \<Longrightarrow> J s \<Longrightarrow> I (put s m)"
  shows "typed_io I P (on_part get put f)"
  using assms unfolding typed_io_def on_part_def by (force split: prod.split)

lemma typed_anywhere: "typed_io anywhere P f \<longleftrightarrow> (\<forall>w x w'. f w = (Inr x, w') \<longrightarrow> P x)"
  unfolding typed_io_def by (simp split: sum.split) (metis fst_conv prod.collapse)

lemma list_all_map_filter: "(\<And>x y. f x = Some y \<Longrightarrow> P y) \<Longrightarrow> list_all P (List.map_filter f xs)"
  by (auto simp: list_all_iff set_map_filter)

lemma list_all_sort_key [simp]: "list_all P (sort_key f xs) = list_all P xs"
  by (simp add: list_all_iff)

section \<open>The models\<close>

text \<open>A number the program may have computed: a binary64 value.\<close>

definition double :: "rat \<Rightarrow> bool" where
  "double x \<longleftrightarrow> fl x = x"

definition nonempty :: "string \<Rightarrow> bool" where
  "nonempty s \<longleftrightarrow> s \<noteq> []"

definition hex4 :: "string \<Rightarrow> bool" where
  "hex4 s \<longleftrightarrow> length s = 4 \<and> list_all is_hex s"

text \<open>A capacity comes with its unit; a cycle count is None when absent or not positive.\<close>

definition battery_typed :: "battery_wear \<Rightarrow> bool" where
  "battery_typed b \<longleftrightarrow>
     (bw_capacity_unit b = None \<longleftrightarrow> bw_capacity_full b = None \<and> bw_capacity_design b = None) \<and>
     pred_option (\<lambda>c. 0 < c) (bw_cycle_count b)"

text \<open>A remaining time is None when unknown, which UPower reports as 0.\<close>

definition status_typed :: "battery_status \<Rightarrow> bool" where
  "status_typed s \<longleftrightarrow>
     pred_option (\<lambda>t. t \<noteq> 0) (bs_time_to_empty_s s) \<and> pred_option (\<lambda>t. t \<noteq> 0) (bs_time_to_full_s s)"

definition wear_typed :: "rat \<Rightarrow> bool" where
  "wear_typed x \<longleftrightarrow> 0 \<le> x \<and> double x"

text \<open>A wear is known exactly when both capacities are and the design capacity is positive.\<close>

definition snapshot_typed :: "wear_snapshot \<Rightarrow> bool" where
  "snapshot_typed s \<longleftrightarrow>
     pred_option wear_typed (ws_wear_percent s) \<and> pred_option (\<lambda>c. 0 < c) (ws_cycle_count s) \<and>
     (ws_wear_percent s \<noteq> None \<longleftrightarrow> ws_capacity_full s \<noteq> None \<and> pred_option (\<lambda>d. 0 < d) (ws_capacity_design s) \<and>
        ws_capacity_design s \<noteq> None)"

definition cpu_mem_typed :: "cpu_mem_summary \<Rightarrow> bool" where
  "cpu_mem_typed c \<longleftrightarrow> pred_option (\<lambda>n. 0 < n) (cm_cpu_count c) \<and> pred_option nonempty (cm_cpu_model c)"

text \<open>The model is the family name that says ThinkPad.\<close>

definition thinkpad_typed :: "thinkpad_info \<Rightarrow> bool" where
  "thinkpad_typed t \<longleftrightarrow>
     (ti_is_thinkpad t \<longleftrightarrow> ti_acpi_driver_loaded t \<or> ti_dmi_vendor_lenovo t \<and> ti_model t \<noteq> None) \<and>
     pred_option (\<lambda>n. contains (lower n) ''thinkpad'') (ti_model t)"

definition pci_typed :: "pci_device \<Rightarrow> bool" where
  "pci_typed d \<longleftrightarrow> pci_device_class d \<noteq> None \<and> pci_vendor d \<noteq> None \<and> pci_device_name d \<noteq> None"

definition usb_typed :: "usb_device \<Rightarrow> bool" where
  "usb_typed d \<longleftrightarrow> nonempty (usb_bus d) \<and>
     (case (usb_device_no d, usb_vendor_id d, usb_product_id d) of
        (Some n, Some v, Some p) \<Rightarrow> nonempty n \<and> hex4 v \<and> hex4 p
      | _ \<Rightarrow> False) \<and>
     pred_option nonempty (usb_name d)"

text \<open>A size in bytes is a number of sectors of 512.\<close>

definition storage_typed :: "storage_device \<Rightarrow> bool" where
  "storage_typed d \<longleftrightarrow> pred_option (\<lambda>n. 512 dvd n) (sd_size_bytes d)"

definition smart_typed :: "string \<Rightarrow> smart_report \<Rightarrow> bool" where
  "smart_typed n r \<longleftrightarrow> sr_device_name r = n \<and> pred_option nonempty (sr_model r) \<and>
     pred_option nonempty (sr_firmware_version r) \<and> pred_option nonempty (sr_serial_number r)"

definition temperature_typed :: "temperature_reading \<Rightarrow> bool" where
  "temperature_typed t \<longleftrightarrow> double (tr_celsius t)"

definition device_typed :: "firmware_device \<Rightarrow> bool" where
  "device_typed d \<longleftrightarrow> nonempty (fd_id d)"

definition release_typed :: "firmware_release \<Rightarrow> bool" where
  "release_typed r \<longleftrightarrow> nonempty (fr_version r) \<and> pred_option (\<lambda>n. n \<noteq> 0) (fr_size r) \<and>
     pred_option (\<lambda>u. u \<in> {''critical'', ''high'', ''medium'', ''low''}) (fr_urgency r)"

lemmas typed_defs = battery_typed_def status_typed_def cpu_mem_typed_def thinkpad_typed_def pci_typed_def usb_typed_def
  storage_typed_def smart_typed_def temperature_typed_def device_typed_def release_typed_def

section \<open>The providers\<close>

lemma batteries_typed: "typed_io anywhere (list_all battery_typed) sysfs_batteries"
  unfolding sysfs_batteries_def
proof (rule typed_reads)
  fix w :: "'a fs_scheme" and bs
  have "battery_typed b" if "read_battery w n = Some b" for n b
  proof -
    obtain f d u where c: "read_capacity w (ps_dir @ [n]) = (f, d, u)" by (metis prod_cases3)
    with that read_capacity_unit [OF c] show ?thesis
      by (auto simp: read_battery_def battery_typed_def Let_def split: if_splits option.splits)
  qed
  then show "(if \<not> fs_is_dir w ps_dir then Inr []
      else case fs_list w ps_dir of None \<Rightarrow> Inl (PyException ''OSError'' ''power_supply'')
           | Some names \<Rightarrow> Inr (List.map_filter (read_battery w) (sort names))) = Inr bs \<Longrightarrow> list_all battery_typed bs"
    by (auto split: if_splits option.splits intro: list_all_map_filter)
qed

lemma temperatures_typed: "typed_io anywhere (list_all temperature_typed) hwmon_temperatures"
proof -
  have "temperature_typed t" if "read_sensor w dir chip e = Some t" for w :: "'a fs_scheme" and dir chip e t
    using that by (auto simp: read_sensor_def temperature_typed_def double_def int_truediv_def split: option.splits)
  then have "list_all temperature_typed (read_chip w n)" for w :: "'a fs_scheme" and n
    by (auto simp: read_chip_def Let_def split: option.split intro: list_all_map_filter)
  then show ?thesis
    unfolding hwmon_temperatures_def by (intro typed_reads) (auto simp: list_all_iff split: option.splits)
qed

lemma storage_devices_typed: "typed_io anywhere (list_all storage_typed) block_devices"
proof -
  have "storage_typed d" if "read_block_device w n = Some d" for w :: "'a fs_scheme" and n d
    using that by (auto simp: read_block_device_def storage_typed_def Let_def pred_option_def split: if_splits)
  then show ?thesis
    unfolding block_devices_def by (intro typed_reads) (auto split: option.splits intro: list_all_map_filter)
qed

lemma detect_typed: "typed_io anywhere thinkpad_typed (detect (Some read_identity))"
proof -
  have "is_thinkpad_name x \<Longrightarrow> pred_option (\<lambda>n. contains (lower n) ''thinkpad'') x" for x
    by (auto simp: is_thinkpad_name_def split: option.splits)
  then show ?thesis
    by (simp add: typed_io_def detect_def Let_def io_bind_def read_identity_def thinkpad_typed_def)
qed

lemma cpu_step_typed:
  "0 \<le> fst (foldl cpu_step s ls) - fst s \<and> (pred_option nonempty (snd s) \<longrightarrow> pred_option nonempty (snd (foldl cpu_step s ls)))"
proof (induction ls arbitrary: s)
  case (Cons l ls)
  have "fst s \<le> fst (cpu_step s l) \<and> (pred_option nonempty (snd s) \<longrightarrow> pred_option nonempty (snd (cpu_step s l)))"
    by (auto simp: cpu_step_def or_none_def nonempty_def split: prod.split)
  with Cons.IH [of "cpu_step s l"] show ?case by auto
qed simp

lemma read_cpu_mem_typed: "typed_io anywhere cpu_mem_typed read_cpu_mem"
  unfolding read_cpu_mem_def
proof (rule typed_reads)
  fix w :: "'a fs_scheme" and c
  obtain n m where s: "(case read_str (1024 * 1024) w [''proc'', ''cpuinfo''] of None \<Rightarrow> (0, None)
      | Some t \<Rightarrow> foldl cpu_step (0, None) (splitlines t)) = (n, m)" by (metis surj_pair)
  have "0 \<le> n \<and> pred_option nonempty m"
  proof (cases "read_str (1024 * 1024) w [''proc'', ''cpuinfo'']")
    case (Some t)
    with s cpu_step_typed [of "(0, None)" "splitlines t"] show ?thesis by simp
  qed (use s in simp)
  then show "(let (count, model) = case read_str (1024 * 1024) w [''proc'', ''cpuinfo''] of None \<Rightarrow> (0, None)
        | Some t \<Rightarrow> foldl cpu_step (0, None) (splitlines t);
      mem = case read_str 65536 w [''proc'', ''meminfo''] of None \<Rightarrow> None | Some t \<Rightarrow> mem_total (splitlines t)
    in Inr \<lparr>cm_cpu_model = model, cm_cpu_count = (if count = 0 then None else Some count), cm_memory_total_kib = mem\<rparr>) = Inr c \<Longrightarrow>
    cpu_mem_typed c"
    unfolding s by (auto simp: cpu_mem_typed_def)
qed

lemma lower_hex: "is_hex c \<Longrightarrow> is_hex (lower_char c)"
  by (auto simp: is_hex_def lower_char_def Let_def)

lemma parsed_typed:
  assumes "\<And>line d. f line = Some d \<Longrightarrow> P d"
  shows "typed_io anywhere (list_all P) (io_bind (run_translated runner tool args) (\<lambda>out w. (parse_lines f tool' out, w)))"
  using assms unfolding typed_anywhere
  by (auto simp: io_bind_def parse_lines_def Let_def split: prod.splits sum.splits if_splits intro: list_all_map_filter)

lemma list_pci_typed: "typed_io anywhere (list_all pci_typed) (list_pci runner)"
  unfolding list_pci_def
  by (rule parsed_typed) (auto simp: pci_line_def pci_typed_def split: if_splits option.splits list.splits)

lemma hex4_lower: "take_hex4 s = Some (h, t) \<Longrightarrow> hex4 (lower h)"
  by (auto simp: take_hex4_def hex4_def lower_def list_all_iff lower_hex split: if_splits)

lemma list_usb_typed: "typed_io anywhere (list_all usb_typed) (list_usb runner)"
proof -
  have "nonempty bus \<and> nonempty dev \<and> hex4 (lower v) \<and> hex4 (lower p)" if "usb_match s = Some (bus, dev, v, p, n)" for s bus dev v p n
    using that by (auto simp: usb_match_def take_digits_def nonempty_def dest: hex4_lower split: option.splits prod.splits if_splits)
  then show ?thesis
    unfolding list_usb_def
    by (intro parsed_typed) (auto simp: usb_line_def usb_typed_def or_none_def nonempty_def split: if_splits option.splits prod.splits)
qed

lemma smart_read_typed: "typed_io anywhere (smart_typed n) (smart_read runner n)"
  by (auto simp: typed_anywhere smart_read_def parse_output_def parse_report_def smart_typed_def get_str_def or_none_def nonempty_def
      split: prod.splits sum.splits option.splits json.splits if_splits)

lemma read_status_typed: "typed_io anywhere (list_all status_typed) (read_status bus)"
proof -
  have "pred_option status_typed s" if "device_status p props = Inr s" for p props s
    using that build_status_fields by (fastforce simp: device_status_def status_typed_def pred_option_def split: if_splits sum.splits)
  then have "typed_io anywhere (pred_option status_typed) (read_device bus p)" for p
    unfolding read_device_def
    by (intro typed_bind [where P = "\<lambda>_. True"]) (auto simp: typed_anywhere)
  then have rows: "typed_io anywhere (list_all (pred_option status_typed)) (io_mapM (read_device bus) paths)" for paths
    by (intro typed_mapM [where P = "\<lambda>_. True"]) (simp_all add: list_all_iff)
  have "list_all status_typed (List.map_filter id rs)" if "list_all (pred_option status_typed) rs" for rs
    using that by (auto simp: list_all_iff set_map_filter)
  then show ?thesis
    unfolding read_status_def
    by (intro typed_bind [where P = "\<lambda>_. True"] typed_bind [OF rows] typing) (auto simp: typed_anywhere)
qed

lemma collect_typed:
  assumes "\<And>x y. f x = Inr y \<Longrightarrow> P y" "collect f xs = Inr ys"
  shows "list_all P ys"
  using assms(2) by (induction xs arbitrary: ys) (auto simp: assms(1) split: sum.splits)

lemma list_devices_typed: "typed_io anywhere (list_all device_typed) (fwupd_list_devices client)"
proof -
  have "device_typed m" if "device_to_model d = Inr m" for d m
    using that by (auto simp: device_to_model_def device_typed_def nonempty_def split: if_splits)
  then show ?thesis
    unfolding fwupd_list_devices_def
    by (intro typed_bind [where P = "\<lambda>_. True"]) (auto simp: typed_anywhere split: sum.splits intro: collect_typed)
qed

lemma list_upgrades_typed: "typed_io anywhere (list_all release_typed) (fwupd_list_upgrades client i)"
proof -
  have "pred_option (\<lambda>u. u \<in> {''critical'', ''high'', ''medium'', ''low''}) (URGENCY_MAP u)" for u
    by (cases u) simp_all
  then have "release_typed m" if "release_to_model r = Inr m" for r m
    using that by (auto simp: release_to_model_def release_typed_def nonempty_def split: if_splits)
  then show ?thesis
    unfolding typed_anywhere fwupd_list_upgrades_def
    by (auto split: prod.splits sum.splits if_splits intro: collect_typed)
qed

section \<open>The history\<close>

definition table_typed :: "((string \<times> string) \<times> wear_snapshot) list \<Rightarrow> bool" where
  "table_typed rows \<longleftrightarrow> table_ok rows \<and> list_all (snapshot_typed \<circ> snd) rows"

abbreviation db_typed :: "'x history_db_scheme \<Rightarrow> bool" where
  "db_typed w \<equiv> table_typed (db_rows w)"

lemma wear_percent_typed: "pred_option wear_typed (wear_percent f d)"
proof -
  have "fl 0 = 0" by code_simp
  then show ?thesis
    by (auto simp: wear_percent_def wear_typed_def double_def max_def Let_def split: option.split)
qed

lemma snapshot_from_typed: "battery_typed b \<Longrightarrow> snapshot_typed (snapshot_from_wear b day)"
  using wear_percent_typed [of "bw_capacity_full b" "bw_capacity_design b"]
  by (auto simp: snapshot_typed_def snapshot_from_wear_def battery_typed_def wear_percent_def split: option.splits)

lemma table_typed_set: "table_typed rows \<Longrightarrow> snapshot_typed s \<Longrightarrow> table_typed (dict_set (row_key s) s rows)"
  using dict_set_all [of "\<lambda>k s. snapshot_typed s" rows "row_key s" s]
  by (simp add: table_typed_def table_ok_set comp_def case_prod_beta')

lemma record_wear_typed: "snapshot_typed s \<Longrightarrow> typed_io db_typed (\<lambda>_. True) (record_wear s)"
  by (auto simp: typed_io_def record_wear_def table_typed_set split: option.split sum.split)

lemma wear_history_typed: "typed_io db_typed (list_all snapshot_typed) (wear_history b n)"
proof -
  have "set (select_recent b n rows) \<subseteq> snd ` set rows" for rows
    by (auto simp: select_recent_def Let_def dest!: in_set_takeD split: if_splits)
  then show ?thesis
    by (fastforce simp: typed_io_def wear_history_def table_typed_def list_all_iff split: option.split sum.split)
qed

definition chart_typed :: "chart \<Rightarrow> bool" where
  "chart_typed ps \<longleftrightarrow> list_all (wear_typed \<circ> snd) ps"

lemma history_points_typed: "list_all snapshot_typed h \<Longrightarrow> chart_typed (history_points h)"
  by (fastforce simp: chart_typed_def history_points_def list_all_iff set_map_filter snapshot_typed_def pred_option_def)

definition battery_data_typed :: "battery_data \<Rightarrow> bool" where
  "battery_data_typed data = (case data of (bs, status, charts) \<Rightarrow>
     list_all battery_typed bs \<and> pred_option (list_all status_typed) status \<and> list_all (chart_typed \<circ> snd) charts)"

lemma record_and_read_typed:
  assumes "\<And>s. snapshot_typed s \<Longrightarrow> typed_io I (\<lambda>_. True) (store s)"
    and "\<And>b n. typed_io I (list_all snapshot_typed) (history b n)" "battery_typed b"
  shows "typed_io I (chart_typed \<circ> snd) (record_and_read store history today b)"
  unfolding record_and_read_def
  by (intro typed_bind [OF assms(1)] typed_bind [OF assms(2)] typing)
     (simp_all add: snapshot_from_typed assms(3) history_points_typed)

lemma gather_battery_typed:
  assumes "typed_io I (list_all battery_typed) wear" "typed_io I (list_all status_typed) status"
    and "\<And>s. snapshot_typed s \<Longrightarrow> typed_io I (\<lambda>_. True) (store s)"
    and "\<And>b n. typed_io I (list_all snapshot_typed) (history b n)"
  shows "typed_io I battery_data_typed (gather_battery wear status store history today)"
proof -
  have charts: "list_all (chart_typed \<circ> snd) hs \<Longrightarrow> list_all (chart_typed \<circ> snd) (dict_of hs)" for hs
    using dict_of_values [of hs] by (fastforce simp: list_all_iff)
  show ?thesis
    unfolding gather_battery_def
    by (intro typed_bind [OF assms(1)] typed_bind [OF typed_missing [OF assms(2)]]
        typed_bind [OF typed_mapM [OF record_and_read_typed [OF assms(3,4)]]] typing)
       (auto simp: battery_data_typed_def charts)
qed

section \<open>Properties\<close>

text \<open>C31: Every provider returns well-typed models, on every machine: a battery's capacities share a unit,
  which is there exactly when one of them is; unknown cycle counts, remaining times and release
  sizes are None and never 0; temperatures are binary64 values; sizes are whole sectors; a
  ThinkPad has its driver or its name; a PCI device is complete and a USB device has its two
  identifiers of four hexadecimal digits; devices and releases have their names.\<close>

theorem providers_well_typed:
  "typed_io anywhere (list_all battery_typed) sysfs_batteries \<and>
   typed_io anywhere (list_all temperature_typed) hwmon_temperatures \<and>
   typed_io anywhere thinkpad_typed (detect (Some read_identity)) \<and>
   typed_io anywhere cpu_mem_typed read_cpu_mem \<and>
   typed_io anywhere (list_all storage_typed) block_devices \<and>
   typed_io anywhere (smart_typed name) (smart_read runner name) \<and>
   typed_io anywhere (list_all pci_typed) (list_pci runner) \<and>
   typed_io anywhere (list_all usb_typed) (list_usb runner) \<and>
   typed_io anywhere (list_all status_typed) (read_status bus) \<and>
   typed_io anywhere (list_all device_typed) (fwupd_list_devices client) \<and>
   typed_io anywhere (list_all release_typed) (fwupd_list_upgrades client device_id)"
  by (intro conjI batteries_typed temperatures_typed detect_typed read_cpu_mem_typed storage_devices_typed smart_read_typed
      list_pci_typed list_usb_typed read_status_typed list_devices_typed list_upgrades_typed)

text \<open>C20: Loading the battery page preserves typing from end to end: whatever the machine's files and the
  bus say, and whether or not the load fails half-way, a well-typed history stays well-typed
  (one row per day and battery, non-negative binary64 wear, known exactly when both capacities
  are and the design capacity is positive), and the data the page is given is well-typed.\<close>

theorem battery_load_typed:
  assumes "table_typed (db_rows (m_db m))" "app_battery_gather bus today m = (r, m')"
  shows "table_typed (db_rows (m_db m')) \<and> (case r of Inl _ \<Rightarrow> True | Inr data \<Rightarrow> battery_data_typed data)"
proof -
  let ?I = "\<lambda>m :: 'a machine. db_typed (m_db m)"
  have "typed_io ?I (list_all battery_typed) (on_fs sysfs_batteries)"
    unfolding on_fs_def by (rule typed_part [OF batteries_typed]) simp_all
  moreover have "typed_io ?I (list_all status_typed) (on_upower (read_status bus))"
    unfolding on_upower_def by (rule typed_part [OF read_status_typed]) simp_all
  moreover have "typed_io ?I (\<lambda>_. True) (on_db (record_wear s))" if "snapshot_typed s" for s
    unfolding on_db_def by (rule typed_part [OF record_wear_typed [OF that]]) simp_all
  moreover have "typed_io ?I (list_all snapshot_typed) (on_db (wear_history b n))" for b n
    unfolding on_db_def by (rule typed_part [OF wear_history_typed]) simp_all
  ultimately have "typed_io ?I battery_data_typed (app_battery_gather bus today)"
    unfolding app_battery_gather_def app_battery_wear_def app_battery_status_def app_history_def
    by (intro gather_battery_typed) simp_all
  with assms show ?thesis by (auto simp: typed_io_def split: sum.splits)
qed

definition example_files :: fs where
  "example_files = \<lparr>fs_is_dir = (\<lambda>p. True), fs_exists = (\<lambda>p. True), fs_list = (\<lambda>p. Some [''BAT0'']),
     fs_read = (\<lambda>p. if last p = ''type'' then Some ''Battery'' else if last p = ''energy_full'' then Some ''8''
        else if last p = ''energy_full_design'' then Some ''16'' else None)\<rparr>"

definition example_bus :: "unit system_bus" where
  "example_bus = \<lparr>bus_open = (\<lambda>w. (Inr (), w)), name_has_owner = (\<lambda>n w. (Inr True, w)),
     enumerate_devices = (\<lambda>w. (Inr [], w)), get_all = (\<lambda>a b c w. (Inr [], w)), signal_subscribe = (\<lambda>s w. w)\<rparr>"

definition example_host :: "unit machine" where
  "example_host = \<lparr>m_fs = example_files, m_procs = \<lparr>access_x = (\<lambda>p. False), outcome_of = (\<lambda>p a. Hangs), proc_trace = []\<rparr>,
     m_db = \<lparr>db_rows = [], db_fault = None\<rparr>,
     m_fwupd = \<lparr>has_bus = False, outside = (), on_progress = None\<rparr>, m_upower = \<lparr>has_bus = False, outside = ()\<rparr>\<rparr>"

theorem battery_load_typed_witness:
  "case app_battery_gather example_bus ''2026-01-01'' example_host of (r, m') \<Rightarrow>
     (\<exists>data. r = Inr data \<and> battery_data_typed data) \<and> length (db_rows (m_db m')) = 1 \<and> table_typed (db_rows (m_db m'))"
proof -
  obtain r m' where run: "app_battery_gather example_bus ''2026-01-01'' example_host = (r, m')" by (metis surj_pair)
  have "case app_battery_gather example_bus ''2026-01-01'' example_host of (r, m') \<Rightarrow>
      (case r of Inl _ \<Rightarrow> False | Inr _ \<Rightarrow> True) \<and> length (db_rows (m_db m')) = 1"
    by code_simp
  with run have ran: "\<exists>data. r = Inr data" "length (db_rows (m_db m')) = 1" by (auto split: sum.splits)
  have "table_typed (db_rows (m_db example_host))" by (simp add: example_host_def table_typed_def)
  from battery_load_typed [OF this run] have typed: "table_typed (db_rows (m_db m'))"
    "case r of Inl _ \<Rightarrow> True | Inr data \<Rightarrow> battery_data_typed data" by simp_all
  obtain data where "r = Inr data" using ran(1) by blast
  with typed ran(2) show ?thesis unfolding run prod.case by simp
qed

end
