(* ===== verification/HistoryFile.thy ===== *)
theory HistoryFile
  imports History
begin

text \<open>
  \<open>platform/history.py\<close> on the disk: where the database is, the creation of its directory, and a
  connection per operation. A disk is a tree of directories and files, the table each database
  file has, and what the operating system and SQLite refuse. \<open>pathlib\<close>'s paths and its
  \<open>mkdir\<close> are written out. The operations on the file refine those of theory \<open>History\<close> on
  the table.
\<close>

section \<open>Paths\<close>

text \<open>A \<open>PurePosixPath\<close>: the root is empty, one slash or exactly two.\<close>

record pure_path =
  pp_root :: string
  pp_parts :: "string list"

fun split_slash :: "string \<Rightarrow> string \<Rightarrow> string list" where
  "split_slash acc [] = [acc]"
| "split_slash acc (c # s) = (if c = CHR ''/'' then acc # split_slash [] s else split_slash (acc @ [c]) s)"

definition path_root :: "string \<Rightarrow> string" where
  "path_root s =
     (if startswith s ''//'' \<and> \<not> startswith s ''///'' then ''//'' else if startswith s ''/'' then ''/'' else [])"

definition new_path :: "string \<Rightarrow> pure_path" where
  "new_path s = \<lparr>pp_root = path_root s, pp_parts = filter (\<lambda>c. c \<noteq> [] \<and> c \<noteq> ''.'') (split_slash [] s)\<rparr>"

definition path_str :: "pure_path \<Rightarrow> string" where
  "path_str p = (if pp_root p = [] \<and> pp_parts p = [] then ''.'' else pp_root p @ joinwith ''/'' (pp_parts p))"

definition beneath :: "pure_path \<Rightarrow> string list \<Rightarrow> pure_path" where
  "beneath p names = p\<lparr>pp_parts := pp_parts p @ names\<rparr>"

definition parent :: "pure_path \<Rightarrow> pure_path" where
  "parent p = p\<lparr>pp_parts := butlast (pp_parts p)\<rparr>"

text \<open>\<open>home\<close> is what \<open>Path.home()\<close> answers, which is asked only when the variable gives nothing.\<close>

definition default_db_path :: "(string \<times> string) list \<Rightarrow> exn + pure_path \<Rightarrow> exn + pure_path" where
  "default_db_path env home =
     (let found = (\<lambda>base. Inr (beneath (new_path base) [''lapcare'', ''history.db'']))
      in if or_str (dict_get ''XDG_DATA_HOME'' env) [] \<noteq> [] then found (or_str (dict_get ''XDG_DATA_HOME'' env) [])
         else (case home of Inl e \<Rightarrow> Inl e | Inr h \<Rightarrow> found (path_str (beneath h [''.local'', ''share'']))))"

definition path_ok :: "pure_path \<Rightarrow> bool" where
  "path_ok p \<longleftrightarrow> pp_root p \<in> {[], ''/'', ''//''} \<and>
     list_all (\<lambda>c. c \<noteq> [] \<and> c \<noteq> ''.'' \<and> CHR ''/'' \<notin> set c) (pp_parts p)"

lemma split_slash_skip: "CHR ''/'' \<notin> set s \<Longrightarrow> split_slash acc (s @ t) = split_slash (acc @ s) t"
  by (induction s arbitrary: acc) auto

lemma split_slash_join:
  "list_all (\<lambda>c. CHR ''/'' \<notin> set c) cs \<Longrightarrow> cs \<noteq> [] \<Longrightarrow> split_slash [] (joinwith ''/'' cs) = cs"
proof (induction cs)
  case (Cons c cs)
  then show ?case
    using split_slash_skip [of c "[]" "[]"] split_slash_skip [of c "[]" "CHR ''/'' # joinwith ''/'' cs"]
    by (cases cs) simp_all
qed simp

lemma joined_parts:
  assumes "list_all (\<lambda>c. c \<noteq> [] \<and> c \<noteq> ''.'' \<and> CHR ''/'' \<notin> set c) cs"
  shows "cs \<noteq> [] \<Longrightarrow> \<exists>c s. joinwith ''/'' cs = c # s \<and> c \<noteq> CHR ''/''"
    "filter (\<lambda>c. c \<noteq> [] \<and> c \<noteq> ''.'') (split_slash [] (joinwith ''/'' cs)) = cs"
proof -
  assume "cs \<noteq> []"
  then obtain x xs where "cs = x # xs" by (cases cs) auto
  with assms show "\<exists>c s. joinwith ''/'' cs = c # s \<and> c \<noteq> CHR ''/''" by (cases x; cases xs) auto
next
  have "list_all (\<lambda>c. CHR ''/'' \<notin> set c) cs" "filter (\<lambda>c. c \<noteq> [] \<and> c \<noteq> ''.'') cs = cs"
    using assms by (auto simp: list_all_iff filter_id_conv)
  then show "filter (\<lambda>c. c \<noteq> [] \<and> c \<noteq> ''.'') (split_slash [] (joinwith ''/'' cs)) = cs"
    by (cases "cs = []") (simp_all add: split_slash_join)
qed

lemma new_path_str: "path_ok p \<Longrightarrow> new_path (path_str p) = p"
proof (cases "pp_parts p = []")
  case True
  assume "path_ok p"
  then have "pp_root p \<in> {[], ''/'', ''//''}" by (simp add: path_ok_def)
  with True show ?thesis
    by (elim insertE emptyE; cases p) (auto simp: new_path_def path_str_def path_root_def startswith_def)
next
  case False
  assume ok: "path_ok p"
  then obtain c s where s: "joinwith ''/'' (pp_parts p) = c # s" "c \<noteq> CHR ''/''"
    using joined_parts(1) [OF _ False] by (auto simp: path_ok_def)
  have "filter (\<lambda>c. c \<noteq> [] \<and> c \<noteq> ''.'') (split_slash [] (joinwith ''/'' (pp_parts p))) = pp_parts p"
    using ok joined_parts(2) by (simp add: path_ok_def)
  moreover have "pp_root p \<in> {[], ''/'', ''//''}" using ok by (simp add: path_ok_def)
  ultimately show ?thesis
    using False s by (elim insertE emptyE; cases p) (auto simp: new_path_def path_str_def path_root_def startswith_def)
qed

text \<open>Without the variable the database is below the home directory.\<close>

lemma default_db_path_home:
  assumes "or_str (dict_get ''XDG_DATA_HOME'' env) [] = []" "path_ok h"
  shows "default_db_path env (Inr h) = Inr (beneath h [''.local'', ''share'', ''lapcare'', ''history.db''])"
proof -
  have "path_ok (beneath h [''.local'', ''share''])" using assms(2) by (simp add: path_ok_def beneath_def)
  with assms(1) show ?thesis by (simp add: default_db_path_def new_path_str) (simp add: beneath_def)
qed

section \<open>The disk\<close>

datatype node = DirNode | FileNode

type_synonym wear_table = "((string \<times> string) \<times> wear_snapshot) list"

record disk =
  node_at :: "pure_path \<Rightarrow> node option"
  refused :: "pure_path \<Rightarrow> string option"
    \<comment> \<open>why the system would refuse to create this directory\<close>
  tables :: "pure_path \<Rightarrow> wear_table option"
  db_refused :: "string option"
    \<comment> \<open>why SQLite cannot use the database (locked, corrupt, read-only)\<close>

text \<open>\<open>FileNotFoundError\<close> is told apart from every other \<open>OSError\<close>.\<close>

datatype os_failure = NoEntry | OSFailure string

definition file_above :: "'x disk_scheme \<Rightarrow> pure_path \<Rightarrow> bool" where
  "file_above d p \<longleftrightarrow>
     list_ex (\<lambda>i. node_at d (p\<lparr>pp_parts := take i (pp_parts p)\<rparr>) = Some FileNode) [0..<length (pp_parts p)]"

definition os_mkdir :: "pure_path \<Rightarrow> 'x disk_scheme \<Rightarrow> (os_failure + unit) \<times> 'x disk_scheme" where
  "os_mkdir p d =
     (if file_above d p then (Inl (OSFailure ''Not a directory''), d)
      else if node_at d (parent p) = None then (Inl NoEntry, d)
      else if node_at d p \<noteq> None then (Inl (OSFailure ''File exists''), d)
      else case refused d p of
             Some why \<Rightarrow> (Inl (OSFailure why), d)
           | None \<Rightarrow> (Inr (), d\<lparr>node_at := (node_at d)(p := Some DirNode)\<rparr>))"

text \<open>\<open>path.mkdir(exist_ok=True)\<close>: a failure is swallowed where a directory is there anyway.\<close>

definition mkdir_one :: "pure_path \<Rightarrow> 'x disk_scheme \<Rightarrow> (os_failure + unit) \<times> 'x disk_scheme" where
  "mkdir_one p d =
     (case os_mkdir p d of
        (Inl (OSFailure why), d') \<Rightarrow>
          if node_at d' p = Some DirNode then (Inr (), d') else (Inl (OSFailure why), d')
      | other \<Rightarrow> other)"

text \<open>\<open>path.mkdir(parents=True, exist_ok=True)\<close>; a path without parts is its own parent.\<close>

function mkdir_parents :: "pure_path \<Rightarrow> 'x disk_scheme \<Rightarrow> (os_failure + unit) \<times> 'x disk_scheme" where
  "mkdir_parents p d =
     (case mkdir_one p d of
        (Inl NoEntry, d') \<Rightarrow>
          if pp_parts p = [] then (Inl NoEntry, d')
          else (case mkdir_parents (parent p) d' of
                  (Inl e, d'') \<Rightarrow> (Inl e, d'')
                | (Inr _, d'') \<Rightarrow> mkdir_one p d'')
      | other \<Rightarrow> other)"
  by pat_completeness auto

termination
  by (relation "Wellfounded.measure (\<lambda>(p, d). length (pp_parts p))") (auto simp: parent_def)

declare mkdir_parents.simps [simp del]

section \<open>The store\<close>

definition os_exn :: "os_failure \<Rightarrow> exn" where
  "os_exn e = PyException ''OSError'' (case e of NoEntry \<Rightarrow> ''No such file or directory'' | OSFailure why \<Rightarrow> why)"

definition open_store ::
    "(string \<times> string) list \<Rightarrow> exn + pure_path \<Rightarrow> pure_path option \<Rightarrow> ('x disk_scheme, pure_path) io" where
  "open_store env home db_path = (\<lambda>d.
     case (case db_path of Some p \<Rightarrow> Inr p | None \<Rightarrow> default_db_path env home) of
       Inl e \<Rightarrow> (Inl e, d)
     | Inr p \<Rightarrow>
         (case mkdir_parents (parent p) d of
            (Inl e, d') \<Rightarrow> (Inl (os_exn e), d')
          | (Inr _, d') \<Rightarrow> (Inr p, d')))"

definition no_database_file :: "pure_path \<Rightarrow> 'x disk_scheme \<Rightarrow> bool" where
  "no_database_file p d \<longleftrightarrow> node_at d (parent p) \<noteq> Some DirNode \<or> node_at d p = Some DirNode"

text \<open>\<open>sqlite3.connect\<close> and \<open>CREATE TABLE IF NOT EXISTS\<close>: the first use creates the file and the table.\<close>

definition connect_db :: "pure_path \<Rightarrow> ('x disk_scheme, unit) io" where
  "connect_db p = (\<lambda>d.
     if no_database_file p d then (Inl (sqlite_error ''unable to open database file''), d)
     else case db_refused d of
            Some msg \<Rightarrow> (Inl (sqlite_error msg), d)
          | None \<Rightarrow> (Inr (), d\<lparr>node_at := (node_at d)(p := Some FileNode),
              tables := (tables d)(p := Some (case tables d p of None \<Rightarrow> [] | Some rows \<Rightarrow> rows))\<rparr>))"

text \<open>The statements run on the table of an open connection.\<close>

definition on_table :: "pure_path \<Rightarrow> (history_db, 'a) io \<Rightarrow> ('x disk_scheme, 'a) io" where
  "on_table p f = (\<lambda>d.
     case f \<lparr>db_rows = (case tables d p of None \<Rightarrow> [] | Some rows \<Rightarrow> rows), db_fault = None\<rparr> of
       (r, t) \<Rightarrow> (r, d\<lparr>tables := (tables d)(p := Some (db_rows t))\<rparr>))"

definition file_record_wear :: "pure_path \<Rightarrow> wear_snapshot \<Rightarrow> ('x disk_scheme, unit) io" where
  "file_record_wear p s = io_bind (connect_db p) (\<lambda>_. on_table p (record_wear s))"

definition file_wear_history :: "pure_path \<Rightarrow> string \<Rightarrow> int \<Rightarrow> ('x disk_scheme, wear_snapshot list) io" where
  "file_wear_history p b n = io_bind (connect_db p) (\<lambda>_. on_table p (wear_history b n))"

section \<open>Creating directories\<close>

text \<open>What is there stays; what is new is a directory above or at the given path.\<close>

definition grows :: "pure_path \<Rightarrow> 'x disk_scheme \<Rightarrow> 'x disk_scheme \<Rightarrow> bool" where
  "grows p d d' \<longleftrightarrow>
     d' = d\<lparr>node_at := node_at d'\<rparr> \<and>
     (\<forall>q. node_at d' q = node_at d q \<or>
        node_at d q = None \<and> node_at d' q = Some DirNode \<and> (\<exists>i. q = p\<lparr>pp_parts := take i (pp_parts p)\<rparr>))"

lemma grows_refl [simp]: "grows p d d"
  by (simp add: grows_def)

lemma grows_trans:
  assumes "grows p d e" "grows p e f"
  shows "grows p d f"
proof -
  have "f = d\<lparr>node_at := node_at f\<rparr>" using assms unfolding grows_def by (metis (no_types) disk.surjective disk.update_convs(1))
  moreover have "node_at f q = node_at d q \<or>
      node_at d q = None \<and> node_at f q = Some DirNode \<and> (\<exists>i. q = p\<lparr>pp_parts := take i (pp_parts p)\<rparr>)" for q
    using assms unfolding grows_def by metis
  ultimately show ?thesis by (simp add: grows_def)
qed

lemma parent_take: "(parent p)\<lparr>pp_parts := take i (pp_parts (parent p))\<rparr> =
    p\<lparr>pp_parts := take (min i (length (pp_parts p) - 1)) (pp_parts p)\<rparr>"
  by (simp add: parent_def butlast_conv_take min.commute)

lemma grows_parent: "grows (parent p) d d' \<Longrightarrow> grows p d d'"
  unfolding grows_def parent_take by metis

lemma mkdir_one_grows: "mkdir_one p d = (r, d') \<Longrightarrow> grows p d d'"
proof -
  have "grows p d (d\<lparr>node_at := (node_at d)(p := Some DirNode)\<rparr>)" if "node_at d p = None"
    using that by (auto simp: grows_def intro!: exI [of _ "length (pp_parts p)"])
  then show "mkdir_one p d = (r, d') \<Longrightarrow> grows p d d'"
    by (auto simp: mkdir_one_def os_mkdir_def split: if_splits option.splits)
qed

lemma mkdir_one_dir: "mkdir_one p d = (Inr (), d') \<Longrightarrow> node_at d' p = Some DirNode"
  by (auto simp: mkdir_one_def os_mkdir_def split: if_splits option.splits)

lemma mkdir_one_cases:
  obtains "mkdir_one p d = (Inl NoEntry, d)" "node_at d (parent p) = None"
  | r d' where "mkdir_one p d = (r, d')" "r \<noteq> Inl NoEntry"
proof -
  have none: "mkdir_one p d = (Inl NoEntry, d') \<Longrightarrow> d' = d \<and> node_at d (parent p) = None" for d'
    by (auto simp: mkdir_one_def os_mkdir_def split: if_splits option.splits)
  obtain r d' where "mkdir_one p d = (r, d')" by (metis surj_pair)
  with that none show thesis by (cases "r = Inl NoEntry") auto
qed

lemma mkdir_parents_done: "mkdir_one p d = (r, d') \<Longrightarrow> r \<noteq> Inl NoEntry \<Longrightarrow> mkdir_parents p d = (r, d')"
  by (subst mkdir_parents.simps) (auto split: sum.split os_failure.split)

lemma mkdir_parents_above:
  "mkdir_one p d = (Inl NoEntry, d) \<Longrightarrow> pp_parts p \<noteq> [] \<Longrightarrow> mkdir_parents p d =
     (case mkdir_parents (parent p) d of (Inl e, d') \<Rightarrow> (Inl e, d') | (Inr _, d') \<Rightarrow> mkdir_one p d')"
  by (subst mkdir_parents.simps) simp

lemma mkdir_parents_grows: "mkdir_parents p d = (r, d') \<Longrightarrow> grows p d d'"
proof (induction "length (pp_parts p)" arbitrary: p r d')
  case 0
  show ?case
  proof (cases rule: mkdir_one_cases [of p d])
    case 1
    with 0 show ?thesis by (simp add: mkdir_parents.simps [of p])
  next
    case (2 r' e)
    then show ?thesis using 0(2) mkdir_parents_done [OF 2] mkdir_one_grows [OF 2(1)] by simp
  qed
next
  case (Suc n)
  show ?case
  proof (cases rule: mkdir_one_cases [of p d])
    case 1
    obtain r1 d1 where up: "mkdir_parents (parent p) d = (r1, d1)" by (metis surj_pair)
    have "grows (parent p) d d1" using Suc(2) by (intro Suc(1) [OF _ up]) (simp add: parent_def)
    then have "grows p d d1" by (rule grows_parent)
    moreover have "pp_parts p \<noteq> []" using Suc(2) by auto
    then have "r1 = Inl e \<Longrightarrow> d' = d1" "r1 = Inr () \<Longrightarrow> mkdir_one p d1 = (r, d')" for e
      using Suc(3) up mkdir_parents_above [OF 1(1)] by auto
    ultimately show ?thesis using grows_trans [of p d d1 d'] mkdir_one_grows [of p d1 r d'] by (cases r1) auto
  next
    case (2 r' e)
    then show ?thesis using Suc(3) mkdir_parents_done [OF 2] mkdir_one_grows [OF 2(1)] by simp
  qed
qed

lemma mkdir_parents_dir: "mkdir_parents p d = (Inr u, d') \<Longrightarrow> node_at d' p = Some DirNode"
proof (cases rule: mkdir_one_cases [of p d])
  case 1
  then show "mkdir_parents p d = (Inr u, d') \<Longrightarrow> node_at d' p = Some DirNode"
    using mkdir_one_dir [of p] by (cases "pp_parts p = []")
      (auto simp: mkdir_parents_above mkdir_parents.simps [of p] split: prod.splits sum.splits)
next
  case (2 r e)
  then show "mkdir_parents p d = (Inr u, d') \<Longrightarrow> node_at d' p = Some DirNode"
    using mkdir_parents_done [OF 2] mkdir_one_dir [of p d] by auto
qed

text \<open>A directory that is there is not touched again.\<close>

definition there :: "pure_path \<Rightarrow> 'x disk_scheme \<Rightarrow> bool" where
  "there q d \<longleftrightarrow> node_at d q = Some DirNode \<and> (file_above d q \<or> node_at d (parent q) \<noteq> None)"

lemma mkdir_one_there: "there q d \<Longrightarrow> mkdir_one q d = (Inr (), d)"
  by (auto simp: there_def mkdir_one_def os_mkdir_def)

lemma mkdir_parents_there: "there q d \<Longrightarrow> mkdir_parents q d = (Inr (), d)"
  by (rule mkdir_parents_done) (simp_all add: mkdir_one_there)

lemma mkdir_one_makes:
  assumes "mkdir_one q d = (Inr u, d')"
  shows "there q d'"
proof (cases "pp_parts q = []")
  case True
  then have "parent q = q" by (cases q) (simp add: parent_def)
  moreover have "node_at d' q = Some DirNode" using assms mkdir_one_dir [of q d] by simp
  ultimately show ?thesis by (simp add: there_def)
next
  case False
  then have "parent q \<noteq> q" by (cases q) (auto simp: parent_def, metis append_butlast_last_id append_self_conv list.distinct(1))
  with assms show ?thesis
    by (auto simp: there_def mkdir_one_def os_mkdir_def split: if_splits option.splits)
qed

lemma mkdir_parents_makes:
  assumes "mkdir_parents q d = (Inr u, d')"
  shows "there q d'"
proof (cases rule: mkdir_one_cases [of q d])
  case 1
  then show ?thesis using assms mkdir_one_makes
    by (cases "pp_parts q = []") (auto simp: mkdir_parents_above mkdir_parents.simps [of q] split: prod.splits sum.splits)
next
  case (2 r e)
  then show ?thesis using assms mkdir_parents_done [OF 2] mkdir_one_makes [of q d] by auto
qed

text \<open>Where the root is a directory and nothing is in the way or refused, the directories are created.\<close>

lemma mkdir_parents_succeeds:
  assumes "node_at d (p\<lparr>pp_parts := []\<rparr>) = Some DirNode"
    and "\<And>i. node_at d (p\<lparr>pp_parts := take i (pp_parts p)\<rparr>) \<noteq> Some FileNode"
    and "\<And>i. refused d (p\<lparr>pp_parts := take i (pp_parts p)\<rparr>) = None"
  shows "\<exists>d'. mkdir_parents p d = (Inr (), d')"
  using assms
proof (induction "length (pp_parts p)" arbitrary: p)
  case 0
  then have "p\<lparr>pp_parts := []\<rparr> = p" by (cases p) simp
  then have "there p d" using 0 by (cases p) (simp add: there_def parent_def)
  then show ?case using mkdir_parents_there by blast
next
  case (Suc n)
  have ne: "pp_parts p \<noteq> []" using Suc(2) by auto
  have whole: "p\<lparr>pp_parts := take (length (pp_parts p)) (pp_parts p)\<rparr> = p" by simp
  have free: "\<not> file_above e p" "node_at e p \<noteq> Some FileNode" "refused e p = None" if "grows p d e" for e
  proof -
    have "node_at e (p\<lparr>pp_parts := take i (pp_parts p)\<rparr>) \<noteq> Some FileNode" for i
      using that Suc(4) unfolding grows_def by (metis node.distinct(1) option.inject)
    then show "\<not> file_above e p" "node_at e p \<noteq> Some FileNode"
      using whole by (auto simp: file_above_def list_ex_iff, metis)
    have "refused e = refused d" using that unfolding grows_def by (metis disk.ext_inject disk.surjective disk.update_convs(1))
    then show "refused e p = None" using Suc(5) [of "length (pp_parts p)"] whole by simp
  qed
  have one: "\<exists>d'. mkdir_one p e = (Inr (), d')" if "grows p d e" "node_at e (parent p) \<noteq> None" for e
    using free [OF that(1)] that(2)
    by (cases "node_at e p") (auto simp: mkdir_one_def os_mkdir_def, metis (full_types) node.exhaust)
  show ?case
  proof (cases "node_at d (parent p) = None")
    case True
    have "\<exists>d1. mkdir_parents (parent p) d = (Inr (), d1)"
    proof (rule Suc(1))
      show "n = length (pp_parts (parent p))" using Suc(2) by (simp add: parent_def)
      show "node_at d ((parent p)\<lparr>pp_parts := []\<rparr>) = Some DirNode" using Suc(3) by (simp add: parent_def)
    qed (use Suc(4,5) in \<open>simp_all only: parent_take not_False_eq_True\<close>)
    then obtain d1 where up: "mkdir_parents (parent p) d = (Inr (), d1)" ..
    have none: "mkdir_one p d = (Inl NoEntry, d)" using True free [OF grows_refl] by (simp add: mkdir_one_def os_mkdir_def)
    have "\<exists>d'. mkdir_one p d1 = (Inr (), d')"
      using one [OF grows_parent [OF mkdir_parents_grows [OF up]]] mkdir_parents_dir [OF up] by simp
    then show ?thesis by (simp add: mkdir_parents_above [OF none ne] up)
  next
    case False
    then obtain d' where "mkdir_one p d = (Inr (), d')" using one [OF grows_refl] by blast
    then show ?thesis using mkdir_parents_done by blast
  qed
qed

section \<open>The file refines the table\<close>

definition db_fault_at :: "pure_path \<Rightarrow> 'x disk_scheme \<Rightarrow> string option" where
  "db_fault_at p d = (if no_database_file p d then Some ''unable to open database file'' else db_refused d)"

definition db_view :: "pure_path \<Rightarrow> 'x disk_scheme \<Rightarrow> history_db" where
  "db_view p d = \<lparr>db_rows = (case tables d p of None \<Rightarrow> [] | Some rows \<Rightarrow> rows), db_fault = db_fault_at p d\<rparr>"

lemma database_file_parts: "\<not> no_database_file p d \<Longrightarrow> parent p \<noteq> p"
  by (auto simp: no_database_file_def)

lemma no_database_file_update [simp]:
  "\<not> no_database_file p d \<Longrightarrow> \<not> no_database_file p (d\<lparr>node_at := (node_at d)(p \<mapsto> FileNode), tables := t\<rparr>)"
  using database_file_parts [of p d] by (auto simp: no_database_file_def)

lemma file_op_refines:
  assumes "\<And>t. db_fault (snd (f t)) = db_fault t" "\<And>t msg. db_fault t = Some msg \<Longrightarrow> f t = (Inl (sqlite_error msg), t)"
  shows "map_prod id (db_view p) (io_bind (connect_db p) (\<lambda>_. on_table p f) d) = f (db_view p d)"
proof (cases "db_fault_at p d")
  case (Some msg)
  then have "connect_db p d = (Inl (sqlite_error msg), d)" by (auto simp: connect_db_def db_fault_at_def split: if_splits)
  moreover have "f (db_view p d) = (Inl (sqlite_error msg), db_view p d)" using Some by (intro assms(2)) (simp add: db_view_def)
  ultimately show ?thesis by (simp add: io_bind_def)
next
  case None
  let ?rows = "case tables d p of None \<Rightarrow> [] | Some rows \<Rightarrow> rows"
  have ok: "\<not> no_database_file p d" "db_refused d = None" using None by (auto simp: db_fault_at_def split: if_splits)
  have view: "db_view p d = \<lparr>db_rows = ?rows, db_fault = None\<rparr>" using None by (simp add: db_view_def)
  obtain r t where f: "f (db_view p d) = (r, t)" by (metis surj_pair)
  then have "db_fault t = None" using assms(1) [of "db_view p d"] view by simp
  then show ?thesis
    using ok f view by (simp add: io_bind_def connect_db_def on_table_def db_view_def db_fault_at_def)
qed

lemma file_record_refines: "map_prod id (db_view p) (file_record_wear p s d) = record_wear s (db_view p d)"
  unfolding file_record_wear_def
  by (rule file_op_refines) (auto simp: record_wear_def split: option.split)

lemma file_history_refines: "map_prod id (db_view p) (file_wear_history p b n d) = wear_history b n (db_view p d)"
  unfolding file_wear_history_def
  by (rule file_op_refines) (auto simp: wear_history_def split: option.split)

section \<open>Restarts\<close>

definition store_ready :: "pure_path \<Rightarrow> 'x disk_scheme \<Rightarrow> bool" where
  "store_ready p d \<longleftrightarrow> there (parent p) d \<and> \<not> no_database_file p d"

lemma default_db_path_parts: "default_db_path env home = Inr p \<Longrightarrow> pp_parts p \<noteq> []"
  by (auto simp: default_db_path_def beneath_def Let_def split: if_splits sum.splits)

lemma open_store_ready:
  assumes "default_db_path env home = Inr p" "store_ready p d"
  shows "open_store env home None d = (Inr p, d)"
  using assms mkdir_parents_there [of "parent p" d] by (simp add: open_store_def store_ready_def)

lemma store_ready_connected:
  assumes "store_ready p d"
  shows "store_ready p (d\<lparr>node_at := (node_at d)(p \<mapsto> FileNode), tables := t\<rparr>)"
proof -
  have "parent p \<noteq> p" using assms database_file_parts by (auto simp: store_ready_def)
  then have "pp_parts p \<noteq> []" by (cases p) (auto simp: parent_def)
  then have shorter: "length (pp_parts (parent p)) < length (pp_parts p)" by (simp add: parent_def)
  have "(parent p)\<lparr>pp_parts := cs\<rparr> \<noteq> p" if "length cs \<le> length (pp_parts (parent p))" for cs
    using that shorter by (metis not_less pure_path.select_convs(2) pure_path.surjective pure_path.update_convs(2))
  then have "(parent p)\<lparr>pp_parts := take i (pp_parts (parent p))\<rparr> \<noteq> p" "parent (parent p) \<noteq> p" for i
    by (simp_all add: parent_def [of "parent p"])
  moreover have "\<not> no_database_file p (d\<lparr>node_at := (node_at d)(p \<mapsto> FileNode), tables := t\<rparr>)"
    using assms by (simp add: store_ready_def)
  ultimately show ?thesis using assms \<open>parent p \<noteq> p\<close>
    unfolding store_ready_def there_def file_above_def by simp
qed

lemma on_table_outside: "on_table p f d = (r, d') \<Longrightarrow> \<exists>t. d' = d\<lparr>tables := (tables d)(p := Some t)\<rparr>"
  by (auto simp: on_table_def split: prod.splits)

lemma file_record_outside:
  assumes "file_record_wear p s d = (r, d')"
  shows "d' = d \<or> (\<exists>t. d' = d\<lparr>node_at := (node_at d)(p \<mapsto> FileNode), tables := (tables d)(p := Some t)\<rparr>)"
  using assms
  by (auto simp: file_record_wear_def io_bind_def connect_db_def split: if_splits option.splits dest!: on_table_outside)

datatype store_op = Restart | Record wear_snapshot

fun store_run :: "(string \<times> string) list \<Rightarrow> exn + pure_path \<Rightarrow> pure_path \<Rightarrow> store_op \<Rightarrow> 'x disk_scheme \<Rightarrow> 'x disk_scheme" where
  "store_run env home p Restart d = snd (open_store env home None d)"
| "store_run env home p (Record s) d = snd (file_record_wear p s d)"

fun recorded :: "store_op list \<Rightarrow> wear_snapshot list" where
  "recorded [] = []"
| "recorded (Restart # ops) = recorded ops"
| "recorded (Record s # ops) = s # recorded ops"

text \<open>Nothing on the disk is touched but the database.\<close>

definition only_database :: "pure_path \<Rightarrow> 'x disk_scheme \<Rightarrow> 'x disk_scheme \<Rightarrow> bool" where
  "only_database p d d' \<longleftrightarrow> (\<forall>q. q \<noteq> p \<longrightarrow> node_at d' q = node_at d q \<and> tables d' q = tables d q)"

lemma store_run_step:
  assumes "default_db_path env home = Inr p" "store_ready p d"
  shows "store_ready p (store_run env home p op d) \<and> only_database p d (store_run env home p op d) \<and>
    db_view p (store_run env home p op d) = record_all (recorded [op]) (db_view p d)"
proof (cases op)
  case Restart
  then show ?thesis using assms open_store_ready [OF assms] by (simp add: only_database_def record_all_def)
next
  case (Record s)
  obtain r d' where run: "file_record_wear p s d = (r, d')" by (metis surj_pair)
  with file_record_refines [of p s d] have "db_view p d' = snd (record_wear s (db_view p d))" by (metis map_prod_simp snd_conv)
  moreover have "store_ready p d' \<and> only_database p d d'"
    using file_record_outside [OF run] assms(2) store_ready_connected by (auto simp: only_database_def)
  ultimately show ?thesis using Record run by (simp add: record_all_def)
qed

lemma store_runs:
  assumes "default_db_path env home = Inr p" "store_ready p d"
  shows "store_ready p (fold (store_run env home p) ops d) \<and> only_database p d (fold (store_run env home p) ops d) \<and>
    db_view p (fold (store_run env home p) ops d) = record_all (recorded ops) (db_view p d)"
  using assms(2)
proof (induction ops arbitrary: d)
  case Nil
  then show ?case by (simp add: only_database_def record_all_def)
next
  case (Cons op ops)
  have "record_all (recorded ops) (record_all (recorded [op]) w) = record_all (recorded (op # ops)) w" for w :: history_db
    by (cases op) (simp_all add: record_all_def)
  with Cons.IH [of "store_run env home p op d"] store_run_step [OF assms(1) Cons.prems, of op] show ?case
    by (simp add: only_database_def)
qed

lemma open_store_opens:
  assumes "open_store env home None d = (Inr p, d1)" "node_at d p \<noteq> Some DirNode"
  shows "default_db_path env home = Inr p" "store_ready p d1" "grows (parent p) d d1"
proof -
  have p: "default_db_path env home = Inr p" "mkdir_parents (parent p) d = (Inr (), d1)"
    using assms(1) by (auto simp: open_store_def split: sum.splits prod.splits)
  then show "default_db_path env home = Inr p" by simp
  show grown: "grows (parent p) d d1" using p(2) by (rule mkdir_parents_grows)
  have "pp_parts p \<noteq> []" using p(1) by (rule default_db_path_parts)
  then have "length (pp_parts (parent p)) < length (pp_parts p)" by (simp add: parent_def)
  then have "(parent p)\<lparr>pp_parts := take i (pp_parts (parent p))\<rparr> \<noteq> p" for i
    by (metis length_take min_less_iff_disj not_less_iff_gr_or_eq pure_path.select_convs(2) pure_path.surjective pure_path.update_convs(2))
  then have "node_at d1 p = node_at d p" using grown unfolding grows_def by metis
  then show "store_ready p d1"
    using p(2) assms(2) mkdir_parents_makes mkdir_parents_dir by (fastforce simp: store_ready_def no_database_file_def)
qed

section \<open>Properties\<close>

text \<open>C23: The wear history survives restarts. Once the application has opened its store on a disk without
  a history, any mixture of restarts and recorded snapshots leaves a database whose history
  query answers what the table does after exactly those snapshots; restarting again succeeds
  and changes nothing, and no other file, directory or database on the disk was ever touched
  except that the missing directories above the database were created.\<close>

theorem history_survives_restarts:
  assumes "open_store env home None d = (Inr p, d1)" "node_at d p \<noteq> Some DirNode"
    and "tables d p = None" "db_refused d = None" "later = fold (store_run env home p) ops d1"
  shows "fst (file_wear_history p b n later) = fst (wear_history b n (record_all (recorded ops) \<lparr>db_rows = [], db_fault = None\<rparr>)) \<and>
    open_store env home None later = (Inr p, later) \<and>
    (\<forall>q. q \<noteq> p \<longrightarrow> tables later q = tables d q \<and>
       (node_at later q = node_at d q \<or>
        node_at d q = None \<and> node_at later q = Some DirNode \<and> (\<exists>i. q = p\<lparr>pp_parts := take i (pp_parts p)\<rparr>)))"
proof -
  note opened = open_store_opens [OF assms(1,2)]
  note runs = store_runs [OF opened(1,2), of ops, folded assms(5)]
  have same: "tables d1 = tables d" "db_refused d1 = db_refused d"
    using opened(3) unfolding grows_def by (metis disk.ext_inject disk.surjective disk.update_convs(1))+
  have "db_view p d1 = \<lparr>db_rows = [], db_fault = None\<rparr>"
    using opened(2) assms(3,4) same by (simp add: db_view_def db_fault_at_def store_ready_def)
  with runs file_history_refines [of p b n later]
  have "fst (file_wear_history p b n later) = fst (wear_history b n (record_all (recorded ops) \<lparr>db_rows = [], db_fault = None\<rparr>))"
    by (metis fst_map_prod id_apply)
  moreover have "open_store env home None later = (Inr p, later)" using open_store_ready [OF opened(1)] runs by blast
  moreover have "tables later q = tables d q \<and>
      (node_at later q = node_at d q \<or>
       node_at d q = None \<and> node_at later q = Some DirNode \<and> (\<exists>i. q = p\<lparr>pp_parts := take i (pp_parts p)\<rparr>))" if "q \<noteq> p" for q
    using runs same grows_parent [OF opened(3)] that unfolding only_database_def grows_def by metis
  ultimately show ?thesis by blast
qed

definition example_disk :: disk where
  "example_disk = \<lparr>node_at = (\<lambda>q. if pp_parts q \<in> {[], [''home'']} then Some DirNode else None), refused = (\<lambda>q. None),
     tables = (\<lambda>q. None), db_refused = None\<rparr>"

definition example_db_path :: pure_path where
  "example_db_path = \<lparr>pp_root = ''/'', pp_parts = [''home'', ''.local'', ''share'', ''lapcare'', ''history.db'']\<rparr>"

lemma example_disk_opens: "\<exists>d1. open_store [] (Inr (new_path ''/home'')) None example_disk = (Inr example_db_path, d1)"
proof -
  have path: "default_db_path [] (Inr (new_path ''/home'')) = Inr example_db_path" by code_simp
  have "\<exists>d1. mkdir_parents (parent example_db_path) example_disk = (Inr (), d1)"
  proof (rule mkdir_parents_succeeds)
    show "node_at example_disk ((parent example_db_path)\<lparr>pp_parts := take i (pp_parts (parent example_db_path))\<rparr>) \<noteq> Some FileNode" for i
      by (simp add: example_disk_def)
  qed (simp_all add: example_disk_def parent_def)
  with path show ?thesis by (auto simp: open_store_def)
qed

theorem history_survives_restarts_witness:
  "\<exists>d1 s. open_store [] (Inr (new_path ''/home'')) None example_disk = (Inr example_db_path, d1) \<and>
     fst (file_wear_history example_db_path ''BAT0'' 365
       (fold (store_run [] (Inr (new_path ''/home'')) example_db_path) [Record s, Restart] d1)) = Inr [s]"
proof -
  let ?s = "\<lparr>ws_day = ''2026-01-01'', ws_battery_name = ''BAT0'', ws_wear_percent = None, ws_cycle_count = Some 7,
    ws_capacity_full = None, ws_capacity_design = None\<rparr>"
  obtain d1 where opened: "open_store [] (Inr (new_path ''/home'')) None example_disk = (Inr example_db_path, d1)"
    using example_disk_opens ..
  have "fst (wear_history ''BAT0'' 365 (record_all [?s] \<lparr>db_rows = [], db_fault = None\<rparr>)) = Inr [?s]"
    by (simp add: wear_history_def record_all_def record_wear_def sqlite_int_def snapshot_binds_def select_recent_def)
  moreover have "recorded [Record ?s, Restart] = [?s]" by simp
  moreover have free: "node_at example_disk example_db_path \<noteq> Some DirNode" "tables example_disk example_db_path = None"
    "db_refused example_disk = None"
    by (simp_all add: example_disk_def example_db_path_def)
  ultimately have "fst (file_wear_history example_db_path ''BAT0'' 365
      (fold (store_run [] (Inr (new_path ''/home'')) example_db_path) [Record ?s, Restart] d1)) = Inr [?s]"
    using history_survives_restarts [OF opened free refl, where ops = "[Record ?s, Restart]" and b = "''BAT0''" and n = 365]
    by (simp only:)
  with opened show ?thesis by blast
qed

end
