(* ===== verification/Application.thy ===== *)
theory Application
  imports HistoryFile Shell UPower Fwupd FirmwarePage StoragePage BatteryPage DashboardPage HardwarePage DiagnosticsPage
begin

text \<open>
  The application object of \<open>app.py\<close>: what its activation builds, in the order the code builds it,
  over the state it touches (its window, GLib's timers, the disk below the history database and
  the two connections to the system bus). A page is its view-model after the constructor of its
  view, which loads it; an exception leaves \<open>do_activate\<close> where it is raised.
\<close>

datatype app_page =
    Dashboard dashboard_vm
  | Battery battery_vm
  | Hardware hardware_vm
  | Firmware firmware_vm
  | Storage storage_vm
  | Diagnostics diagnostics_vm
  | Reference page_vm

record 'w application =
  ap_window :: "app_page window option"
  ap_presented :: nat
  ap_quit_after :: "int list"
    \<comment> \<open>the delays in milliseconds after which \<open>quit\<close> is called\<close>
  ap_accels :: "(string \<times> string list) list"
  ap_disk :: disk
  ap_upower :: "'w bus_client"
  ap_fwupd :: "'w bus_client"

text \<open>The environment of the process, its home directory and its monotonic clock.\<close>

record process_env =
  pe_vars :: environ
  pe_home :: "exn + pure_path"
  pe_now_ns :: int

definition app_init :: "'w application \<Rightarrow> 'w application" where
  "app_init a = a\<lparr>ap_accels := ap_accels a @ [(''app.quit'', [''<Control>q'']), (''window.close'', [''<Control>w''])]\<rparr>"

section \<open>The constructors of the views\<close>

definition dashboard_page_init :: "dashboard_vm \<Rightarrow> dashboard_vm" where
  "dashboard_page_init v = load_dashboard v"

definition hardware_page_init :: "hardware_vm \<Rightarrow> hardware_vm" where
  "hardware_page_init v = load_hardware v"

definition storage_page_init :: "storage_vm \<Rightarrow> storage_vm" where
  "storage_page_init v = load_storage v"

definition diagnostics_page_init :: "diagnostics_vm \<Rightarrow> diagnostics_vm" where
  "diagnostics_page_init v = load_diagnostics v"

definition battery_live_updates :: "'w system_bus \<Rightarrow> ('w bus_client, unit) io" where
  "battery_live_updates bus = start_live_updates (upower_subscribe bus)"

definition battery_page_init :: "'w system_bus \<Rightarrow> battery_vm \<Rightarrow> ('w bus_client, battery_vm) io" where
  "battery_page_init bus v = (let loaded = load_battery v in io_bind (battery_live_updates bus) (\<lambda>_. io_return loaded))"

definition firmware_page_init :: "'w system_bus \<Rightarrow> firmware_vm \<Rightarrow> ('w bus_client, firmware_vm) io" where
  "firmware_page_init bus v =
     (let loaded = load_firmware v in io_bind (start_live_updates (fwupd_subscribe bus)) (\<lambda>_. io_return loaded))"

section \<open>Activation\<close>

definition on_disk :: "(disk, 'a) io \<Rightarrow> ('w application, 'a) io" where
  "on_disk f = (\<lambda>a. case f (ap_disk a) of (r, d) \<Rightarrow> (r, a\<lparr>ap_disk := d\<rparr>))"

definition on_upower_bus :: "('w bus_client, 'a) io \<Rightarrow> ('w application, 'a) io" where
  "on_upower_bus f = (\<lambda>a. case f (ap_upower a) of (r, c) \<Rightarrow> (r, a\<lparr>ap_upower := c\<rparr>))"

definition on_fwupd_bus :: "('w bus_client, 'a) io \<Rightarrow> ('w application, 'a) io" where
  "on_fwupd_bus f = (\<lambda>a. case f (ap_fwupd a) of (r, c) \<Rightarrow> (r, a\<lparr>ap_fwupd := c\<rparr>))"

text \<open>The store is opened while the view-models are made, before any page.\<close>

definition build_pages :: "'w system_bus \<Rightarrow> process_env \<Rightarrow> ('w application, (string \<times> string \<times> app_page) list) io" where
  "build_pages bus env =
     io_bind (on_disk (open_store (pe_vars env) (pe_home env) None)) (\<lambda>db_path.
     io_bind (on_upower_bus (battery_page_init bus new_battery_page)) (\<lambda>battery.
     io_bind (on_fwupd_bus (firmware_page_init bus new_firmware_page)) (\<lambda>firmware.
     io_return
       [(''dashboard'', ''Dashboard'', Dashboard (dashboard_page_init new_dashboard)),
        (''battery'', ''Battery'', Battery battery),
        (''hardware'', ''Hardware'', Hardware (hardware_page_init new_hardware_page)),
        (''firmware'', ''Firmware'', Firmware firmware),
        (''storage'', ''Storage'', Storage (storage_page_init new_storage_page)),
        (''diagnostics'', ''Diagnostics'', Diagnostics (diagnostics_page_init (new_diagnostics_page True))),
        (''reference'', ''Reference'', Reference new_page)])))"

definition present_window :: "('w application, unit) io" where
  "present_window = (\<lambda>a. (Inr (), a\<lparr>ap_presented := Suc (ap_presented a)\<rparr>))"

text \<open>\<open>GLib.timeout_add\<close> takes an unsigned 32-bit number.\<close>

definition auto_quit :: "environ \<Rightarrow> ('w application, unit) io" where
  "auto_quit vars =
     (case dict_get ''LAPCARE_AUTO_QUIT_MS'' vars of
        None \<Rightarrow> io_return ()
      | Some text \<Rightarrow>
          (case py_int text of
             None \<Rightarrow> io_raise (PyException ''ValueError'' ''invalid literal for int()'')
           | Some ms \<Rightarrow>
               if 0 \<le> ms \<and> ms < 2 ^ 32 then (\<lambda>a. (Inr (), a\<lparr>ap_quit_after := ap_quit_after a @ [ms]\<rparr>))
               else io_raise (PyException ''OverflowError'' ''timeout_add'')))"

definition do_activate :: "'w system_bus \<Rightarrow> process_env \<Rightarrow> ('w application, unit) io" where
  "do_activate bus env = (\<lambda>a.
     io_bind
       (case ap_window a of
          Some w \<Rightarrow> io_return ()
        | None \<Rightarrow> io_bind (build_pages bus env) (\<lambda>pages a. (Inr (), a\<lparr>ap_window := Some (new_window pages)\<rparr>)))
       (\<lambda>_. io_bind present_window
       (\<lambda>_. io_bind (\<lambda>a. (launch_elapsed_s (pe_now_ns env) (pe_vars env), a))
       (\<lambda>_. auto_quit (pe_vars env)))) a)"

section \<open>Starting\<close>

text \<open>A page that has just been built waits for what it asked for; Diagnostics waits for the user.\<close>

fun page_started :: "app_page \<Rightarrow> bool" where
  "page_started (Dashboard v) \<longleftrightarrow> pg_state v = Loading \<and> da_jobs v = [IdentityJob, ScoreJob]"
| "page_started (Battery v) \<longleftrightarrow> pg_state v = Loading \<and> bv_jobs v = 1"
| "page_started (Hardware v) \<longleftrightarrow> pg_state v = Loading \<and> hw_jobs v = 1"
| "page_started (Firmware v) \<longleftrightarrow> pg_state v = Loading \<and> fv_jobs v = [GatherJob]"
| "page_started (Storage v) \<longleftrightarrow> pg_state v = Loading \<and> sv_jobs v = [InventoryJob]"
| "page_started (Diagnostics v) \<longleftrightarrow> pg_state v = Ready \<and> dv_jobs v = [] \<and> dv_has_writer v"
| "page_started (Reference v) \<longleftrightarrow> pg_state v = Loading"

lemma subscriptions_lapcare: "lapcare_only (upower_subscribe bus)" "lapcare_only (fwupd_subscribe bus)"
  unfolding upower_subscribe_def fwupd_subscribe_def upower_connection_def fwupd_connection_def
  by (intro io_intros)+

lemma battery_page_init_total:
  obtains c' where "battery_page_init bus v c = (Inr (load_battery v), c')"
proof -
  have "never_raises (battery_live_updates bus)"
    unfolding battery_live_updates_def by (intro start_live_updates_total subscriptions_lapcare)
  then obtain x c' where "battery_live_updates bus c = (Inr x, c')" unfolding never_raises_def by blast
  then show thesis by (intro that [of c']) (simp add: battery_page_init_def Let_def io_bind_Inr)
qed

lemma firmware_page_init_total:
  obtains c' where "firmware_page_init bus v c = (Inr (load_firmware v), c')"
proof -
  have "never_raises (start_live_updates (fwupd_subscribe bus))" by (intro start_live_updates_total subscriptions_lapcare)
  then obtain x c' where "start_live_updates (fwupd_subscribe bus) c = (Inr x, c')" unfolding never_raises_def by blast
  then show thesis by (intro that [of c']) (simp add: firmware_page_init_def Let_def io_bind_Inr)
qed

lemma pages_started:
  "page_started (Dashboard (dashboard_page_init new_dashboard))"
  "page_started (Battery (load_battery new_battery_page))"
  "page_started (Hardware (hardware_page_init new_hardware_page))"
  "page_started (Firmware (load_firmware new_firmware_page))"
  "page_started (Storage (storage_page_init new_storage_page))"
  "page_started (Diagnostics (diagnostics_page_init (new_diagnostics_page True)))"
  "page_started (Reference new_page)"
  by (simp_all add: dashboard_page_init_def load_dashboard_def new_dashboard_def hardware_page_init_def load_hardware_def
      new_hardware_page_def storage_page_init_def load_storage_def new_storage_page_def diagnostics_page_init_def
      load_diagnostics_def new_diagnostics_page_def load_battery_def new_battery_page_def load_firmware_def
      new_firmware_page_def submit_job_def new_page_def page_defs)

lemma build_pages_cases:
  "case open_store (pe_vars env) (pe_home env) None (ap_disk a) of
     (Inl e, d) \<Rightarrow> build_pages bus env a = (Inl e, a\<lparr>ap_disk := d\<rparr>)
   | (Inr p, d) \<Rightarrow> \<exists>pages a'. build_pages bus env a = (Inr pages, a') \<and>
       List.map (\<lambda>(i, t, w). (i, t)) pages = APP_PAGES \<and> list_all (\<lambda>(i, t, w). page_started w) pages \<and>
       ap_window a' = ap_window a \<and> ap_presented a' = ap_presented a \<and> ap_disk a' = d"
proof (cases "open_store (pe_vars env) (pe_home env) None (ap_disk a)")
  case (Pair r d)
  obtain c1 where b: "battery_page_init bus new_battery_page (ap_upower a) = (Inr (load_battery new_battery_page), c1)"
    using battery_page_init_total by blast
  obtain c2 where f: "firmware_page_init bus new_firmware_page (ap_fwupd a) = (Inr (load_firmware new_firmware_page), c2)"
    using firmware_page_init_total by blast
  show ?thesis
  proof (cases r)
    case (Inl e)
    with Pair show ?thesis by (simp add: build_pages_def on_disk_def io_bind_def)
  next
    case (Inr p)
    let ?a = "a\<lparr>ap_disk := d, ap_upower := c1, ap_fwupd := c2\<rparr>"
    let ?ps = "[(''dashboard'', ''Dashboard'', Dashboard (dashboard_page_init new_dashboard)),
        (''battery'', ''Battery'', Battery (load_battery new_battery_page)),
        (''hardware'', ''Hardware'', Hardware (hardware_page_init new_hardware_page)),
        (''firmware'', ''Firmware'', Firmware (load_firmware new_firmware_page)),
        (''storage'', ''Storage'', Storage (storage_page_init new_storage_page)),
        (''diagnostics'', ''Diagnostics'', Diagnostics (diagnostics_page_init (new_diagnostics_page True))),
        (''reference'', ''Reference'', Reference new_page)]"
    have "build_pages bus env a = (Inr ?ps, ?a)"
      using Inr Pair b f by (simp add: build_pages_def on_disk_def on_upower_bus_def on_fwupd_bus_def io_bind_def)
    moreover have "List.map (\<lambda>(i, t, w). (i, t)) ?ps = APP_PAGES" by (simp add: APP_PAGES_def)
    moreover have "list_all (\<lambda>(i, t, w). page_started w) ?ps" by (simp add: pages_started del: page_started.simps)
    ultimately obtain pages where "build_pages bus env a = (Inr pages, ?a)"
      "List.map (\<lambda>(i, t, w). (i, t)) pages = APP_PAGES" "list_all (\<lambda>(i, t, w). page_started w) pages" by blast
    then have "\<exists>pages a'. build_pages bus env a = (Inr pages, a') \<and>
       List.map (\<lambda>(i, t, w). (i, t)) pages = APP_PAGES \<and> list_all (\<lambda>(i, t, w). page_started w) pages \<and>
       ap_window a' = ap_window a \<and> ap_presented a' = ap_presented a \<and> ap_disk a' = d"
      by (intro exI [of _ pages] exI [of _ ?a] conjI) simp_all
    with Inr Pair show ?thesis by (simp only: prod.case sum.case)
  qed
qed

text \<open>What comes after the window is there.\<close>

definition finish_activation :: "process_env \<Rightarrow> ('w application, unit) io" where
  "finish_activation env =
     io_bind present_window
       (\<lambda>_. io_bind (\<lambda>a. (launch_elapsed_s (pe_now_ns env) (pe_vars env), a))
       (\<lambda>_. auto_quit (pe_vars env)))"

lemma do_activate_alt:
  "do_activate bus env a = (case ap_window a of
     Some w \<Rightarrow> finish_activation env a
   | None \<Rightarrow> (case build_pages bus env a of (Inl e, a') \<Rightarrow> (Inl e, a')
       | (Inr pages, a') \<Rightarrow> finish_activation env (a'\<lparr>ap_window := Some (new_window pages)\<rparr>)))"
  by (auto simp: do_activate_def finish_activation_def io_bind_def split: option.split sum.split prod.split)

lemma finish_activation_keeps:
  "finish_activation env a = (r, a') \<Longrightarrow>
   a' = a\<lparr>ap_presented := Suc (ap_presented a), ap_quit_after := ap_quit_after a'\<rparr>"
  by (auto simp: finish_activation_def present_window_def auto_quit_def io_bind_def split: sum.splits option.splits if_splits)

lemma first_page_shown:
  assumes "ps \<noteq> []"
  shows "wi_current (new_window ps) = Some (fst (hd ps))"
proof -
  let ?w = "fold register_page ps \<lparr>wi_pages = [], wi_rows = [], wi_current = None, wi_title = [], wi_child = None,
      wi_set = [], wi_show_content = False, wi_smoke_index = 0\<rparr>"
  have rows: "wi_rows ?w = List.map fst ps" by (simp add: register_fields)
  have ok: "window_ok ?w" by (simp add: window_ok_def register_fields)
  obtain p qs where "ps = p # qs" using assms by (cases ps) auto
  with rows have "row_at 0 ?w = Some (fst p)" "fst p \<in> set (wi_rows ?w)" by (simp_all add: row_at_def)
  with selected_current [OF ok] \<open>ps = p # qs\<close> show ?thesis by (simp add: new_window_def Let_def)
qed

section \<open>Properties\<close>

text \<open>C35: Activation is all or nothing, and its first result lasts. If the store's directory can be made, the
  first activation opens the window with the seven pages in their order, the dashboard shown and
  every page started, whatever the two bus connections do; every later activation, in whatever
  environment, presents that very window again and builds, subscribes and opens nothing. If the
  directory cannot be made, the error leaves \<open>do_activate\<close>: there is no window, no page and no
  presentation, although only the wear chart needs the store.\<close>

theorem activation_all_or_nothing:
  assumes "ap_window a = None" "do_activate bus env a = (r, a')"
  shows "case open_store (pe_vars env) (pe_home env) None (ap_disk a) of
     (Inl e, d) \<Rightarrow> r = Inl e \<and> a' = a\<lparr>ap_disk := d\<rparr>
   | (Inr p, d) \<Rightarrow> \<exists>pages. ap_window a' = Some (new_window pages) \<and>
       List.map (\<lambda>(i, t, w). (i, t)) pages = APP_PAGES \<and> list_all (\<lambda>(i, t, w). page_started w) pages \<and>
       wi_current (new_window pages) = Some ''dashboard'' \<and>
       ap_presented a' = Suc (ap_presented a) \<and> ap_disk a' = d \<and>
       (\<forall>env'. \<exists>quits. snd (do_activate bus env' a') =
          a'\<lparr>ap_presented := Suc (ap_presented a'), ap_quit_after := quits\<rparr>)"
proof (cases "open_store (pe_vars env) (pe_home env) None (ap_disk a)")
  case (Pair s d)
  show ?thesis
  proof (cases s)
    case (Inl e)
    with Pair have "build_pages bus env a = (Inl e, a\<lparr>ap_disk := d\<rparr>)" using build_pages_cases [where env = env and a = a and bus = bus] by simp
    with assms Pair Inl show ?thesis by (simp add: do_activate_alt)
  next
    case (Inr p)
    with Pair obtain pages b where b: "build_pages bus env a = (Inr pages, b)"
      and pages: "List.map (\<lambda>(i, t, w). (i, t)) pages = APP_PAGES" "list_all (\<lambda>(i, t, w). page_started w) pages"
      and same: "ap_presented b = ap_presented a" "ap_disk b = d"
      using build_pages_cases [where env = env and a = a and bus = bus] by auto
    from assms b have "finish_activation env (b\<lparr>ap_window := Some (new_window pages)\<rparr>) = (r, a')"
      by (simp add: do_activate_alt)
    from finish_activation_keeps [OF this] have fin: "ap_window a' = Some (new_window pages)"
      "ap_presented a' = Suc (ap_presented a)" "ap_disk a' = d"
      using same by (metis (no_types) application.ext_inject application.surjective application.update_convs)+
    have again: "\<exists>quits. snd (do_activate bus env' a') = a'\<lparr>ap_presented := Suc (ap_presented a'), ap_quit_after := quits\<rparr>" for env'
    proof -
      obtain r2 a2 where two: "finish_activation env' a' = (r2, a2)" by (metis surj_pair)
      with finish_activation_keeps [OF two] fin(1) show ?thesis by (auto simp: do_activate_alt)
    qed
    have first: "pages \<noteq> []" "fst (hd pages) = ''dashboard''"
      using pages(1) by (cases pages; force simp: APP_PAGES_def)+
    have "wi_current (new_window pages) = Some ''dashboard''" using first_page_shown [OF first(1)] first(2) by simp
    with pages fin again have "\<exists>pages. ap_window a' = Some (new_window pages) \<and>
       List.map (\<lambda>(i, t, w). (i, t)) pages = APP_PAGES \<and> list_all (\<lambda>(i, t, w). page_started w) pages \<and>
       wi_current (new_window pages) = Some ''dashboard'' \<and>
       ap_presented a' = Suc (ap_presented a) \<and> ap_disk a' = d \<and>
       (\<forall>env'. \<exists>quits. snd (do_activate bus env' a') =
          a'\<lparr>ap_presented := Suc (ap_presented a'), ap_quit_after := quits\<rparr>)"
      by blast
    with Pair Inr show ?thesis by (simp only: prod.case sum.case)
  qed
qed

text \<open>No bus, a fresh home directory, and an automatic quit that is not a number.\<close>

definition example_app :: "unit application" where
  "example_app = \<lparr>ap_window = None, ap_presented = 0, ap_quit_after = [], ap_accels = [], ap_disk = example_disk,
     ap_upower = \<lparr>has_bus = False, outside = ()\<rparr>, ap_fwupd = \<lparr>has_bus = False, outside = ()\<rparr>\<rparr>"

theorem activation_all_or_nothing_witness:
  "\<forall>bus. \<exists>pages a'. snd (do_activate bus \<lparr>pe_vars = [], pe_home = Inr (new_path ''/home''), pe_now_ns = 0\<rparr> example_app) = a' \<and>
     ap_window a' = Some (new_window pages) \<and> wi_current (new_window pages) = Some ''dashboard'' \<and> ap_presented a' = 1"
proof
  fix bus
  let ?env = "\<lparr>pe_vars = [], pe_home = Inr (new_path ''/home''), pe_now_ns = 0\<rparr>"
  obtain d where "open_store [] (Inr (new_path ''/home'')) None example_disk = (Inr example_db_path, d)"
    using example_disk_opens ..
  moreover obtain r a' where run: "do_activate bus ?env example_app = (r, a')" by (metis surj_pair)
  ultimately show "\<exists>pages a'. snd (do_activate bus ?env example_app) = a' \<and>
     ap_window a' = Some (new_window pages) \<and> wi_current (new_window pages) = Some ''dashboard'' \<and> ap_presented a' = 1"
    using activation_all_or_nothing [OF _ run] by (auto simp: example_app_def)
qed

end
