(* ===== verification/Spec2Isabelle.thy ===== *)
theory Spec2Isabelle
  imports Sysfs OsInfo DiskUsage StorageSmart PciUsb ReportJson ReportWriter FirmwarePolicy History Scheduler UPower Fwupd
    PageVM FirmwarePage StoragePage BatteryPage DashboardPage HardwarePage DiagnosticsPage ReportRender CaptureReplay System
    Shell StackProbe WearChart FirmwareView PageViews StorageView DiagnosticsView ReferenceView RunningPages ModelTypes HistoryFile Application
begin

text \<open>
  Verification library for Lapcare, a GTK application (Python, below \<open>src/src/lapcare\<close>) that
  reads the health of a laptop: battery wear, storage health, firmware, temperatures and disk
  space. It shows them on pages, condenses them into an explained health score, installs
  firmware through fwupd and exports a redacted report.

  \<^bold>\<open>The program.\<close> \<open>core/\<close> is pure: domain models, errors, ports (the interfaces
  providers implement), the diagnostics engine and the JSON report. \<open>providers/\<close> implement the
  ports over sysfs, procfs, two tools, D-Bus, libfwupd and a privileged helper
  (\<open>src/helper/lapcare_helper.py\<close>, started by pkexec). \<open>platform/\<close> has the audited process
  runner, the scheduler, the wear history and the report writer. \<open>ui/\<close> has a view-model and a
  view per page; a view-model submits coroutines to the scheduler, whose results come back as
  callbacks on the main thread. \<open>app.py\<close> wires all of them.

  \<^bold>\<open>Theories.\<close>
  \<^item> \<open>Prelude\<close>, \<open>PyStr\<close>, \<open>PyNum\<close>: shared facts, and the part of Python the program computes
    with. A \<open>str\<close> is the list of its UTF-8 bytes, with the operations that count code points
    written over \<open>chars\<close>; an \<open>int\<close> is unbounded; a \<open>float\<close> is a rational, with the rounding
    \<open>fl\<close> to binary64 written at every operation, or one of the special values of \<open>pyfloat\<close>.
  \<^item> \<open>Models\<close> (\<open>core/models.py\<close>, \<open>core/errors.py\<close>), \<open>Ports\<close> (\<open>core/ports.py\<close>): records and
    datatypes of the source, the exception hierarchy as one datatype, and an asynchronous
    operation as a function of a world that returns an exception or a value with the new world.
  \<^item> \<open>BatteryAnalysis\<close>, \<open>FirmwarePolicy\<close>, \<open>Diagnostics\<close>, \<open>ReportJson\<close> with \<open>Json\<close>: \<open>core/\<close>. The
    engine's checks against exact reference definitions, the run as a snapshot of its sources,
    the exported text read back, through \<open>json.dumps\<close> and \<open>json.loads\<close>, by a reader that knows the
    documented keys and words only.
  \<^item> \<open>Files\<close>, \<open>ToolRunner\<close>, \<open>ReportWriter\<close>, \<open>History\<close>, \<open>HistoryFile\<close>, \<open>Scheduler\<close>: \<open>platform/\<close>.
    Files are a snapshot; processes are what each command would do with a trace of what was
    started; a write is its sequence of system calls, each of which may fail; the history is the
    table SQLite keeps, and \<open>HistoryFile\<close> the file it is kept in, which refines the table; both
    schedulers are step relations over one view of the tasks.
  \<^item> \<open>Sysfs\<close> (DMI, ThinkPad detection, batteries, temperatures), \<open>OsInfo\<close>, \<open>DiskUsage\<close>, \<open>PciUsb\<close>,
    \<open>StorageSmart\<close> with \<open>Helper\<close>, \<open>Dbus\<close>, \<open>UPower\<close>, \<open>Fwupd\<close>: \<open>providers/\<close> and the helper, which
    is composed with the provider that parses its output. \<open>ModelTypes\<close>: the values of all of
    them have the types \<open>core/models.py\<close> annotates.
  \<^item> \<open>PageVM\<close>, \<open>DashboardPage\<close>, \<open>HardwarePage\<close>, \<open>BatteryPage\<close>, \<open>FirmwarePage\<close>, \<open>StoragePage\<close>,
    \<open>DiagnosticsPage\<close>, \<open>ReportRender\<close>: the view-models as state machines whose events (user
    actions, signals, timers, completions) interleave freely, and the exported renderings.
  \<^item> \<open>Widgets\<close>, \<open>PageViews\<close>, \<open>WearChart\<close>: the views as the widget trees they build, the chart as the
    Cairo calls it makes. \<open>PageUI\<close>: a view and its view-model as one machine, with
    \<open>FirmwareView\<close>, \<open>StorageView\<close>, \<open>DiagnosticsView\<close> and \<open>ReferenceView\<close> its instances.
    \<open>AsyncPages\<close>: such a machine on a scheduler it shares with other pages; \<open>RunningPages\<close>, its
    instances.
  \<^item> \<open>Application\<close>, \<open>System\<close> and \<open>Shell\<close> (\<open>app.py\<close>, \<open>platform/log.py\<close>, \<open>ui/window.py\<close>): what an
    activation builds, what whole runs do to the machine, start-up and shut-down. \<open>Capture\<close> and
    \<open>CaptureReplay\<close> (\<open>capture.py\<close>, its fixtures read back by the providers), \<open>StackProbe\<close>
    (\<open>src/tools/stack_probe.py\<close>).

  \<^bold>\<open>Interfaces.\<close> \<open>port_read\<close> and \<open>snapshot_read\<close> (a port's read raises only Lapcare errors, and
  leaves the world alone) are interpreted on the providers; \<open>tool_runner\<close> on \<open>run_tool\<close>;
  \<open>history_store\<close> on the SQLite operations; \<open>task_loop\<close> on both schedulers; \<open>exclusive_page\<close>, which
  extends \<open>page_ui\<close>, on the firmware, storage and diagnostics pages, \<open>page_ui\<close> alone on the
  reference page; \<open>page_scheduler\<close>, which extends \<open>task_loop\<close>, on both schedulers; \<open>async_page\<close> and
  \<open>async_system\<close>, which extend \<open>page_ui\<close>, on the three pages with user-started work. Their clients are
  the engine, the providers that run tools, the battery page, the delivery theorem and the pages.

  \<^bold>\<open>What the theorems show.\<close> A diagnostics run never raises what a port may raise, returns a
  well-formed report, asks for privilege only on request, at most once per listed drive and not
  again once refused, which costs the storage check alone; the checks and the score are what the
  rubric says, floats included, skipped checks counting neither way; the JSON export gives every
  field of the report back, and of its metrics the last value of each key; exports contain no
  identifiers and no markup from data; the helper and the runner start only whitelisted programs
  with a scrubbed environment; opening a page never prompts, and writes nothing but today's rows of
  the wear history; an install is only started on request, idle, with enough battery, and
  its outcome is fixed by what fwupd answers: it flashes only an offered release; writes are atomic;
  histories keep one row per day and battery and survive restarts; callbacks come once, in order, with the value or the exception of the task, and
  a page on a scheduler is the page on its own, pending exactly what has not called back; a
  click acts exactly when its widget is sensitive, and one operation of a page runs at a time; an
  activation shows a window with all its pages or none; the application runs on a started scheduler
  only, which is stopped however it ends (coroutines of the native one stay with the main
  context); a capture replays as the machine, less what it redacts.

  \<^bold>\<open>Bounds and fuel.\<close> JSON parsing recurses on fuel, twice the number of bytes and two more, which reads
  whatever any fuel reads (\<open>loads_enough\<close>); every other recursion is structural or has its measure.
  Wear thresholds agree with exact arithmetic up to capacities of \<open>2^45\<close> microwatt-hours; the
  runner's output bound is \<open>MAX_OUTPUT_BYTES\<close>, the helper's \<open>HELPER_MAX_OUTPUT\<close>.

  \<^bold>\<open>Parameters.\<close> What is not in the repository is an argument: what a started process does,
  \<open>statvfs\<close>, the names table of \<open>unicode_escape\<close>, libfwupd's client, the system bus, SQLite's
  failures, what the file system refuses, the home directory, the clock's day and time stamps,
  what Pango measures, and the GTK application object \<open>main\<close> builds and runs.

  \<^bold>\<open>Simplifications.\<close> The history database is a part of the machine beside its file system, except in
  \<open>HistoryFile\<close>; a fault of SQLite concerns its reads and its writes alike; a load of the battery page
  reads the day once, where the source asks the clock for every battery; the recursion limit of the
  interpreter, which deeply nested JSON would meet, is left out. \<open>assemble\<close> and \<open>last_sources\<close> name
  parts of \<open>run\<close> for the statements.

  \<^bold>\<open>Not modelled.\<close> \<open>platform/dbus.py\<close> (one call of GLib, the parameter \<open>system_bus\<close>); argparse; log
  messages; icons, margins and the Blueprint templates; the registration of resources and of the
  quit action; translation (text is the untranslated message); case mapping and the digits of
  regular expressions outside ASCII.
\<close>

end
